(* ===== verification/Prelude.thy ===== *)
theory Prelude
  imports Main "HOL-Library.Word" "HOL-Library.List_Lexorder" "HOL-Library.Char_ord" "HOL-Library.Sublist"
begin

text \<open>
  Shared ground of the development: the error values of the Go packages, the
  shape of a fallible operation on a state and its weakest preconditions, the byte and
  time types, and the few list and string lemmas several components need.
\<close>

named_theorems op_simps \<open>evaluation of composed operations\<close>
named_theorems wp_rules \<open>weakest-precondition rules for composed operations\<close>
named_theorems keeps_rules \<open>preservation rules for composed operations\<close>

type_synonym byte = "8 word"
type_synonym time = int
type_synonym dict = "string \<Rightarrow> string option"

section \<open>Error values\<close>

text \<open>
  One constructor per sentinel declared with \<open>errors.New\<close> in the packages under
  \<open>internal\<close>. An error value is the tree \<open>errors.Is\<close> walks: a sentinel, an
  error with nothing wrapped, or an error wrapping others (\<open>fmt.Errorf\<close> with
  \<open>%w\<close>, \<open>errors.Join\<close>); \<open>missingScopeError\<close> of the API carries the scope and wraps
  \<open>ErrForbidden\<close>. Message texts are not part of the model.
\<close>

datatype sentinel =
    Sb_not_found | Sb_name_taken | Sb_invalid_state | Sb_invalid_name | Sb_invalid_image
  | Sb_name_looks_like_id | Sb_invalid_resources | Sb_resource_exhausted
  | Sb_snapshot_required | Sb_invalid_network
  | Snap_not_found | Snap_name_taken | Snap_invalid_name | Snap_name_looks_like_id
  | Snap_has_children
  | Exec_not_found | Exec_writer_failed
  | Files_invalid_path | Files_unsafe_entry | Files_not_regular | Files_path_not_found
  | Files_too_large | Files_not_directory
  | Auth_not_found | Auth_name_taken | Auth_hash_taken | Auth_invalid_scope
  | Auth_scope_escalation | Auth_last_admin_token | Auth_unauthorized | Auth_invalid_name
  | Auth_unknown_token | Auth_token_expired | Auth_token_revoked
  | Rt_not_found | Rt_conflict | Rt_unavailable | Rt_invalid_spec | Rt_path_not_found
  | Api_invalid_request | Api_forbidden
  | Io_eof | Io_unexpected_eof | Io_short_write

datatype goerr =
    Sentinel sentinel
  | Opaque
  | Missing_scope string
  | Wrapped "goerr list"

fun errors_is :: "goerr \<Rightarrow> sentinel \<Rightarrow> bool" where
  "errors_is (Sentinel t) s = (t = s)"
| "errors_is Opaque s = False"
| "errors_is (Missing_scope w) s = (s = Api_forbidden)"
| "errors_is (Wrapped es) s = list_ex (\<lambda>e. errors_is e s) es"

text \<open>\<open>fmt.Errorf("%w: ...", sentinel)\<close>, and \<open>errors.Join(cause, err)\<close>.\<close>

definition wrapf :: "sentinel \<Rightarrow> goerr" where
  "wrapf s = Wrapped [Sentinel s]"

definition errors_join :: "goerr \<Rightarrow> goerr \<Rightarrow> goerr" where
  "errors_join a b = Wrapped [a, b]"

lemma errors_is_wrapf [simp]: "errors_is (wrapf s) t \<longleftrightarrow> s = t"
  by (simp add: wrapf_def)

lemma errors_is_join [simp]:
  "errors_is (errors_join a b) t \<longleftrightarrow> errors_is a t \<or> errors_is b t"
  by (simp add: errors_join_def)

section \<open>Fallible operations on a state\<close>

type_synonym ('s, 'a) op = "'s \<Rightarrow> (goerr + 'a) \<times> 's"

definition returnE :: "'a \<Rightarrow> ('s, 'a) op" where
  "returnE a s = (Inr a, s)"

definition throwE :: "goerr \<Rightarrow> ('s, 'a) op" where
  "throwE e s = (Inl e, s)"

definition bindE :: "('s, 'a) op \<Rightarrow> ('a \<Rightarrow> ('s, 'b) op) \<Rightarrow> ('s, 'b) op" where
  "bindE m f s = (case m s of (Inl e, s') \<Rightarrow> (Inl e, s') | (Inr a, s') \<Rightarrow> f a s')"

text \<open>\<open>x, err := m()\<close>: the error becomes a value the caller looks at.\<close>

definition attempt :: "('s, 'a) op \<Rightarrow> ('s, goerr + 'a) op" where
  "attempt m s = (case m s of (r, s') \<Rightarrow> (Inr r, s'))"

text \<open>A result already computed, an action that cannot fail, a guarded step.\<close>

type_synonym ('s, 'a) act = "'s \<Rightarrow> 'a \<times> 's"

definition liftR :: "goerr + 'a \<Rightarrow> ('s, 'a) op" where
  "liftR r s = (r, s)"

definition liftE :: "('s, 'a) act \<Rightarrow> ('s, 'a) op" where
  "liftE m s = (case m s of (a, s') \<Rightarrow> (Inr a, s'))"

definition whenE :: "bool \<Rightarrow> ('s, unit) op \<Rightarrow> ('s, unit) op" where
  "whenE b m = (if b then m else returnE ())"

lemma liftR_eq [op_simps, simp]: "liftR r s = (r, s)"
  by (simp add: liftR_def)

lemma returnE_eq [op_simps, simp]: "returnE a s = (Inr a, s)"
  by (simp add: returnE_def)

lemma throwE_eq [op_simps, simp]: "throwE e s = (Inl e, s)"
  by (simp add: throwE_def)

lemma bindE_Inr [op_simps]: "m s = (Inr a, s') \<Longrightarrow> bindE m f s = f a s'"
  by (simp add: bindE_def)

lemma bindE_Inl [op_simps]: "m s = (Inl e, s') \<Longrightarrow> bindE m f s = (Inl e, s')"
  by (simp add: bindE_def)

lemma bindE_return [simp]: "bindE (returnE a) f = f a"
  by (rule ext) (simp add: bindE_def)

lemma bindE_throw [simp]: "bindE (throwE e) f = throwE e"
  by (rule ext) (simp add: bindE_def)

lemma attempt_eq [op_simps]: "m s = (r, s') \<Longrightarrow> attempt m s = (Inr r, s')"
  by (simp add: attempt_def)

lemma bindE_attempt [op_simps]: "m s = (r, s') \<Longrightarrow> bindE (attempt m) f s = f r s'"
  by (simp add: bindE_def attempt_def)

lemma bindE_cases:
  assumes "bindE m f s = (r, t)"
  obtains (err) e where "m s = (Inl e, t)" "r = Inl e"
    | (ok) a s' where "m s = (Inr a, s')" "f a s' = (r, t)"
  using assms by (auto simp: bindE_def split: prod.splits sum.splits)

lemma attempt_cases:
  assumes "bindE (attempt m) f s = (r, t)"
  obtains x s' where "m s = (x, s')" "f x s' = (r, t)"
  using assms by (auto simp: bindE_def attempt_def split: prod.splits sum.splits)

lemma liftE_cases:
  assumes "bindE (liftE m) f s = (r, t)"
  obtains a s' where "m s = (a, s')" "f a s' = (r, t)"
  using assms by (auto simp: bindE_def liftE_def split: prod.splits)

lemma liftR_cases:
  assumes "bindE (liftR x) f s = (r, t)"
  obtains (err) e where "x = Inl e" "r = Inl e" "t = s"
    | (ok) a where "x = Inr a" "f a s = (r, t)"
  using assms by (auto simp: bindE_def split: sum.splits)

lemma whenE_cases:
  assumes "bindE (whenE b m) f s = (r, t)"
  obtains (off) "\<not> b" "f () s = (r, t)"
    | (err) e where "b" "m s = (Inl e, t)" "r = Inl e"
    | (on) s' where "b" "m s = (Inr (), s')" "f () s' = (r, t)"
  using assms by (auto simp: bindE_def whenE_def split: prod.splits sum.splits if_splits)

subsection \<open>Weakest preconditions\<close>

text \<open>
  \<open>wp m Q E s\<close>: a run of \<open>m\<close> from \<open>s\<close> that returns satisfies \<open>Q\<close>, and one that fails
  satisfies \<open>E\<close>. Every operation is a total function, so this is total correctness.
  \<open>intro wp_rules\<close> runs a composed operation forwards, one goal per path.
\<close>

definition wp ::
    "('s, 'a) op \<Rightarrow> ('a \<Rightarrow> 's \<Rightarrow> bool) \<Rightarrow> (goerr \<Rightarrow> 's \<Rightarrow> bool) \<Rightarrow> 's \<Rightarrow> bool" where
  "wp m Q E s \<longleftrightarrow> (case m s of (Inl e, s') \<Rightarrow> E e s' | (Inr a, s') \<Rightarrow> Q a s')"

lemma wpI:
  assumes "\<And>a s'. m s = (Inr a, s') \<Longrightarrow> Q a s'" and "\<And>e s'. m s = (Inl e, s') \<Longrightarrow> E e s'"
  shows "wp m Q E s"
  using assms by (auto simp: wp_def split: prod.splits sum.splits)

lemma wpD:
  assumes "wp m Q E s" "m s = (r, s')"
  shows "case r of Inl e \<Rightarrow> E e s' | Inr a \<Rightarrow> Q a s'"
  using assms by (auto simp: wp_def split: sum.splits)

lemma wp_Inr: "wp m Q E s \<Longrightarrow> m s = (Inr a, s') \<Longrightarrow> Q a s'"
  by (simp add: wp_def)

lemma wp_Inl: "wp m Q E s \<Longrightarrow> m s = (Inl e, s') \<Longrightarrow> E e s'"
  by (simp add: wp_def)

lemma wp_snd:
  assumes "wp m (\<lambda>a. P) (\<lambda>e. P) s"
  shows "P (snd (m s))"
  using assms by (simp add: wp_def split: prod.splits sum.splits)

lemma wp_weaken:
  assumes "wp m Q' E' s" "\<And>a s'. Q' a s' \<Longrightarrow> Q a s'" "\<And>e s'. E' e s' \<Longrightarrow> E e s'"
  shows "wp m Q E s"
  using assms by (simp add: wp_def split: prod.splits sum.splits)

lemma wp_return [wp_rules]: "Q a s \<Longrightarrow> wp (returnE a) Q E s"
  by (simp add: wp_def)

lemma wp_throw [wp_rules]: "E e s \<Longrightarrow> wp (throwE e) Q E s"
  by (simp add: wp_def)

lemma wp_bind [wp_rules]: "wp m (\<lambda>a. wp (f a) Q E) E s \<Longrightarrow> wp (bindE m f) Q E s"
  by (simp add: wp_def bindE_def split: prod.splits sum.splits)

lemma wp_attempt [wp_rules]: "wp m (\<lambda>a. Q (Inr a)) (\<lambda>e. Q (Inl e)) s \<Longrightarrow> wp (attempt m) Q E s"
  by (simp add: wp_def attempt_def split: prod.splits sum.splits)

lemma wp_liftR [wp_rules]:
  "(\<And>a. r = Inr a \<Longrightarrow> Q a s) \<Longrightarrow> (\<And>e. r = Inl e \<Longrightarrow> E e s) \<Longrightarrow> wp (liftR r) Q E s"
  by (simp add: wp_def split: sum.splits)

lemma wp_liftE: "(\<And>a s'. m s = (a, s') \<Longrightarrow> Q a s') \<Longrightarrow> wp (liftE m) Q E s"
  by (simp add: wp_def liftE_def split: prod.splits)

lemma wp_whenE [wp_rules]:
  "(b \<Longrightarrow> wp m Q E s) \<Longrightarrow> (\<not> b \<Longrightarrow> Q () s) \<Longrightarrow> wp (whenE b m) Q E s"
  by (simp add: whenE_def wp_return)

lemma wp_if [wp_rules]:
  "(b \<Longrightarrow> wp m Q E s) \<Longrightarrow> (\<not> b \<Longrightarrow> wp m' Q E s) \<Longrightarrow> wp (if b then m else m') Q E s"
  by simp

lemma wp_Let [wp_rules]: "wp (f a) Q E s \<Longrightarrow> wp (let x = a in f x) Q E s"
  by simp

lemma wp_case_sum_Inl [wp_rules]: "wp (f e) Q E s \<Longrightarrow> wp (case Inl e of Inl e \<Rightarrow> f e | Inr a \<Rightarrow> g a) Q E s"
  and wp_case_sum_Inr [wp_rules]: "wp (g a) Q E s \<Longrightarrow> wp (case Inr a of Inl e \<Rightarrow> f e | Inr a \<Rightarrow> g a) Q E s"
  by simp_all

lemma wp_case_sum:
  "(\<And>e. x = Inl e \<Longrightarrow> wp (f e) Q E s) \<Longrightarrow> (\<And>a. x = Inr a \<Longrightarrow> wp (g a) Q E s) \<Longrightarrow>
     wp (case x of Inl e \<Rightarrow> f e | Inr a \<Rightarrow> g a) Q E s"
  by (cases x) auto

lemma wp_case_option [wp_rules]:
  "(x = None \<Longrightarrow> wp m Q E s) \<Longrightarrow> (\<And>a. x = Some a \<Longrightarrow> wp (g a) Q E s) \<Longrightarrow>
     wp (case x of None \<Rightarrow> m | Some a \<Rightarrow> g a) Q E s"
  by (cases x) auto

lemma wp_case_prod [wp_rules]:
  "(\<And>a b. x = (a, b) \<Longrightarrow> wp (f a b) Q E s) \<Longrightarrow> wp (case x of (a, b) \<Rightarrow> f a b) Q E s"
  by (cases x) auto

text \<open>An update of the state that cannot fail.\<close>

definition modE :: "('s \<Rightarrow> 's) \<Rightarrow> ('s, unit) op" where
  "modE f s = (Inr (), f s)"

lemma wp_modE [wp_rules]: "Q () (f s) \<Longrightarrow> wp (modE f) Q E s"
  by (simp add: wp_def modE_def)

text \<open>\<open>keeps P m\<close>: whatever \<open>m\<close> returns, \<open>P\<close> survives it.\<close>

definition keeps :: "('s \<Rightarrow> bool) \<Rightarrow> ('s, 'a) op \<Rightarrow> bool" where
  "keeps P m \<longleftrightarrow> (\<forall>s. P s \<longrightarrow> P (snd (m s)))"

lemma keepsD: "keeps P m \<Longrightarrow> P s \<Longrightarrow> m s = (r, s') \<Longrightarrow> P s'"
  by (force simp: keeps_def)

lemma keepsI: "(\<And>s r s'. P s \<Longrightarrow> m s = (r, s') \<Longrightarrow> P s') \<Longrightarrow> keeps P m"
  by (simp add: keeps_def) (metis prod.collapse)

lemma keeps_return [keeps_rules]: "keeps P (returnE a)"
  by (simp add: keeps_def)

lemma keeps_throw [keeps_rules]: "keeps P (throwE e)"
  by (simp add: keeps_def)

lemma keeps_bind [keeps_rules]: "keeps P m \<Longrightarrow> (\<And>a. keeps P (f a)) \<Longrightarrow> keeps P (bindE m f)"
  by (fastforce simp: keeps_def bindE_def split: prod.splits sum.splits)

lemma keeps_attempt [keeps_rules]: "keeps P m \<Longrightarrow> keeps P (attempt m)"
  by (rule keepsI) (auto simp: attempt_def split: prod.splits dest: keepsD)

lemma keeps_liftR [keeps_rules]: "keeps P (liftR r)"
  by (simp add: keeps_def)

lemma keeps_liftE [keeps_rules]: "keeps P (liftE m)" if "\<And>s. P s \<Longrightarrow> P (snd (m s))"
  using that by (auto simp: keeps_def liftE_def split: prod.splits) (metis snd_conv)

lemma keeps_whenE [keeps_rules]: "(b \<Longrightarrow> keeps P m) \<Longrightarrow> keeps P (whenE b m)"
  by (simp add: whenE_def keeps_return)

lemma keeps_if [keeps_rules]:
  "(b \<Longrightarrow> keeps P m) \<Longrightarrow> (\<not> b \<Longrightarrow> keeps P m') \<Longrightarrow> keeps P (if b then m else m')"
  by simp

lemma keeps_case_sum [keeps_rules]:
  "(\<And>e. x = Inl e \<Longrightarrow> keeps P (f e)) \<Longrightarrow> (\<And>a. x = Inr a \<Longrightarrow> keeps P (g a)) \<Longrightarrow>
     keeps P (case x of Inl e \<Rightarrow> f e | Inr a \<Rightarrow> g a)"
  by (cases x) auto

lemma keeps_case_prod [keeps_rules]:
  "(\<And>a b. x = (a, b) \<Longrightarrow> keeps P (f a b)) \<Longrightarrow> keeps P (case x of (a, b) \<Rightarrow> f a b)"
  by (cases x) auto

lemma keeps_case_list [keeps_rules]:
  "(x = [] \<Longrightarrow> keeps P m) \<Longrightarrow> (\<And>a as. x = a # as \<Longrightarrow> keeps P (f a as)) \<Longrightarrow>
     keeps P (case x of [] \<Rightarrow> m | a # as \<Rightarrow> f a as)"
  by (cases x) auto

lemma keeps_case_option [keeps_rules]:
  "(x = None \<Longrightarrow> keeps P m) \<Longrightarrow> (\<And>a. x = Some a \<Longrightarrow> keeps P (g a)) \<Longrightarrow>
     keeps P (case x of None \<Rightarrow> m | Some a \<Rightarrow> g a)"
  by (cases x) auto

text \<open>
  \<open>leaves f m\<close>: no run of \<open>m\<close> changes what \<open>f\<close> reads of the state. It carries a law of
  one part of the state across the calls that only touch another.
\<close>

definition leaves :: "('s \<Rightarrow> 'b) \<Rightarrow> ('s, 'a) op \<Rightarrow> bool" where
  "leaves f m \<longleftrightarrow> (\<forall>s. f (snd (m s)) = f s)"

lemma leavesI: "(\<And>s r s'. m s = (r, s') \<Longrightarrow> f s' = f s) \<Longrightarrow> leaves f m"
  by (simp add: leaves_def) (metis prod.collapse)

lemma leavesD: "leaves f m \<Longrightarrow> m s = (r, s') \<Longrightarrow> f s' = f s"
  by (metis leaves_def snd_conv)

lemma wp_leaves:
  assumes "leaves f m" "\<And>a s'. f s' = f s \<Longrightarrow> Q a s'" "\<And>e s'. f s' = f s \<Longrightarrow> E e s'"
  shows "wp m Q E s"
  using assms by (auto intro!: wpI dest: leavesD)

lemma wp_liftE_leaves:
  assumes "leaves f (liftE m)" "\<And>a s'. f s' = f s \<Longrightarrow> Q a s'"
  shows "wp (liftE m) Q E s"
  using assms by (auto simp: leaves_def liftE_def wp_def split: prod.splits)

lemma wp_framed:
  assumes "wp m Q' E' s" "leaves f m" "\<And>a s'. Q' a s' \<Longrightarrow> f s' = f s \<Longrightarrow> Q a s'"
    and "\<And>e s'. E' e s' \<Longrightarrow> f s' = f s \<Longrightarrow> E e s'"
  shows "wp m Q E s"
  using assms by (auto simp: wp_def leaves_def split: prod.splits sum.splits) (metis snd_conv)+

lemma wp_framed2:
  assumes "wp m Q' E' s" "leaves f m" "leaves g m"
    and "\<And>a s'. Q' a s' \<Longrightarrow> f s' = f s \<Longrightarrow> g s' = g s \<Longrightarrow> Q a s'"
    and "\<And>e s'. E' e s' \<Longrightarrow> f s' = f s \<Longrightarrow> g s' = g s \<Longrightarrow> E e s'"
  shows "wp m Q E s"
  using assms by (auto simp: wp_def leaves_def split: prod.splits sum.splits) (metis snd_conv)+

text \<open>
  The same with a fact that is only kept, not left alone. \<open>entails\<close> is implication held
  back from the automation: without it every kept fact doubles the cases.
\<close>

definition entails :: "bool \<Rightarrow> bool \<Rightarrow> bool" where
  "entails a b \<longleftrightarrow> (a \<longrightarrow> b)"

lemma entailsD: "entails a b \<Longrightarrow> a \<Longrightarrow> b"
  by (simp add: entails_def)

lemma wp_kept:
  assumes "wp m Q' E' s" "leaves f m" "keeps c m"
    and "\<And>a s'. Q' a s' \<Longrightarrow> f s' = f s \<Longrightarrow> entails (c s) (c s') \<Longrightarrow> Q a s'"
    and "\<And>e s'. E' e s' \<Longrightarrow> f s' = f s \<Longrightarrow> entails (c s) (c s') \<Longrightarrow> E e s'"
  shows "wp m Q E s"
  using assms by (auto simp: wp_def leaves_def keeps_def entails_def split: prod.splits sum.splits)
    (metis snd_conv)+

lemma wp_kept2:
  assumes "wp m Q' E' s" "leaves f m" "leaves g m" "keeps c m"
    and "\<And>a s'. Q' a s' \<Longrightarrow> f s' = f s \<Longrightarrow> g s' = g s \<Longrightarrow> entails (c s) (c s') \<Longrightarrow> Q a s'"
    and "\<And>e s'. E' e s' \<Longrightarrow> f s' = f s \<Longrightarrow> g s' = g s \<Longrightarrow> entails (c s) (c s') \<Longrightarrow> E e s'"
  shows "wp m Q E s"
  using assms by (auto simp: wp_def leaves_def keeps_def entails_def split: prod.splits sum.splits)
    (metis snd_conv)+

lemma wp_liftE_kept:
  assumes "leaves f (liftE m)" "keeps c (liftE m)" "\<And>a s'. f s' = f s \<Longrightarrow> entails (c s) (c s') \<Longrightarrow> Q a s'"
  shows "wp (liftE m) Q E s"
  using assms by (auto simp: leaves_def keeps_def liftE_def wp_def entails_def split: prod.splits)

lemma leaves_keeps: "leaves f m \<Longrightarrow> keeps (\<lambda>s. P (f s)) m"
  by (simp add: leaves_def keeps_def)

lemma leaves_by_keeps: "(\<And>c. keeps (\<lambda>s. f s = c) m) \<Longrightarrow> leaves f m"
  by (simp add: leaves_def keeps_def)

lemma keeps_by_leaves: "leaves f m \<Longrightarrow> keeps (\<lambda>s. f s = c) m"
  by (simp add: leaves_def keeps_def)

lemma keeps_modE [keeps_rules]: "(\<And>s. P s \<Longrightarrow> P (f s)) \<Longrightarrow> keeps P (modE f)"
  by (simp add: keeps_def modE_def)


lemma wp_conj:
  assumes "wp m Q E s" "wp m Q' E' s"
  shows "wp m (\<lambda>a s'. Q a s' \<and> Q' a s') (\<lambda>e s'. E e s' \<and> E' e s') s"
  using assms by (auto simp: wp_def split: prod.splits sum.splits)

lemma leaves_unit: "leaves (\<lambda>s. ()) m"
  by (simp add: leaves_def)

text \<open>Reading a function of the state, updating the state: used by the providers.\<close>

definition readE :: "('s \<Rightarrow> goerr + 'a) \<Rightarrow> ('s, 'a) op" where
  "readE f s = (f s, s)"

lemma readE_eq [op_simps, simp]: "readE f s = (f s, s)"
  by (simp add: readE_def)

lemma keeps_readE [keeps_rules]: "keeps P (readE f)"
  by (simp add: keeps_def)

lemma wp_readE [wp_rules]:
  "(\<And>a. f s = Inr a \<Longrightarrow> Q a s) \<Longrightarrow> (\<And>e. f s = Inl e \<Longrightarrow> E e s) \<Longrightarrow> wp (readE f) Q E s"
  by (simp add: wp_def split: sum.splits)

section \<open>Lists\<close>

lemma filter_eq_nil_iff_all: "filter P xs = [] \<longleftrightarrow> (\<forall>x\<in>set xs. \<not> P x)"
  by (induction xs) auto

lemma list_update_id_iff: "find P xs = None \<longleftrightarrow> (\<forall>x\<in>set xs. \<not> P x)"
  by (induction xs) auto

lemma find_SomeD: "find P xs = Some x \<Longrightarrow> x \<in> set xs \<and> P x"
  by (induction xs) (auto split: if_splits)

text \<open>The row with a key, for lists whose keys are distinct.\<close>

lemma find_key_distinct:
  assumes "distinct (map k xs)" "x \<in> set xs"
  shows "find (\<lambda>y. k y = k x) xs = Some x"
  using assms by (induction xs) (auto simp: rev_image_eqI)

lemma map_key_update:
  assumes "\<And>x. x \<in> set xs \<Longrightarrow> k (f x) = k x"
  shows "map k (map f xs) = map k xs"
  using assms by (induction xs) auto

end
