(* ===== verification/Names.thy ===== *)
theory Names
  imports Prelude
begin

text \<open>
  The name rules of the sandbox, snapshot and token packages. \<open>uuid.Parse\<close> is
  third-party code: whether it accepts a string is the parameter \<open>is_uuid\<close>.
\<close>

definition lower_or_digit :: "char \<Rightarrow> bool" where
  "lower_or_digit c \<longleftrightarrow>
     (97 \<le> (of_char c :: nat) \<and> (of_char c :: nat) \<le> 122) \<or>
     (48 \<le> (of_char c :: nat) \<and> (of_char c :: nat) \<le> 57)"

text \<open>The regular expression \<open>^[a-z0-9][a-z0-9-]{0,62}$\<close>, the same in the three packages.\<close>

definition name_pattern :: "string \<Rightarrow> bool" where
  "name_pattern s =
     (case s of
        [] \<Rightarrow> False
      | c # cs \<Rightarrow> lower_or_digit c \<and> length cs \<le> 62 \<and>
          list_all (\<lambda>x. lower_or_digit x \<or> x = CHR ''-'') cs)"

definition sandbox_validate_name :: "(string \<Rightarrow> bool) \<Rightarrow> string \<Rightarrow> goerr + unit" where
  "sandbox_validate_name is_uuid s =
     (if \<not> name_pattern s then Inl (wrapf Sb_invalid_name)
      else if last s = CHR ''-'' then Inl (wrapf Sb_invalid_name)
      else if is_uuid s then Inl (wrapf Sb_name_looks_like_id)
      else Inr ())"

definition snapshot_validate_name :: "(string \<Rightarrow> bool) \<Rightarrow> string \<Rightarrow> goerr + unit" where
  "snapshot_validate_name is_uuid s =
     (if \<not> name_pattern s then Inl (wrapf Snap_invalid_name)
      else if last s = CHR ''-'' then Inl (wrapf Snap_invalid_name)
      else if is_uuid s then Inl (wrapf Snap_name_looks_like_id)
      else Inr ())"

definition auth_validate_name :: "string \<Rightarrow> goerr + unit" where
  "auth_validate_name s =
     (if \<not> name_pattern s then Inl (wrapf Auth_invalid_name)
      else if last s = CHR ''-'' then Inl (wrapf Auth_invalid_name)
      else Inr ())"

lemma name_pattern_bounds: "name_pattern s \<Longrightarrow> 0 < length s \<and> length s \<le> 63"
  by (auto simp: name_pattern_def split: list.splits)

lemma name_pattern_chars:
  "name_pattern s \<Longrightarrow> c \<in> set s \<Longrightarrow> lower_or_digit c \<or> c = CHR ''-''"
  by (auto simp: name_pattern_def list_all_iff split: list.splits)

lemma sandbox_name_ok_iff:
  "sandbox_validate_name is_uuid s = Inr () \<longleftrightarrow>
     name_pattern s \<and> last s \<noteq> CHR ''-'' \<and> \<not> is_uuid s"
  by (simp add: sandbox_validate_name_def)

lemma snapshot_name_ok_iff:
  "snapshot_validate_name is_uuid s = Inr () \<longleftrightarrow>
     name_pattern s \<and> last s \<noteq> CHR ''-'' \<and> \<not> is_uuid s"
  by (simp add: snapshot_validate_name_def)

end
