(* ===== verification/Runtime_Iface.thy ===== *)
theory Runtime_Iface
  imports Prelude
begin

text \<open>
  The data of \<open>internal/runtime\<close> and the \<open>Runtime\<close> interface: a record of operations
  on a state \<open>'s\<close> that stands for whatever the implementation holds (the Docker
  daemon, the in-memory fake). The laws its clients rely on are the locale
  \<open>container_runtime\<close>; every provider interprets it.
\<close>

datatype std_stream = Stream_stdout | Stream_stderr

record frame =
  fr_stream :: std_stream
  fr_data :: "byte list"

record create_spec =
  cs_sandbox_id :: string
  cs_image :: string
  cs_env :: dict
  cs_labels :: dict
  cs_cpu_millis :: int
  cs_memory_bytes :: int
  cs_pids_limit :: int
  cs_network_name :: string
  cs_oci_runtime :: string

record exec_spec =
  xs_command :: "string list"
  xs_env :: "dict option"
  xs_working_dir :: string
  xs_user :: string

datatype container_state = C_running | C_paused | C_stopped | C_gone

record snapshot_info =
  si_ref :: string
  si_size_bytes :: int

record container_status =
  cst_state :: container_state
  cst_exit_code :: "int option"

record exec_status =
  xst_running :: bool
  xst_exit_code :: "int option"

text \<open>\<open>fs.FileMode\<close>: the permission bits and Go's type bits, in 32 bits.\<close>

type_synonym file_mode = "32 word"

definition mode_type_mask :: file_mode where
  "mode_type_mask = 0x8f280000"

definition mode_is_regular :: "file_mode \<Rightarrow> bool" where
  "mode_is_regular m \<longleftrightarrow> and m mode_type_mask = 0"

record file_info =
  fi_name :: string
  fi_link_target :: string
  fi_size :: int
  fi_mode :: file_mode
  fi_mod_time :: time
  fi_is_dir :: bool

subsection \<open>Tar streams\<close>

text \<open>
  The entries an \<open>archive/tar\<close> reader yields, in order, and the error it ends with
  when it does not end with \<open>io.EOF\<close>.
\<close>

datatype tar_type = Type_reg | Type_dir | Type_symlink | Type_link | Type_other byte

record tar_header =
  th_typeflag :: tar_type
  th_name :: string
  th_linkname :: string
  th_size :: int
  th_mode :: "64 word"
  th_uid :: int
  th_gid :: int
  th_uname :: string
  th_gname :: string
  th_mod_time :: time

record tar_entry =
  te_header :: tar_header
  te_body :: "byte list"

record tar_stream =
  ts_entries :: "tar_entry list"
  ts_error :: "goerr option"

subsection \<open>The interface\<close>

text \<open>
  A session of \<open>Exec\<close> is named by its ID; \<open>Recv\<close>, \<open>Wait\<close> and \<open>Close\<close> take that ID.
\<close>

record 's runtime =
  rt_create :: "create_spec \<Rightarrow> ('s, string) op"
  rt_start :: "string \<Rightarrow> ('s, unit) op"
  rt_stop :: "string \<Rightarrow> int \<Rightarrow> ('s, unit) op"
  rt_destroy :: "string \<Rightarrow> ('s, unit) op"
  rt_inspect :: "string \<Rightarrow> ('s, container_status) op"
  rt_exec :: "string \<Rightarrow> exec_spec \<Rightarrow> ('s, string) op"
  rt_inspect_exec :: "string \<Rightarrow> ('s, exec_status) op"
  rt_snapshot :: "string \<Rightarrow> ('s, snapshot_info) op"
  rt_delete_snapshot :: "string \<Rightarrow> ('s, unit) op"
  rt_unpause :: "string \<Rightarrow> ('s, unit) op"
  rt_stat_path :: "string \<Rightarrow> string \<Rightarrow> ('s, file_info) op"
  rt_read_archive :: "string \<Rightarrow> string \<Rightarrow> ('s, tar_stream) op"
  rt_write_archive :: "string \<Rightarrow> string \<Rightarrow> tar_stream \<Rightarrow> ('s, unit) op"
  rt_recv :: "string \<Rightarrow> ('s, frame) op"
  rt_wait :: "string \<Rightarrow> ('s, int) op"
  rt_close :: "string \<Rightarrow> ('s, unit) op"

text \<open>
  The laws of containers and of images. \<open>ctr\<close> is the state of each container (\<open>C_gone\<close>
  when there is none), \<open>known\<close> the container ids handed out so far, \<open>images\<close> the committed
  images; a call that fails changes none of them. Ids and image references are new as long
  as the source of identifiers behind them does not repeat itself, which is part of \<open>calm\<close>.
\<close>

locale container_runtime =
  fixes rt :: "'s runtime"
    and ctr :: "'s \<Rightarrow> string \<Rightarrow> container_state"
    and known :: "'s \<Rightarrow> string set"
    and images :: "'s \<Rightarrow> string set"
    and calm :: "'s \<Rightarrow> bool"
  assumes create_law: "wp (rt_create rt spec)
      (\<lambda>i s'. entails (calm s) (i \<noteq> [] \<and> i \<notin> known s) \<and> known s' = insert i (known s) \<and>
         ctr s' = (ctr s)(i := C_stopped))
      (\<lambda>_ s'. ctr s' = ctr s \<and> known s' = known s) s"
    and start_law: "wp (rt_start rt i)
      (\<lambda>_ s'. ctr s i \<noteq> C_gone \<and> (\<exists>c. c \<noteq> C_gone \<and> ctr s' = (ctr s)(i := c)))
      (\<lambda>_ s'. ctr s' = ctr s) s"
    and stop_law: "wp (rt_stop rt i d)
      (\<lambda>_ s'. ctr s i \<noteq> C_gone \<and> ctr s' = (ctr s)(i := C_stopped))
      (\<lambda>_ s'. ctr s' = ctr s) s"
    and destroy_law: "wp (rt_destroy rt i)
      (\<lambda>_ s'. ctr s' = (ctr s)(i := C_gone))
      (\<lambda>e s'. ctr s' = ctr s \<and> (errors_is e Rt_not_found \<longrightarrow> ctr s i = C_gone)) s"
    and inspect_law: "wp (rt_inspect rt i)
      (\<lambda>st s'. ctr s' = ctr s \<and> cst_state st = ctr s i) (\<lambda>_ s'. ctr s' = ctr s) s"
    and unpause_law: "wp (rt_unpause rt i)
      (\<lambda>_ s'. ctr s i \<noteq> C_gone \<and>
         ctr s' = (if ctr s i = C_paused then (ctr s)(i := C_running) else ctr s))
      (\<lambda>_ s'. ctr s' = ctr s) s"
    and snapshot_law: "wp (rt_snapshot rt i)
      (\<lambda>info s'. ctr s' = ctr s \<and> entails (calm s) (si_ref info \<notin> images s) \<and>
         images s' = insert (si_ref info) (images s))
      (\<lambda>_ s'. ctr s' = ctr s \<and> images s' = images s) s"
    and delete_snapshot_law: "wp (rt_delete_snapshot rt ref)
      (\<lambda>_ s'. ctr s' = ctr s \<and> images s' = images s - {ref})
      (\<lambda>e s'. ctr s' = ctr s \<and> images s' = images s \<and>
         (errors_is e Rt_not_found \<longrightarrow> ref \<notin> images s)) s"
    and create_images: "leaves images (rt_create rt spec)"
    and start_frame: "leaves (\<lambda>s. (known s, images s)) (rt_start rt i)"
    and stop_frame: "leaves (\<lambda>s. (known s, images s)) (rt_stop rt i d)"
    and destroy_frame: "leaves (\<lambda>s. (known s, images s)) (rt_destroy rt i)"
    and inspect_frame: "leaves (\<lambda>s. (known s, images s)) (rt_inspect rt i)"
    and unpause_frame: "leaves (\<lambda>s. (known s, images s)) (rt_unpause rt i)"
    and snapshot_frame: "leaves known (rt_snapshot rt i)"
    and delete_snapshot_frame: "leaves known (rt_delete_snapshot rt ref)"
begin

lemmas runtime_rules =
  wp_framed [OF create_law create_images] wp_framed [OF start_law start_frame]
  wp_framed [OF stop_law stop_frame] wp_framed [OF destroy_law destroy_frame]
  wp_framed [OF inspect_law inspect_frame] wp_framed [OF unpause_law unpause_frame]
  wp_framed [OF snapshot_law snapshot_frame] wp_framed [OF delete_snapshot_law delete_snapshot_frame]

text \<open>The containers that exist: only \<open>Create\<close> adds one and only \<open>Destroy\<close> removes one.\<close>

lemma start_live: "wp (rt_start rt i) (\<lambda>_ s'. ctr s' j = C_gone \<longleftrightarrow> ctr s j = C_gone)
    (\<lambda>_ s'. ctr s' = ctr s) s"
  by (intro runtime_rules) (auto split: if_splits)

lemma stop_live: "wp (rt_stop rt i d) (\<lambda>_ s'. ctr s' j = C_gone \<longleftrightarrow> ctr s j = C_gone)
    (\<lambda>_ s'. ctr s' = ctr s) s"
  by (intro runtime_rules) auto

lemma destroy_gone: "wp (rt_destroy rt i) (\<lambda>_ s'. ctr s' = (ctr s)(i := C_gone))
    (\<lambda>e s'. errors_is e Rt_not_found \<longrightarrow> ctr s' = (ctr s)(i := C_gone)) s"
  by (intro runtime_rules) auto

end

end
