(* ===== verification/Snapshot.thy ===== *)
theory Snapshot
  imports Names Runtime_Iface
begin

text \<open>
  \<open>internal/snapshot\<close>: the snapshot row, the repository the service is given and its
  laws, and the service (\<open>Create\<close>, \<open>Get\<close>, \<open>List\<close>, \<open>Resolve\<close>, \<open>Delete\<close>). The source
  sandbox is reached through \<open>SandboxAccess.WithSnapshotSource\<close>, which runs a callback
  under the sandbox's lock; here the callback also returns the row it created.
\<close>

section \<open>Rows\<close>

record snapshot =
  sn_id :: string
  sn_name :: string
  sn_sandbox_id :: string
  sn_parent_id :: "string option"
  sn_runtime_ref :: string
  sn_image :: string
  sn_size_bytes :: int
  sn_created_at :: time
  sn_network :: string

record snapshot_filter =
  snf_sandbox_id :: string
  snf_limit :: int
  snf_cursor :: string

record sandbox_source =
  src_id :: string
  src_runtime_id :: string
  src_image :: string
  src_parent_snapshot_id :: "string option"
  src_network :: string

record resolved =
  rs_runtime_ref :: string
  rs_id :: string
  rs_network :: string

record snapshot_options =
  sno_sandbox_ref :: string
  sno_name :: string

section \<open>The repository\<close>

record 's snapshot_repo =
  snr_create :: "snapshot \<Rightarrow> ('s, unit) op"
  snr_get :: "string \<Rightarrow> ('s, snapshot) op"
  snr_get_by_name :: "string \<Rightarrow> ('s, snapshot) op"
  snr_list :: "snapshot_filter \<Rightarrow> ('s, snapshot list) op"
  snr_count_children :: "string \<Rightarrow> ('s, int) op"
  snr_delete :: "string \<Rightarrow> ('s, unit) op"

definition snapshot_row :: "snapshot list \<Rightarrow> string \<Rightarrow> snapshot option" where
  "snapshot_row rs i = find (\<lambda>x. sn_id x = i) rs"

definition children :: "snapshot list \<Rightarrow> string \<Rightarrow> snapshot list" where
  "children rs i = filter (\<lambda>x. sn_parent_id x = Some i) rs"

locale snapshot_store =
  fixes repo :: "'s snapshot_repo"
    and snaps :: "'s \<Rightarrow> snapshot list"
  assumes sn_create_law: "wp (snr_create repo x)
      (\<lambda>_ s'. snaps s' = snaps s @ [x] \<and> snapshot_row (snaps s) (sn_id x) = None)
      (\<lambda>_ s'. snaps s' = snaps s) s"
    and sn_get_law: "wp (snr_get repo i)
      (\<lambda>x s'. snaps s' = snaps s \<and> snapshot_row (snaps s) i = Some x)
      (\<lambda>_ s'. snaps s' = snaps s) s"
    and sn_get_by_name_law: "wp (snr_get_by_name repo n)
      (\<lambda>x s'. snaps s' = snaps s \<and> x \<in> set (snaps s) \<and> sn_name x = n)
      (\<lambda>_ s'. snaps s' = snaps s) s"
    and sn_list_law: "leaves snaps (snr_list repo f)"
    and sn_count_law: "wp (snr_count_children repo i)
      (\<lambda>n s'. snaps s' = snaps s \<and> n = int (length (children (snaps s) i)))
      (\<lambda>_ s'. snaps s' = snaps s) s"
    and sn_delete_law: "wp (snr_delete repo i)
      (\<lambda>_ s'. snaps s' = filter (\<lambda>x. sn_id x \<noteq> i) (snaps s)) (\<lambda>_ s'. snaps s' = snaps s) s"

section \<open>The service\<close>

record 's snapshot_service =
  sns_repo :: "'s snapshot_repo"
  sns_sandboxes :: "string \<Rightarrow> (sandbox_source \<Rightarrow> ('s, snapshot) op) \<Rightarrow> ('s, snapshot) op"
  sns_rt :: "'s runtime"
  sns_now :: "('s, time) act"
  sns_new_id :: "('s, string) act"
  sns_is_uuid :: "string \<Rightarrow> bool"

text \<open>The callback of \<open>Create\<close>: commit, then insert, rolling the image back on failure.\<close>

definition snapshot_commit ::
    "'s snapshot_service \<Rightarrow> string \<Rightarrow> sandbox_source \<Rightarrow> ('s, snapshot) op" where
  "snapshot_commit sv name src =
     bindE (rt_snapshot (sns_rt sv) (src_runtime_id src)) (\<lambda>info.
     bindE (liftE (sns_new_id sv)) (\<lambda>i.
     bindE (liftE (sns_now sv)) (\<lambda>now.
     let snap = \<lparr>sn_id = i, sn_name = name, sn_sandbox_id = src_id src,
                 sn_parent_id = src_parent_snapshot_id src, sn_runtime_ref = si_ref info,
                 sn_image = src_image src, sn_size_bytes = si_size_bytes info,
                 sn_created_at = now, sn_network = src_network src\<rparr>
     in bindE (attempt (snr_create (sns_repo sv) snap)) (\<lambda>r.
        case r of
          Inl err \<Rightarrow>
            bindE (attempt (rt_delete_snapshot (sns_rt sv) (si_ref info))) (\<lambda>d.
              throwE (case d of Inl e \<Rightarrow> errors_join err e | Inr _ \<Rightarrow> Wrapped [err]))
        | Inr _ \<Rightarrow> returnE snap))))"

definition snapshot_create :: "'s snapshot_service \<Rightarrow> snapshot_options \<Rightarrow> ('s, snapshot) op" where
  "snapshot_create sv opts =
     bindE (if sno_name opts \<noteq> [] then liftR (snapshot_validate_name (sns_is_uuid sv) (sno_name opts))
            else returnE ()) (\<lambda>_.
     sns_sandboxes sv (sno_sandbox_ref opts) (snapshot_commit sv (sno_name opts)))"

definition snapshot_get :: "'s snapshot_service \<Rightarrow> string \<Rightarrow> ('s, snapshot) op" where
  "snapshot_get sv ref =
     (if sns_is_uuid sv ref then snr_get (sns_repo sv) ref else snr_get_by_name (sns_repo sv) ref)"

definition snapshot_list :: "'s snapshot_service \<Rightarrow> snapshot_filter \<Rightarrow> ('s, snapshot list) op" where
  "snapshot_list sv f = snr_list (sns_repo sv) f"

definition snapshot_resolve :: "'s snapshot_service \<Rightarrow> string \<Rightarrow> ('s, resolved) op" where
  "snapshot_resolve sv ref =
     bindE (snapshot_get sv ref) (\<lambda>snap.
       returnE \<lparr>rs_runtime_ref = sn_runtime_ref snap, rs_id = sn_id snap, rs_network = sn_network snap\<rparr>)"

definition snapshot_delete :: "'s snapshot_service \<Rightarrow> string \<Rightarrow> ('s, unit) op" where
  "snapshot_delete sv ref =
     bindE (snapshot_get sv ref) (\<lambda>snap.
     bindE (snr_count_children (sns_repo sv) (sn_id snap)) (\<lambda>n.
     if n > 0 then throwE (wrapf Snap_has_children)
     else
       bindE (attempt (rt_delete_snapshot (sns_rt sv) (sn_runtime_ref snap))) (\<lambda>r.
         case r of
           Inl err \<Rightarrow> if errors_is err Rt_not_found then snr_delete (sns_repo sv) (sn_id snap)
                      else throwE err
         | Inr _ \<Rightarrow> snr_delete (sns_repo sv) (sn_id snap))))"

section \<open>What the service does to the rows and the images\<close>

text \<open>
  The environment of the service: the store of rows, the images the runtime holds, and
  that neither side's calls touch the other's.
\<close>

locale snapshot_env = snapshot_store "sns_repo sv" snaps + container_runtime "sns_rt sv" ctr known images calm
  for sv :: "'s snapshot_service" and snaps :: "'s \<Rightarrow> snapshot list"
    and ctr :: "'s \<Rightarrow> string \<Rightarrow> container_state"
    and known :: "'s \<Rightarrow> string set" and images :: "'s \<Rightarrow> string set" and calm :: "'s \<Rightarrow> bool" +
  assumes commit_rows: "leaves snaps (rt_snapshot (sns_rt sv) i)"
    and delete_image_rows: "leaves snaps (rt_delete_snapshot (sns_rt sv) ref)"
    and sn_now_rows: "leaves (\<lambda>s. (snaps s, images s)) (liftE (sns_now sv))"
    and sn_new_id_rows: "leaves (\<lambda>s. (snaps s, images s)) (liftE (sns_new_id sv))"
    and sn_create_images: "leaves images (snr_create (sns_repo sv) x)"
    and sn_get_images: "leaves images (snr_get (sns_repo sv) j)"
    and sn_get_by_name_images: "leaves images (snr_get_by_name (sns_repo sv) j)"
    and sn_count_images: "leaves images (snr_count_children (sns_repo sv) j)"
    and sn_delete_images: "leaves images (snr_delete (sns_repo sv) j)"
begin

lemmas snapshot_rules =
  wp_framed [OF snapshot_law commit_rows] wp_framed [OF delete_snapshot_law delete_image_rows]
  wp_liftE_leaves [OF sn_now_rows] wp_liftE_leaves [OF sn_new_id_rows]
  wp_framed [OF sn_create_law sn_create_images] wp_framed [OF sn_count_law sn_count_images]
  wp_framed [OF sn_delete_law sn_delete_images]

lemma snapshot_row_id: "snapshot_row rs i = Some x \<Longrightarrow> sn_id x = i \<and> x \<in> set rs"
  unfolding snapshot_row_def by (auto dest: find_SomeD)

text \<open>A reference is an id when it parses as one and a name otherwise.\<close>

lemma get_law: "wp (snapshot_get sv ref)
    (\<lambda>x s'. (snaps s' = snaps s \<and> images s' = images s) \<and>
       x \<in> set (snaps s) \<and>
       (if sns_is_uuid sv ref then sn_id x else sn_name x) = ref)
    (\<lambda>_ s'. snaps s' = snaps s \<and> images s' = images s) s"
  unfolding snapshot_get_def
  by (intro wp_rules wp_framed [OF sn_get_law sn_get_images]
      wp_framed [OF sn_get_by_name_law sn_get_by_name_images])
    (auto dest: snapshot_row_id)

text \<open>A commit inserts its row and keeps its image, or leaves both stores alone; only an
  image the runtime then refuses to remove stays behind.\<close>

lemma commit_law:
  assumes "calm s"
  shows "wp (snapshot_commit sv name src)
     (\<lambda>x s'. snaps s' = snaps s @ [x] \<and> sn_runtime_ref x \<notin> images s \<and>
        images s' = insert (sn_runtime_ref x) (images s) \<and>
        sn_name x = name \<and> sn_sandbox_id x = src_id src \<and> sn_image x = src_image src \<and>
        sn_parent_id x = src_parent_snapshot_id src \<and> sn_network x = src_network src)
     (\<lambda>e s'. snaps s' = snaps s \<and>
        (images s' = images s \<or>
         (\<exists>ref. ref \<notin> images s \<and> images s' = insert ref (images s)))) s"
  unfolding snapshot_commit_def
  by (intro wp_rules snapshot_rules) (use assms in \<open>auto simp: entails_def\<close>)

text \<open>Deleting a row also removed its image; a refusal leaves the row.\<close>

lemma delete_law:
  "wp (snapshot_delete sv ref)
     (\<lambda>_ s'. \<exists>x \<in> set (snaps s). children (snaps s) (sn_id x) = [] \<and>
        snaps s' = filter (\<lambda>y. sn_id y \<noteq> sn_id x) (snaps s) \<and>
        images s' = images s - {sn_runtime_ref x} \<and>
        (if sns_is_uuid sv ref then sn_id x else sn_name x) = ref)
     (\<lambda>e s'. snaps s' = snaps s \<and> (images s' = images s \<or>
        (\<exists>x \<in> set (snaps s). images s' = images s - {sn_runtime_ref x}))) s"
  unfolding snapshot_delete_def
  by (intro wp_rules snapshot_rules wp_weaken [OF get_law]) (auto dest: snapshot_row_id)

end

end
