(* ===== verification/Sandbox.thy ===== *)
theory Sandbox
  imports Snapshot
begin

text \<open>
  \<open>internal/sandbox\<close>: the state machine, the validation of a request, the repository and
  its laws, and every operation of the service. The per-sandbox lock is taken by each
  operation before it reads the row it will write, so one run of an operation is one
  uninterrupted run here; theory \<open>Locking\<close> holds the lock itself.
\<close>

section \<open>Rows, options and the state machine\<close>

datatype sb_state = St_creating | St_running | St_stopped | St_destroying | St_destroyed | St_error

fun transitions :: "sb_state \<Rightarrow> sb_state list" where
  "transitions St_creating = [St_running, St_error]"
| "transitions St_running = [St_stopped, St_destroying, St_error]"
| "transitions St_stopped = [St_running, St_destroying, St_error]"
| "transitions St_destroying = [St_destroyed, St_error]"
| "transitions St_error = [St_destroying]"
| "transitions St_destroyed = []"

definition can_transition :: "sb_state \<Rightarrow> sb_state \<Rightarrow> bool" where
  "can_transition a b \<longleftrightarrow> b \<in> set (transitions a)"

text \<open>The values of type \<open>State\<close> as the strings they are; a filter holds strings from the query.\<close>

fun state_string :: "sb_state \<Rightarrow> string" where
  "state_string St_creating = ''creating''"
| "state_string St_running = ''running''"
| "state_string St_stopped = ''stopped''"
| "state_string St_destroying = ''destroying''"
| "state_string St_destroyed = ''destroyed''"
| "state_string St_error = ''error''"

record resources =
  cpu_millis :: int
  memory_bytes :: int
  pids_limit :: int

definition network_full :: string where "network_full = ''full''"
definition network_none :: string where "network_none = ''none''"

definition validate_network :: "string \<Rightarrow> goerr + unit" where
  "validate_network n =
     (if n = network_full \<or> n = network_none then Inr () else Inl (wrapf Sb_invalid_network))"

record sandbox =
  sb_id :: string
  sb_name :: string
  sb_image :: string
  sb_state :: sb_state
  sb_runtime :: string
  sb_runtime_id :: string
  sb_oci_runtime :: string
  sb_network :: string
  sb_parent_snapshot_id :: "string option"
  sb_resources :: resources
  sb_env :: dict
  sb_labels :: dict
  sb_created_at :: time
  sb_updated_at :: time

record sandbox_filter =
  sf_states :: "string list"
  sf_labels :: "(string \<times> string) list"
  sf_limit :: int
  sf_cursor :: string

record create_options =
  opt_name :: string
  opt_image :: string
  opt_env :: "dict option"
  opt_labels :: "dict option"
  opt_resources :: resources
  opt_network :: string

record networks =
  net_full :: string
  net_isolated :: string

definition name_for :: "networks \<Rightarrow> string \<Rightarrow> string" where
  "name_for n mode = (if mode = network_none then net_isolated n else net_full n)"

definition validate_resources :: "resources \<Rightarrow> goerr + unit" where
  "validate_resources r =
     (if cpu_millis r < 0 then Inl (wrapf Sb_invalid_resources)
      else if memory_bytes r < 0 then Inl (wrapf Sb_invalid_resources)
      else if pids_limit r < 0 then Inl (wrapf Sb_invalid_resources)
      else Inr ())"

section \<open>The repository\<close>

record 's sandbox_repo =
  sbr_create :: "sandbox \<Rightarrow> ('s, unit) op"
  sbr_get :: "string \<Rightarrow> ('s, sandbox) op"
  sbr_get_by_name :: "string \<Rightarrow> ('s, sandbox) op"
  sbr_list :: "sandbox_filter \<Rightarrow> ('s, sandbox list) op"
  sbr_update :: "sandbox \<Rightarrow> ('s, unit) op"

definition sandbox_row :: "sandbox list \<Rightarrow> string \<Rightarrow> sandbox option" where
  "sandbox_row rs i = find (\<lambda>x. sb_id x = i) rs"

text \<open>\<open>UPDATE\<close> rewrites every column but \<open>created_at\<close>.\<close>

definition put_row :: "sandbox \<Rightarrow> sandbox list \<Rightarrow> sandbox list" where
  "put_row x rs =
     map (\<lambda>y. if sb_id y = sb_id x then x\<lparr>sb_created_at := sb_created_at y\<rparr> else y) rs"

section \<open>The service\<close>

record 's sandbox_service =
  sbs_repo :: "'s sandbox_repo"
  sbs_rt :: "'s runtime"
  sbs_defaults :: resources
  sbs_networks :: networks
  sbs_oci_runtime :: string
  sbs_now :: "('s, time) act"
  sbs_new_id :: "('s, string) act"
  sbs_is_uuid :: "string \<Rightarrow> bool"
  sbs_snapshots :: "(string \<Rightarrow> ('s, resolved) op) option"

definition runtime_name :: string where "runtime_name = ''docker''"

definition sandbox_get :: "'s sandbox_service \<Rightarrow> string \<Rightarrow> ('s, sandbox) op" where
  "sandbox_get sv ref =
     (if sbs_is_uuid sv ref then sbr_get (sbs_repo sv) ref else sbr_get_by_name (sbs_repo sv) ref)"

definition sandbox_list :: "'s sandbox_service \<Rightarrow> sandbox_filter \<Rightarrow> ('s, sandbox list) op" where
  "sandbox_list sv f = sbr_list (sbs_repo sv) f"

text \<open>Every read that is followed by a write reads again, under the lock, by id.\<close>

definition locked_get :: "'s sandbox_service \<Rightarrow> string \<Rightarrow> ('s, sandbox) op" where
  "locked_get sv ref =
     bindE (sandbox_get sv ref) (\<lambda>sb. sbr_get (sbs_repo sv) (sb_id sb))"

text \<open>\<open>sb.State = st; sb.UpdatedAt = s.now(); s.repo.Update(ctx, sb)\<close>, returning the row.\<close>

definition write_state :: "'s sandbox_service \<Rightarrow> sandbox \<Rightarrow> sb_state \<Rightarrow> ('s, sandbox) op" where
  "write_state sv sb st =
     bindE (liftE (sbs_now sv)) (\<lambda>now.
     let sb' = sb\<lparr>sb_state := st, sb_updated_at := now\<rparr>
     in bindE (sbr_update (sbs_repo sv) sb') (\<lambda>_. returnE sb'))"

definition mark_error :: "'s sandbox_service \<Rightarrow> sandbox \<Rightarrow> goerr \<Rightarrow> ('s, 'a) op" where
  "mark_error sv sb cause =
     bindE (attempt (write_state sv sb St_error)) (\<lambda>r.
       case r of Inl err \<Rightarrow> throwE (errors_join cause err) | Inr _ \<Rightarrow> throwE cause)"

text \<open>
  \<open>x, err := m(); if err != nil \{ return nil, s.markError(ctx, sb, err) \}\<close>.
\<close>

definition or_mark ::
    "'s sandbox_service \<Rightarrow> sandbox \<Rightarrow> ('s, 'a) op \<Rightarrow> ('a \<Rightarrow> ('s, 'b) op) \<Rightarrow> ('s, 'b) op" where
  "or_mark sv sb m f =
     bindE (attempt m) (\<lambda>r. case r of Inl e \<Rightarrow> mark_error sv sb e | Inr a \<Rightarrow> f a)"

definition create_spec_of :: "'s sandbox_service \<Rightarrow> sandbox \<Rightarrow> string \<Rightarrow> create_spec" where
  "create_spec_of sv sb img =
     \<lparr>cs_sandbox_id = sb_id sb, cs_image = img, cs_env = sb_env sb, cs_labels = sb_labels sb,
      cs_cpu_millis = cpu_millis (sb_resources sb), cs_memory_bytes = memory_bytes (sb_resources sb),
      cs_pids_limit = pids_limit (sb_resources sb),
      cs_network_name = name_for (sbs_networks sv) (sb_network sb),
      cs_oci_runtime = sbs_oci_runtime sv\<rparr>"

definition with_defaults :: "resources \<Rightarrow> resources \<Rightarrow> resources" where
  "with_defaults d r =
     \<lparr>cpu_millis = (if cpu_millis r = 0 then cpu_millis d else cpu_millis r),
      memory_bytes = (if memory_bytes r = 0 then memory_bytes d else memory_bytes r),
      pids_limit = (if pids_limit r = 0 then pids_limit d else pids_limit r)\<rparr>"

text \<open>The checks at the head of \<open>Create\<close>; the result is the network to use.\<close>

definition check_options :: "'s sandbox_service \<Rightarrow> create_options \<Rightarrow> goerr + string" where
  "check_options sv opts =
     (if opt_image opts = [] then Inl (wrapf Sb_invalid_image)
      else case (if opt_name opts \<noteq> [] then sandbox_validate_name (sbs_is_uuid sv) (opt_name opts)
                 else Inr ()) of
        Inl e \<Rightarrow> Inl e
      | Inr _ \<Rightarrow>
        (case validate_resources (opt_resources opts) of
           Inl e \<Rightarrow> Inl e
         | Inr _ \<Rightarrow>
           (let net = (if opt_network opts = [] then network_full else opt_network opts)
            in case validate_network net of Inl e \<Rightarrow> Inl e | Inr _ \<Rightarrow> Inr net)))"

definition new_row :: "'s sandbox_service \<Rightarrow> create_options \<Rightarrow> string \<Rightarrow> time \<Rightarrow> string \<Rightarrow> sandbox" where
  "new_row sv opts net now i =
     \<lparr>sb_id = i, sb_name = opt_name opts, sb_image = opt_image opts, sb_state = St_creating,
      sb_runtime = runtime_name, sb_runtime_id = [], sb_oci_runtime = sbs_oci_runtime sv,
      sb_network = net, sb_parent_snapshot_id = None,
      sb_resources = with_defaults (sbs_defaults sv) (opt_resources opts),
      sb_env = (case opt_env opts of None \<Rightarrow> Map.empty | Some d \<Rightarrow> d),
      sb_labels = (case opt_labels opts of None \<Rightarrow> Map.empty | Some d \<Rightarrow> d),
      sb_created_at = now, sb_updated_at = now\<rparr>"

text \<open>From \<open>rt.Create\<close> to a running container: shared, in the code's order, by \<open>Create\<close> and
  \<open>Restore\<close>, which differ in the image and in the error for a container that exits.\<close>

definition boot_container ::
    "'s sandbox_service \<Rightarrow> sandbox \<Rightarrow> string \<Rightarrow> sentinel \<Rightarrow> (sandbox \<Rightarrow> ('s, sandbox) op) \<Rightarrow> ('s, sandbox) op" where
  "boot_container sv sb img exited k =
     or_mark sv sb (rt_create (sbs_rt sv) (create_spec_of sv sb img)) (\<lambda>rid.
     let sb1 = sb\<lparr>sb_runtime_id := rid\<rparr>
     in or_mark sv sb1 (rt_start (sbs_rt sv) rid) (\<lambda>_.
        or_mark sv sb1 (rt_inspect (sbs_rt sv) rid) (\<lambda>status.
        if cst_state status \<noteq> C_running then mark_error sv sb1 (wrapf exited) else k sb1)))"

definition sandbox_create :: "'s sandbox_service \<Rightarrow> create_options \<Rightarrow> ('s, sandbox) op" where
  "sandbox_create sv opts =
     bindE (liftR (check_options sv opts)) (\<lambda>net.
     bindE (liftE (sbs_now sv)) (\<lambda>now.
     bindE (liftE (sbs_new_id sv)) (\<lambda>i.
     let sb = new_row sv opts net now i
     in bindE (sbr_create (sbs_repo sv) sb) (\<lambda>_.
        boot_container sv sb (sb_image sb) Sb_invalid_image (\<lambda>sb1. write_state sv sb1 St_running)))))"

definition sandbox_transition ::
    "'s sandbox_service \<Rightarrow> string \<Rightarrow> sb_state \<Rightarrow> (sandbox \<Rightarrow> ('s, unit) op) \<Rightarrow> ('s, sandbox) op" where
  "sandbox_transition sv ref target act =
     bindE (locked_get sv ref) (\<lambda>sb.
     if \<not> can_transition (sb_state sb) target then throwE (wrapf Sb_invalid_state)
     else or_mark sv sb (act sb) (\<lambda>_. write_state sv sb target))"

definition sandbox_start :: "'s sandbox_service \<Rightarrow> string \<Rightarrow> ('s, sandbox) op" where
  "sandbox_start sv ref =
     sandbox_transition sv ref St_running (\<lambda>sb. rt_start (sbs_rt sv) (sb_runtime_id sb))"

definition stop_timeout :: time where "stop_timeout = 10 * 1000000000"

definition sandbox_stop :: "'s sandbox_service \<Rightarrow> string \<Rightarrow> ('s, sandbox) op" where
  "sandbox_stop sv ref =
     sandbox_transition sv ref St_stopped (\<lambda>sb. rt_stop (sbs_rt sv) (sb_runtime_id sb) stop_timeout)"

text \<open>Removing a container tolerates one already gone; any other failure marks the row.\<close>

definition drop_container ::
    "'s sandbox_service \<Rightarrow> sandbox \<Rightarrow> ('s, sandbox) op \<Rightarrow> ('s, sandbox) op" where
  "drop_container sv sb k =
     (if sb_runtime_id sb = [] then k
      else bindE (attempt (rt_destroy (sbs_rt sv) (sb_runtime_id sb))) (\<lambda>r.
        case r of
          Inl e \<Rightarrow> if errors_is e Rt_not_found then k else mark_error sv sb e
        | Inr _ \<Rightarrow> k))"

definition sandbox_destroy :: "'s sandbox_service \<Rightarrow> string \<Rightarrow> ('s, sandbox) op" where
  "sandbox_destroy sv ref =
     bindE (locked_get sv ref) (\<lambda>sb.
     if \<not> can_transition (sb_state sb) St_destroying then throwE (wrapf Sb_invalid_state)
     else bindE (write_state sv sb St_destroying) (\<lambda>sb1.
          drop_container sv sb1 (write_state sv sb1 St_destroyed)))"

definition sandbox_runtime_id :: "'s sandbox_service \<Rightarrow> string \<Rightarrow> ('s, string) op" where
  "sandbox_runtime_id sv i =
     bindE (sbr_get (sbs_repo sv) i) (\<lambda>sb.
     if sb_state sb \<noteq> St_running then throwE (wrapf Sb_invalid_state)
     else returnE (sb_runtime_id sb))"

definition file_operable :: "sandbox \<Rightarrow> goerr + unit" where
  "file_operable sb =
     (if sb_state sb \<noteq> St_running \<and> sb_state sb \<noteq> St_stopped then Inl (wrapf Sb_invalid_state)
      else if sb_runtime_id sb = [] then Inl (wrapf Sb_invalid_state)
      else Inr ())"

definition sandbox_runtime_id_for :: "'s sandbox_service \<Rightarrow> string \<Rightarrow> ('s, string) op" where
  "sandbox_runtime_id_for sv ref =
     bindE (sandbox_get sv ref) (\<lambda>sb.
     bindE (liftR (file_operable sb)) (\<lambda>_. returnE (sb_runtime_id sb)))"

definition with_locked_runtime_id ::
    "'s sandbox_service \<Rightarrow> string \<Rightarrow> (string \<Rightarrow> ('s, 'a) op) \<Rightarrow> ('s, 'a) op" where
  "with_locked_runtime_id sv ref fn =
     bindE (locked_get sv ref) (\<lambda>sb.
     bindE (liftR (file_operable sb)) (\<lambda>_. fn (sb_runtime_id sb)))"

definition with_snapshot_source ::
    "'s sandbox_service \<Rightarrow> string \<Rightarrow> (sandbox_source \<Rightarrow> ('s, 'a) op) \<Rightarrow> ('s, 'a) op" where
  "with_snapshot_source sv ref fn =
     bindE (locked_get sv ref) (\<lambda>sb.
     if sb_state sb \<noteq> St_running \<and> sb_state sb \<noteq> St_stopped then throwE (wrapf Sb_invalid_state)
     else fn \<lparr>src_id = sb_id sb, src_runtime_id = sb_runtime_id sb, src_image = sb_image sb,
              src_parent_snapshot_id = sb_parent_snapshot_id sb, src_network = sb_network sb\<rparr>)"

text \<open>The second half of \<open>Fork\<close>: the row is read again, because \<open>Create\<close> released the lock.\<close>

definition fork_link :: "'s sandbox_service \<Rightarrow> resolved \<Rightarrow> string \<Rightarrow> ('s, sandbox) op" where
  "fork_link sv r i =
     bindE (sbr_get (sbs_repo sv) i) (\<lambda>fresh.
     bindE (liftE (sbs_now sv)) (\<lambda>now.
     let sb' = fresh\<lparr>sb_parent_snapshot_id := Some (rs_id r), sb_updated_at := now\<rparr>
     in bindE (sbr_update (sbs_repo sv) sb') (\<lambda>_. returnE sb')))"

definition fork_options :: "resolved \<Rightarrow> create_options \<Rightarrow> create_options" where
  "fork_options r opts =
     opts\<lparr>opt_network := (if opt_network opts = [] \<and> rs_network r \<noteq> [] then rs_network r
                          else opt_network opts),
          opt_image := rs_runtime_ref r\<rparr>"

definition sandbox_fork :: "'s sandbox_service \<Rightarrow> string \<Rightarrow> create_options \<Rightarrow> ('s, sandbox) op" where
  "sandbox_fork sv snapshot_ref opts =
     (case sbs_snapshots sv of
        None \<Rightarrow> throwE (Sentinel Sb_snapshot_required)
      | Some resolve \<Rightarrow>
          bindE (resolve snapshot_ref) (\<lambda>r.
          bindE (sandbox_create sv (fork_options r opts)) (\<lambda>created.
          fork_link sv r (sb_id created))))"

definition sandbox_restore :: "'s sandbox_service \<Rightarrow> string \<Rightarrow> string \<Rightarrow> ('s, sandbox) op" where
  "sandbox_restore sv sandbox_ref snapshot_ref =
     (case sbs_snapshots sv of
        None \<Rightarrow> throwE (Sentinel Sb_snapshot_required)
      | Some resolve \<Rightarrow>
          bindE (resolve snapshot_ref) (\<lambda>r.
          bindE (locked_get sv sandbox_ref) (\<lambda>sb.
          if sb_state sb \<noteq> St_running \<and> sb_state sb \<noteq> St_stopped then throwE (wrapf Sb_invalid_state)
          else drop_container sv sb
            (boot_container sv sb (rs_runtime_ref r) Sb_invalid_state (\<lambda>sb1.
               write_state sv
                 (sb1\<lparr>sb_oci_runtime := sbs_oci_runtime sv,
                      sb_parent_snapshot_id := Some (rs_id r)\<rparr>) St_running)))))"

text \<open>The boot reconciliation: one unreachable container does not stop the loop.\<close>

definition unpause_one :: "'s sandbox_service \<Rightarrow> sandbox \<Rightarrow> ('s, int) op" where
  "unpause_one sv sb =
     (if sb_runtime_id sb = [] then returnE 0
      else bindE (attempt (rt_inspect (sbs_rt sv) (sb_runtime_id sb))) (\<lambda>r.
        case r of
          Inl _ \<Rightarrow> returnE 0
        | Inr status \<Rightarrow>
            if cst_state status \<noteq> C_paused then returnE 0
            else bindE (attempt (rt_unpause (sbs_rt sv) (sb_runtime_id sb))) (\<lambda>u.
              case u of Inl _ \<Rightarrow> returnE 0 | Inr _ \<Rightarrow> returnE 1)))"

primrec unpause_all :: "'s sandbox_service \<Rightarrow> sandbox list \<Rightarrow> ('s, int) op" where
  "unpause_all sv [] = returnE 0"
| "unpause_all sv (sb # sbs) =
     bindE (unpause_one sv sb) (\<lambda>n. bindE (unpause_all sv sbs) (\<lambda>m. returnE (n + m)))"

definition running_filter :: sandbox_filter where
  "running_filter = \<lparr>sf_states = [state_string St_running], sf_labels = [], sf_limit = 0, sf_cursor = []\<rparr>"

definition unpause_paused :: "'s sandbox_service \<Rightarrow> ('s, int) op" where
  "unpause_paused sv =
     bindE (sbr_list (sbs_repo sv) running_filter) (\<lambda>rows. unpause_all sv rows)"

text \<open>The calls that write, as data, so that a run is a sequence of them.\<close>

datatype sandbox_call =
    Call_create create_options
  | Call_start string
  | Call_stop string
  | Call_destroy string
  | Call_fork string create_options
  | Call_restore string string
  | Call_unpause

definition to_unit :: "('s, 'a) op \<Rightarrow> ('s, unit) op" where
  "to_unit m = bindE m (\<lambda>_. returnE ())"

fun run_call :: "'s sandbox_service \<Rightarrow> sandbox_call \<Rightarrow> ('s, unit) op" where
  "run_call sv (Call_create opts) = to_unit (sandbox_create sv opts)"
| "run_call sv (Call_start ref) = to_unit (sandbox_start sv ref)"
| "run_call sv (Call_stop ref) = to_unit (sandbox_stop sv ref)"
| "run_call sv (Call_destroy ref) = to_unit (sandbox_destroy sv ref)"
| "run_call sv (Call_fork sref opts) = to_unit (sandbox_fork sv sref opts)"
| "run_call sv (Call_restore ref sref) = to_unit (sandbox_restore sv ref sref)"
| "run_call sv Call_unpause = to_unit (unpause_paused sv)"

fun run_calls :: "'s sandbox_service \<Rightarrow> sandbox_call list \<Rightarrow> 's \<Rightarrow> 's" where
  "run_calls sv [] s = s"
| "run_calls sv (c # cs) s = run_calls sv cs (snd (run_call sv c s))"

section \<open>Laws of the repository\<close>

lemma sandbox_row_id: "sandbox_row R i = Some x \<Longrightarrow> sb_id x = i \<and> x \<in> set R"
  unfolding sandbox_row_def by (auto dest: find_SomeD)

lemma sandbox_row_none: "sandbox_row R i = None \<longleftrightarrow> (\<forall>x\<in>set R. sb_id x \<noteq> i)"
  by (auto simp: sandbox_row_def find_None_iff)

lemma sandbox_row_append [simp]:
  "sandbox_row (R @ [x]) i =
     (case sandbox_row R i of Some y \<Rightarrow> Some y | None \<Rightarrow> if sb_id x = i then Some x else None)"
  by (induction R) (auto simp: sandbox_row_def split: option.splits)

lemma sandbox_row_put [simp]:
  "sandbox_row (put_row x R) i =
     (if i = sb_id x then map_option (\<lambda>y. x\<lparr>sb_created_at := sb_created_at y\<rparr>) (sandbox_row R i)
      else sandbox_row R i)"
  by (induction R) (auto simp: sandbox_row_def put_row_def)

lemma put_row_put: "sb_id x = sb_id y \<Longrightarrow> put_row x (put_row y R) = put_row x R"
  by (simp add: put_row_def)

lemma put_row_append [simp]:
  "sandbox_row R (sb_id x) = None \<Longrightarrow> sb_id y = sb_id x \<Longrightarrow>
     put_row y (R @ [x]) = R @ [y\<lparr>sb_created_at := sb_created_at x\<rparr>]"
  unfolding put_row_def sandbox_row_none by (auto intro: map_idI)

lemma set_put_row:
  "z \<in> set (put_row x R) \<Longrightarrow> (z \<in> set R \<and> sb_id z \<noteq> sb_id x) \<or>
     (\<exists>y\<in>set R. sb_id y = sb_id x \<and> z = x\<lparr>sb_created_at := sb_created_at y\<rparr>)"
  by (auto simp: put_row_def)

lemma ids_put_row [simp]: "map sb_id (put_row x R) = map sb_id R"
  by (simp add: put_row_def)

text \<open>
  A calm store refuses an update only when the row is missing or the write would touch its
  name or revive it: no driver error. Calm is kept by every call.
\<close>

definition may_refuse :: "sandbox list \<Rightarrow> sandbox \<Rightarrow> bool" where
  "may_refuse R x \<longleftrightarrow>
     (case sandbox_row R (sb_id x) of
        None \<Rightarrow> True
      | Some y \<Rightarrow> sb_name y \<noteq> sb_name x \<or> sb_state y = St_destroyed)"

locale sandbox_store =
  fixes repo :: "'s sandbox_repo"
    and rows :: "'s \<Rightarrow> sandbox list"
    and calm :: "'s \<Rightarrow> bool"
  assumes sb_create_law: "wp (sbr_create repo x)
      (\<lambda>_ s'. rows s' = rows s @ [x] \<and> sandbox_row (rows s) (sb_id x) = None)
      (\<lambda>_ s'. rows s' = rows s) s"
    and sb_get_law: "wp (sbr_get repo i)
      (\<lambda>x s'. rows s' = rows s \<and> sandbox_row (rows s) i = Some x \<and> sb_id x = i)
      (\<lambda>_ s'. rows s' = rows s \<and> entails (calm s) (sandbox_row (rows s) i = None)) s"
    and sb_get_by_name_law: "wp (sbr_get_by_name repo n)
      (\<lambda>x s'. rows s' = rows s \<and> x \<in> set (rows s) \<and> sb_name x = n \<and> sb_state x \<noteq> St_destroyed)
      (\<lambda>_ s'. rows s' = rows s) s"
    and sb_list_law: "wp (sbr_list repo f)
      (\<lambda>xs s'. rows s' = rows s \<and> set xs \<subseteq> set (rows s)) (\<lambda>_ s'. rows s' = rows s) s"
    and sb_update_law: "wp (sbr_update repo x)
      (\<lambda>_ s'. rows s' = put_row x (rows s) \<and> sandbox_row (rows s) (sb_id x) \<noteq> None)
      (\<lambda>_ s'. rows s' = rows s \<and> entails (calm s) (may_refuse (rows s) x)) s"
    and sb_create_calm: "keeps calm (sbr_create repo x)"
    and sb_get_calm: "keeps calm (sbr_get repo i)"
    and sb_get_by_name_calm: "keeps calm (sbr_get_by_name repo n)"
    and sb_list_calm: "keeps calm (sbr_list repo f)"
    and sb_update_calm: "keeps calm (sbr_update repo x)"

section \<open>Rows only move along the state machine\<close>

text \<open>What one write may do to a row: nothing the sandbox was created with changes, and the
  state stays or follows an edge of \<open>transitions\<close>.\<close>

definition legal_change :: "sandbox \<Rightarrow> sandbox \<Rightarrow> bool" where
  "legal_change y x \<longleftrightarrow>
     sb_name x = sb_name y \<and> sb_image x = sb_image y \<and> sb_runtime x = sb_runtime y \<and>
     sb_network x = sb_network y \<and> sb_resources x = sb_resources y \<and> sb_env x = sb_env y \<and>
     sb_labels x = sb_labels y \<and>
     (sb_state x = sb_state y \<or> can_transition (sb_state y) (sb_state x))"

definition writable :: "sandbox list \<Rightarrow> string \<Rightarrow> bool" where
  "writable R i \<longleftrightarrow>
     (case sandbox_row R i of
        None \<Rightarrow> True
      | Some x \<Rightarrow> sb_state x \<noteq> St_destroying \<and> sb_state x \<noteq> St_destroyed)"

inductive evolves :: "sandbox list \<Rightarrow> sandbox list \<Rightarrow> bool" where
  evolves_refl: "evolves R R"
| evolves_insert: "evolves R S \<Longrightarrow> sb_state x = St_creating \<Longrightarrow> sandbox_row S (sb_id x) = None \<Longrightarrow>
    evolves R (S @ [x])"
| evolves_update: "evolves R S \<Longrightarrow> sandbox_row S (sb_id x) = Some y \<Longrightarrow> legal_change y x \<Longrightarrow>
    writable R (sb_id x) \<Longrightarrow> evolves R (put_row x S)"

lemma evolves_stuck:
  "evolves R S \<Longrightarrow> \<not> writable R i \<Longrightarrow> sandbox_row S i = sandbox_row R i"
  by (induction rule: evolves.induct) (auto simp: writable_def split: option.splits)

lemma writable_back: "evolves R S \<Longrightarrow> writable S i \<Longrightarrow> writable R i"
  using evolves_stuck [of R S i] unfolding writable_def by metis

lemma evolves_trans: "evolves S T \<Longrightarrow> evolves R S \<Longrightarrow> evolves R T"
  by (induction rule: evolves.induct) (auto intro: evolves.intros writable_back)

text \<open>Reachability along the edges.\<close>

inductive moves :: "sb_state \<Rightarrow> sb_state \<Rightarrow> bool" where
  moves_refl: "moves a a"
| moves_step: "moves a b \<Longrightarrow> can_transition b c \<Longrightarrow> moves a c"

lemma moves_destroyed: "moves a b \<Longrightarrow> a = St_destroyed \<Longrightarrow> b = St_destroyed"
  by (induction rule: moves.induct) (auto simp: can_transition_def)

lemma moves_not_creating: "moves a b \<Longrightarrow> a \<noteq> St_creating \<Longrightarrow> b \<noteq> St_creating"
proof (induction rule: moves.induct)
  case (moves_step a b c)
  then show ?case by (cases b) (auto simp: can_transition_def)
qed

lemma moves_destroying:
  "moves a b \<Longrightarrow> a = St_destroying \<Longrightarrow> b \<in> {St_destroying, St_destroyed, St_error}"
proof (induction rule: moves.induct)
  case (moves_step a b c)
  then show ?case by (cases b) (auto simp: can_transition_def)
qed simp

definition same_sandbox :: "sandbox \<Rightarrow> sandbox \<Rightarrow> bool" where
  "same_sandbox x y \<longleftrightarrow>
     sb_id y = sb_id x \<and> sb_name y = sb_name x \<and> sb_image y = sb_image x \<and>
     sb_runtime y = sb_runtime x \<and> sb_network y = sb_network x \<and>
     sb_resources y = sb_resources x \<and> sb_env y = sb_env x \<and> sb_labels y = sb_labels x \<and>
     sb_created_at y = sb_created_at x"

lemma evolves_row:
  assumes "evolves R S" "sandbox_row R i = Some x"
  shows "\<exists>y. sandbox_row S i = Some y \<and> same_sandbox x y \<and> moves (sb_state x) (sb_state y)"
  using assms
proof (induction rule: evolves.induct)
  case (evolves_update R S z y)
  then obtain w where w: "sandbox_row S i = Some w" "same_sandbox x w" "moves (sb_state x) (sb_state w)"
    by auto
  show ?case
  proof (cases "i = sb_id z")
    case True
    then show ?thesis
      using w evolves_update.hyps sandbox_row_id [of S i w] moves_step [OF w(3)]
      by (auto simp: same_sandbox_def legal_change_def)
  qed (use w in simp)
qed (auto simp: same_sandbox_def intro: moves_refl split: option.splits)


section \<open>The service over its store and its runtime\<close>

locale sandbox_env =
  sandbox_store "sbs_repo sv" rows calm + container_runtime "sbs_rt sv" ctr known images calm
  for sv :: "'s sandbox_service" and rows :: "'s \<Rightarrow> sandbox list" and calm :: "'s \<Rightarrow> bool"
    and ctr :: "'s \<Rightarrow> string \<Rightarrow> container_state"
    and known :: "'s \<Rightarrow> string set" and images :: "'s \<Rightarrow> string set" +
  assumes rt_create_rows: "leaves rows (rt_create (sbs_rt sv) spec)"
    and rt_start_rows: "leaves rows (rt_start (sbs_rt sv) i)"
    and rt_stop_rows: "leaves rows (rt_stop (sbs_rt sv) i d)"
    and rt_destroy_rows: "leaves rows (rt_destroy (sbs_rt sv) i)"
    and rt_inspect_rows: "leaves rows (rt_inspect (sbs_rt sv) i)"
    and rt_unpause_rows: "leaves rows (rt_unpause (sbs_rt sv) i)"
    and rt_create_calm: "keeps calm (rt_create (sbs_rt sv) spec)"
    and rt_start_calm: "keeps calm (rt_start (sbs_rt sv) i)"
    and rt_stop_calm: "keeps calm (rt_stop (sbs_rt sv) i d)"
    and rt_destroy_calm: "keeps calm (rt_destroy (sbs_rt sv) i)"
    and rt_inspect_calm: "keeps calm (rt_inspect (sbs_rt sv) i)"
    and rt_unpause_calm: "keeps calm (rt_unpause (sbs_rt sv) i)"
    and now_frame: "leaves (\<lambda>s. (rows s, ctr s, known s)) (liftE (sbs_now sv))"
    and now_calm: "keeps calm (liftE (sbs_now sv))"
    and new_id_frame: "leaves (\<lambda>s. (rows s, ctr s, known s)) (liftE (sbs_new_id sv))"
    and new_id_calm: "keeps calm (liftE (sbs_new_id sv))"
    and resolve_frame: "sbs_snapshots sv = Some resolve \<Longrightarrow>
      leaves (\<lambda>s. (rows s, ctr s, known s)) (resolve ref)"
    and resolve_calm: "sbs_snapshots sv = Some resolve \<Longrightarrow> keeps calm (resolve ref)"
    and sb_create_ctr: "leaves (\<lambda>s. (ctr s, known s)) (sbr_create (sbs_repo sv) x)"
    and sb_get_ctr: "leaves (\<lambda>s. (ctr s, known s)) (sbr_get (sbs_repo sv) i)"
    and sb_get_by_name_ctr: "leaves (\<lambda>s. (ctr s, known s)) (sbr_get_by_name (sbs_repo sv) i)"
    and sb_list_ctr: "leaves (\<lambda>s. (ctr s, known s)) (sbr_list (sbs_repo sv) f)"
    and sb_update_ctr: "leaves (\<lambda>s. (ctr s, known s)) (sbr_update (sbs_repo sv) x)"
begin

lemmas sandbox_rules =
  wp_kept [OF sb_create_law sb_create_ctr sb_create_calm]
  wp_kept [OF sb_list_law sb_list_ctr sb_list_calm]
  wp_kept [OF sb_update_law sb_update_ctr sb_update_calm]
  wp_kept [OF sb_get_law sb_get_ctr sb_get_calm]
  wp_liftE_kept [OF now_frame now_calm] wp_liftE_kept [OF new_id_frame new_id_calm]
  wp_kept2 [OF create_law rt_create_rows create_images rt_create_calm]
  wp_kept2 [OF start_law rt_start_rows start_frame rt_start_calm]
  wp_kept2 [OF stop_law rt_stop_rows stop_frame rt_stop_calm]
  wp_kept2 [OF destroy_law rt_destroy_rows destroy_frame rt_destroy_calm]
  wp_kept2 [OF inspect_law rt_inspect_rows inspect_frame rt_inspect_calm]
  wp_kept2 [OF unpause_law rt_unpause_rows unpause_frame rt_unpause_calm]

text \<open>What a call that only reads leaves alone.\<close>

definition idle :: "'s \<Rightarrow> 's \<Rightarrow> bool" where
  "idle s s' \<longleftrightarrow> rows s' = rows s \<and> ctr s' = ctr s \<and> known s' = known s \<and> entails (calm s) (calm s')"

lemma resolve_law:
  assumes "sbs_snapshots sv = Some resolve"
  shows "wp (resolve ref) (\<lambda>_ s'. idle s s') (\<lambda>_ s'. idle s s') s"
  using leavesD [OF resolve_frame [OF assms]] keepsD [OF resolve_calm [OF assms], of s]
  by (intro wpI) (auto simp: idle_def entails_def)

lemma get_law: "wp (sandbox_get sv ref)
    (\<lambda>x s'. idle s s' \<and> x \<in> set (rows s) \<and> (if sbs_is_uuid sv ref then sb_id x = ref
       else sb_name x = ref \<and> sb_state x \<noteq> St_destroyed))
    (\<lambda>_ s'. idle s s') s"
  unfolding sandbox_get_def idle_def entails_def
  by (intro wp_rules sandbox_rules wp_kept [OF sb_get_by_name_law sb_get_by_name_ctr sb_get_by_name_calm])
    (auto simp: entails_def dest: sandbox_row_id)

lemma locked_get_law: "wp (locked_get sv ref)
    (\<lambda>x s'. idle s s' \<and> sandbox_row (rows s) (sb_id x) = Some x \<and>
       entails (sbs_is_uuid sv ref) (sb_id x = ref))
    (\<lambda>_ s'. idle s s') s"
  unfolding locked_get_def
  by (intro wp_rules wp_weaken [OF get_law] sandbox_rules) (auto simp: idle_def entails_def)

text \<open>Writing a state: the row as it is in hand, with the new state and time.\<close>

definition stamped :: "sandbox \<Rightarrow> sb_state \<Rightarrow> sandbox \<Rightarrow> bool" where
  "stamped sb st x \<longleftrightarrow> (\<exists>t. x = sb\<lparr>sb_state := st, sb_updated_at := t\<rparr>)"

lemma write_state_law: "wp (write_state sv sb st)
    (\<lambda>x s'. stamped sb st x \<and> rows s' = put_row x (rows s) \<and> ctr s' = ctr s \<and> known s' = known s \<and>
       sandbox_row (rows s) (sb_id sb) \<noteq> None \<and> entails (calm s) (calm s'))
    (\<lambda>_ s'. idle s s' \<and> entails (calm s) (may_refuse (rows s) sb)) s"
  unfolding write_state_def
  by (intro wp_rules sandbox_rules) (auto simp: idle_def stamped_def may_refuse_def entails_def split: option.splits)

text \<open>Marking an error: the cause comes back, alone or joined with the failed write's error.\<close>

lemma mark_error_law: "wp (mark_error sv sb cause)
    (\<lambda>_ _. False)
    (\<lambda>e s'. ctr s' = ctr s \<and> known s' = known s \<and> entails (calm s) (calm s') \<and>
       ((\<exists>x. e = cause \<and> stamped sb St_error x \<and> rows s' = put_row x (rows s) \<and>
           sandbox_row (rows s) (sb_id sb) \<noteq> None) \<or>
        (rows s' = rows s \<and> entails (calm s) (may_refuse (rows s) sb) \<and> (\<exists>e'. e = errors_join cause e')))) s"
  unfolding mark_error_def
  by (intro wp_rules wp_weaken [OF write_state_law]) (auto simp: idle_def entails_def)

lemma stamped_simps:
  "stamped sb st x \<Longrightarrow> sb_id x = sb_id sb \<and> sb_state x = st \<and> sb_runtime_id x = sb_runtime_id sb \<and>
     sb_name x = sb_name sb \<and> sb_network x = sb_network sb \<and> sb_oci_runtime x = sb_oci_runtime sb \<and>
     sb_parent_snapshot_id x = sb_parent_snapshot_id sb"
  by (auto simp: stamped_def)

end

lemma wp_to_unit [wp_rules]: "wp m (\<lambda>_. Q ()) E s \<Longrightarrow> wp (to_unit m) Q E s"
  unfolding to_unit_def by (intro wp_rules) (simp add: wp_return wp_def split: prod.splits sum.splits)

context sandbox_env
begin

lemmas service_rules =
  wp_rules sandbox_rules wp_weaken [OF write_state_law] wp_weaken [OF mark_error_law]
  wp_weaken [OF locked_get_law]

text \<open>
  \<open>tracks R s sb\<close>: the rows have evolved from \<open>R\<close>, and the value in hand is the stored row up
  to the columns an operation may set. It is what every write needs and re-establishes.
\<close>

definition tracks :: "sandbox list \<Rightarrow> 's \<Rightarrow> sandbox \<Rightarrow> bool" where
  "tracks R s sb \<longleftrightarrow> evolves R (rows s) \<and> writable R (sb_id sb) \<and>
     (\<exists>y. sandbox_row (rows s) (sb_id sb) = Some y \<and> legal_change y sb \<and> sb_state y = sb_state sb)"

lemma tracks_evolves: "tracks R s sb \<Longrightarrow> evolves R (rows s)"
  by (simp add: tracks_def)

lemma tracks_updates [simp]:
  "tracks R s (sb\<lparr>sb_runtime_id := r\<rparr>) = tracks R s sb"
  "tracks R s (sb\<lparr>sb_oci_runtime := oc\<rparr>) = tracks R s sb"
  "tracks R s (sb\<lparr>sb_parent_snapshot_id := p\<rparr>) = tracks R s sb"
  by (simp_all add: tracks_def legal_change_def)

lemma tracks_rows: "tracks R s sb \<Longrightarrow> rows s' = rows s \<Longrightarrow> tracks R s' sb"
  by (simp add: tracks_def)

lemma tracks_start:
  "evolves R (rows s) \<Longrightarrow> sandbox_row (rows s) (sb_id sb) = Some sb \<Longrightarrow> writable R (sb_id sb) \<Longrightarrow>
     tracks R s sb"
  by (simp add: tracks_def legal_change_def)

lemma tracks_put:
  assumes "tracks R s sb" "rows s' = put_row x (rows s)" "sb_id x = sb_id sb" "legal_change sb x"
  shows "tracks R s' x"
proof -
  obtain y where y: "evolves R (rows s)" "sandbox_row (rows s) (sb_id sb) = Some y"
    "legal_change y sb" "sb_state y = sb_state sb" "writable R (sb_id sb)"
    using assms(1) by (auto simp: tracks_def)
  have "legal_change y x"
    using y(3,4) assms(4) by (auto simp: legal_change_def)
  then have "evolves R (rows s')"
    using y assms(2,3) by (auto intro: evolves_update)
  then show ?thesis
    using y assms(2,3) by (simp add: tracks_def legal_change_def)
qed

lemma write_tracks:
  assumes "tracks R s sb" "sb_state sb = st \<or> can_transition (sb_state sb) st"
  shows "wp (write_state sv sb st) (\<lambda>x s'. tracks R s' x \<and> sb_state x = st) (\<lambda>_ s'. tracks R s' sb) s"
  by (rule wp_weaken [OF write_state_law])
    (use assms in \<open>auto simp: idle_def stamped_def legal_change_def elim: tracks_rows
       intro: tracks_put [of R s sb]\<close>)

lemma mark_tracks:
  assumes "tracks R s sb" "can_transition (sb_state sb) St_error"
  shows "wp (mark_error sv sb cause) (\<lambda>_ _. False) (\<lambda>_ s'. evolves R (rows s')) s"
  unfolding mark_error_def
  by (intro wp_rules wp_weaken [OF write_tracks])
    (use assms in \<open>auto dest: tracks_evolves\<close>)

text \<open>The same laws as rules, and the runtime's calls as calls that leave the rows.\<close>

lemma wp_tracks_rows:
  assumes "leaves rows m" "tracks R s sb" "\<And>a s'. tracks R s' sb \<Longrightarrow> Q a s'" "\<And>e s'. tracks R s' sb \<Longrightarrow> E e s'"
  shows "wp m Q E s"
  by (rule wp_leaves [OF assms(1)]) (auto intro: assms(3,4) tracks_rows [OF assms(2)])

lemma or_mark_tracks:
  assumes "leaves rows m" "tracks R s sb" "can_transition (sb_state sb) St_error"
    and "\<And>a s'. tracks R s' sb \<Longrightarrow> wp (k a) Q (\<lambda>_ s'. evolves R (rows s')) s'"
  shows "wp (or_mark sv sb m k) Q (\<lambda>_ s'. evolves R (rows s')) s"
  unfolding or_mark_def using assms
  by (intro wp_rules wp_tracks_rows [OF assms(1,2)] wp_weaken [OF mark_tracks]) auto

lemma drop_container_tracks:
  assumes "tracks R s sb" "can_transition (sb_state sb) St_error"
    and "\<And>s'. tracks R s' sb \<Longrightarrow> wp k Q (\<lambda>_ s'. evolves R (rows s')) s'"
  shows "wp (drop_container sv sb k) Q (\<lambda>_ s'. evolves R (rows s')) s"
  unfolding drop_container_def using assms
  by (intro wp_rules wp_tracks_rows [OF rt_destroy_rows assms(1)] wp_weaken [OF mark_tracks]) auto

lemma boot_container_tracks:
  assumes "tracks R s sb" "can_transition (sb_state sb) St_error"
    and "\<And>rid s'. tracks R s' (sb\<lparr>sb_runtime_id := rid\<rparr>) \<Longrightarrow>
      wp (k (sb\<lparr>sb_runtime_id := rid\<rparr>)) Q (\<lambda>_ s'. evolves R (rows s')) s'"
  shows "wp (boot_container sv sb img ex k) Q (\<lambda>_ s'. evolves R (rows s')) s"
  unfolding boot_container_def Let_def using assms
  by (intro or_mark_tracks wp_rules rt_create_rows rt_start_rows rt_inspect_rows
      wp_weaken [OF mark_tracks]) simp_all

lemma locked_tracks:
  assumes "\<And>sb s'. sb_state sb \<noteq> St_destroying \<and> sb_state sb \<noteq> St_destroyed \<Longrightarrow> tracks (rows s) s' sb \<Longrightarrow>
      wp (k sb) Q (\<lambda>_ s'. evolves (rows s) (rows s')) s'"
    and "\<And>sb. sb_state sb = St_destroying \<or> sb_state sb = St_destroyed \<Longrightarrow> \<exists>e. k sb = throwE e"
  shows "wp (bindE (locked_get sv ref) k) Q (\<lambda>_ s'. evolves (rows s) (rows s')) s"
proof (intro wp_rules wp_weaken [OF locked_get_law])
  fix sb s'
  assume a: "idle s s' \<and> sandbox_row (rows s) (sb_id sb) = Some sb \<and>
    entails (sbs_is_uuid sv ref) (sb_id sb = ref)"
  show "wp (k sb) Q (\<lambda>_ s'. evolves (rows s) (rows s')) s'"
  proof (cases "sb_state sb = St_destroying \<or> sb_state sb = St_destroyed")
    case True
    then obtain e where "k sb = throwE e" using assms(2) by blast
    then show ?thesis using a by (simp add: wp_throw idle_def evolves_refl)
  next
    case False
    then show ?thesis
      using a by (intro assms(1)) (auto simp: idle_def evolves_refl writable_def intro!: tracks_start)
  qed
qed (simp add: idle_def evolves_refl)

lemma state_edges:
  "can_transition st St_running \<Longrightarrow> can_transition st St_error"
  "can_transition st St_stopped \<Longrightarrow> can_transition st St_error"
  "st = St_running \<or> st = St_stopped \<Longrightarrow> can_transition st St_error \<and> (st = St_running \<or> can_transition st St_running)"
  "can_transition St_destroying St_error" "can_transition St_destroying St_destroyed"
  "can_transition St_creating St_running" "can_transition St_creating St_error"
  "can_transition St_running St_error" "can_transition St_stopped St_error"
  "can_transition St_stopped St_running"
  by (cases st; simp add: can_transition_def)+

lemma no_edges:
  "\<not> can_transition St_destroyed st"
  "\<not> can_transition St_destroying St_running" "\<not> can_transition St_destroying St_stopped"
  by (simp_all add: can_transition_def)

lemma transition_evolves:
  assumes "\<And>sb. leaves rows (act sb)" "target \<in> {St_running, St_stopped}"
  shows "wp (sandbox_transition sv ref target act)
    (\<lambda>_ s'. evolves (rows s) (rows s')) (\<lambda>_ s'. evolves (rows s) (rows s')) s"
  unfolding sandbox_transition_def using assms
  by (intro locked_tracks wp_rules or_mark_tracks wp_weaken [OF write_tracks])
    (auto dest: tracks_evolves state_edges(1,2) simp: no_edges)

lemma destroy_evolves:
  "wp (sandbox_destroy sv ref)
    (\<lambda>_ s'. evolves (rows s) (rows s')) (\<lambda>_ s'. evolves (rows s) (rows s')) s"
  unfolding sandbox_destroy_def
  by (intro locked_tracks wp_rules drop_container_tracks wp_weaken [OF write_tracks])
    (auto dest: tracks_evolves simp: state_edges can_transition_def)

lemma new_row_simps [simp]:
  "sb_id (new_row sv opts net now i) = i" "sb_state (new_row sv opts net now i) = St_creating"
  by (simp_all add: new_row_def)

lemma tracks_insert:
  "evolves R (rows s) \<Longrightarrow> rows s' = rows s @ [x] \<Longrightarrow> sandbox_row (rows s) (sb_id x) = None \<Longrightarrow>
     sb_state x = St_creating \<Longrightarrow> tracks R s' x"
  using evolves_row [of R "rows s" "sb_id x"]
  by (auto simp: tracks_def legal_change_def evolves_insert writable_def split: option.splits)

lemma tracks_writable: "tracks R s sb \<Longrightarrow> writable R (sb_id sb)"
  by (simp add: tracks_def)

lemma create_evolves:
  assumes "evolves R (rows s)"
  shows "wp (sandbox_create sv opts)
    (\<lambda>x s'. evolves R (rows s') \<and> writable R (sb_id x)) (\<lambda>_ s'. evolves R (rows s')) s"
  unfolding sandbox_create_def
  by (intro wp_rules sandbox_rules boot_container_tracks wp_weaken [OF write_tracks])
    (use assms in \<open>auto dest: tracks_evolves tracks_writable simp: state_edges intro!: tracks_insert\<close>)

lemma fork_link_evolves:
  assumes "evolves R (rows s)" "writable R i"
  shows "wp (fork_link sv r i) (\<lambda>_ s'. evolves R (rows s')) (\<lambda>_ s'. evolves R (rows s')) s"
  unfolding fork_link_def
  by (intro wp_rules sandbox_rules)
    (use assms in \<open>auto simp: legal_change_def elim!: evolves_update\<close>)

lemma fork_evolves:
  "wp (sandbox_fork sv sref opts)
    (\<lambda>_ s'. evolves (rows s) (rows s')) (\<lambda>_ s'. evolves (rows s) (rows s')) s"
proof (cases "sbs_snapshots sv")
  case (Some resolve)
  show ?thesis
    unfolding sandbox_fork_def Some option.case
    by (intro wp_rules wp_weaken [OF resolve_law [OF Some]]
        wp_weaken [OF create_evolves [where R = "rows s"]] fork_link_evolves)
      (auto simp: idle_def evolves_refl)
qed (simp add: sandbox_fork_def wp_throw evolves_refl)

lemma restore_evolves:
  "wp (sandbox_restore sv ref sref)
    (\<lambda>_ s'. evolves (rows s) (rows s')) (\<lambda>_ s'. evolves (rows s) (rows s')) s"
proof (cases "sbs_snapshots sv")
  case (Some resolve)
  show ?thesis
    unfolding sandbox_restore_def Some option.case
    by (intro wp_rules wp_weaken [OF resolve_law [OF Some]] wp_weaken [OF locked_get_law]
        drop_container_tracks boot_container_tracks wp_weaken [OF write_tracks])
      (auto simp: idle_def state_edges evolves_refl tracks_start writable_def dest: tracks_evolves)
qed (simp add: sandbox_restore_def wp_throw evolves_refl)

lemma unpause_one_rows: "leaves rows (unpause_one sv sb)"
proof (rule leavesI)
  fix s r s'
  assume "unpause_one sv sb s = (r, s')"
  moreover have "wp (unpause_one sv sb) (\<lambda>_ s'. rows s' = rows s) (\<lambda>_ s'. rows s' = rows s) s"
    unfolding unpause_one_def
    by (intro wp_rules wp_leaves [OF rt_inspect_rows] wp_leaves [OF rt_unpause_rows]) auto
  ultimately show "rows s' = rows s" by (auto dest!: wpD split: sum.splits)
qed

lemma unpause_all_rows: "leaves rows (unpause_all sv sbs)"
proof (induction sbs)
  case (Cons sb sbs)
  show ?case
  proof (rule leavesI)
    fix s r s'
    assume m: "unpause_all sv (sb # sbs) s = (r, s')"
    have "wp (unpause_all sv (sb # sbs)) (\<lambda>_ s'. rows s' = rows s) (\<lambda>_ s'. rows s' = rows s) s"
      unfolding unpause_all.simps
      by (intro wp_rules wp_leaves [OF unpause_one_rows] wp_leaves [OF Cons.IH]) auto
    then show "rows s' = rows s" using m by (auto dest!: wpD split: sum.splits)
  qed
qed (simp add: leaves_def)

lemma unpause_evolves:
  "wp (unpause_paused sv)
    (\<lambda>_ s'. evolves (rows s) (rows s')) (\<lambda>_ s'. evolves (rows s) (rows s')) s"
  unfolding unpause_paused_def
  by (intro wp_rules wp_weaken [OF sb_list_law] wp_leaves [OF unpause_all_rows]) (auto intro: evolves_refl)

lemma call_evolves:
  "wp (run_call sv c) (\<lambda>_ s'. evolves (rows s) (rows s')) (\<lambda>_ s'. evolves (rows s) (rows s')) s"
  by (cases c; simp; intro wp_to_unit wp_weaken [OF create_evolves [of "rows s" s]] destroy_evolves
      fork_evolves restore_evolves unpause_evolves)
    (simp_all add: sandbox_start_def sandbox_stop_def evolves_refl
      transition_evolves rt_start_rows rt_stop_rows)

lemma calls_evolve: "evolves (rows s) (rows (run_calls sv cs s))"
proof (induction cs arbitrary: s)
  case (Cons c cs)
  then show ?case
    using wp_snd [OF call_evolves [of c s]] by (auto intro: evolves_trans)
qed (simp add: evolves_refl)

end

end
