(* ===== verification/Sandbox_Settled.thy ===== *)
theory Sandbox_Settled
  imports Sandbox
begin

text \<open>
  Rows and containers together. Between two operations on a store that does not fail, the
  rows are \<open>settled\<close>: none is in a transient state, every running or stopped row has its own
  existing container, no destroyed row has one, and no container exists without a row that
  names it. Every operation of the service keeps this, whatever the runtime refuses.
\<close>

definition row_ok :: "(string \<Rightarrow> container_state) \<Rightarrow> string set \<Rightarrow> sandbox \<Rightarrow> bool" where
  "row_ok c K x \<longleftrightarrow>
     sb_state x \<in> {St_running, St_stopped, St_destroyed, St_error} \<and>
     (sb_runtime_id x \<noteq> [] \<longrightarrow> sb_runtime_id x \<in> K) \<and>
     (sb_state x = St_running \<or> sb_state x = St_stopped \<longrightarrow>
        sb_runtime_id x \<noteq> [] \<and> c (sb_runtime_id x) \<noteq> C_gone) \<and>
     (sb_state x = St_destroyed \<longrightarrow> c (sb_runtime_id x) = C_gone)"

definition own_containers :: "sandbox list \<Rightarrow> bool" where
  "own_containers R \<longleftrightarrow>
     (\<forall>x\<in>set R. \<forall>y\<in>set R. sb_runtime_id x = sb_runtime_id y \<and> sb_runtime_id x \<noteq> [] \<longrightarrow> sb_id x = sb_id y)"

definition settled :: "sandbox list \<Rightarrow> (string \<Rightarrow> container_state) \<Rightarrow> string set \<Rightarrow> bool" where
  "settled R c K \<longleftrightarrow>
     distinct (map sb_id R) \<and> [] \<notin> K \<and> (\<forall>i. c i \<noteq> C_gone \<longrightarrow> i \<in> K) \<and>
     (\<forall>x\<in>set R. row_ok c K x) \<and> own_containers R \<and>
     (\<forall>i. c i \<noteq> C_gone \<longrightarrow> (\<exists>x\<in>set R. sb_runtime_id x = i \<and> sb_state x \<noteq> St_destroyed))"

text \<open>
  While an operation works on the sandbox in hand, the rest is settled, and the only
  container the rest does not account for is the one in hand.
\<close>

definition settled_but :: "sandbox list \<Rightarrow> (string \<Rightarrow> container_state) \<Rightarrow> string set \<Rightarrow> sandbox \<Rightarrow> bool" where
  "settled_but R c K sb \<longleftrightarrow>
     settled (filter (\<lambda>x. sb_id x \<noteq> sb_id sb) R) (c(sb_runtime_id sb := C_gone)) K \<and>
     distinct (map sb_id R) \<and> c [] = C_gone \<and>
     (sb_runtime_id sb \<noteq> [] \<longrightarrow> sb_runtime_id sb \<in> K \<and>
        (\<forall>x\<in>set R. sb_id x \<noteq> sb_id sb \<longrightarrow> sb_runtime_id x \<noteq> sb_runtime_id sb)) \<and>
     (\<exists>y. sandbox_row R (sb_id sb) = Some y \<and> sb_name y = sb_name sb \<and> sb_state y \<noteq> St_destroyed)"

lemma row_of_mem: "distinct (map sb_id R) \<Longrightarrow> x \<in> set R \<Longrightarrow> sandbox_row R (sb_id x) = Some x"
  unfolding sandbox_row_def by (rule find_key_distinct)

lemma settled_gone: "settled R c K \<Longrightarrow> c [] = C_gone"
  unfolding settled_def by blast

lemma row_ok_cong:
  "row_ok c K x \<Longrightarrow> c' (sb_runtime_id x) = c (sb_runtime_id x) \<Longrightarrow> row_ok c' K x"
  unfolding row_ok_def by simp

lemma settled_begin:
  assumes "settled R c K" "sandbox_row R (sb_id sb) = Some sb" "sb_state sb \<noteq> St_destroyed"
  shows "settled_but R c K sb"
proof -
  let ?c = "c(sb_runtime_id sb := C_gone)" and ?R = "filter (\<lambda>x. sb_id x \<noteq> sb_id sb) R"
  have m: "sb \<in> set R" using sandbox_row_id [OF assms(2)] by simp
  have D: "distinct (map sb_id R)" and O: "own_containers R"
    and N: "[] \<notin> K" "\<forall>i. c i \<noteq> C_gone \<longrightarrow> i \<in> K" and A: "\<forall>x\<in>set R. row_ok c K x"
    and W: "\<forall>i. c i \<noteq> C_gone \<longrightarrow> (\<exists>x\<in>set R. sb_runtime_id x = i \<and> sb_state x \<noteq> St_destroyed)"
    using assms(1) by (auto simp: settled_def)
  have other: "sb_runtime_id x \<noteq> sb_runtime_id sb"
    if "x \<in> set R" "sb_id x \<noteq> sb_id sb" "sb_runtime_id sb \<noteq> []" for x
    using O m that unfolding own_containers_def by metis
  have "row_ok ?c K x" if "x \<in> set ?R" for x
  proof (rule row_ok_cong)
    show "row_ok c K x" using A that by simp
    show "?c (sb_runtime_id x) = c (sb_runtime_id x)"
      using other [of x] that settled_gone [OF assms(1)] by (cases "sb_runtime_id sb = []") auto
  qed
  moreover have "own_containers ?R"
    using O unfolding own_containers_def by auto
  moreover have "\<exists>x\<in>set ?R. sb_runtime_id x = i \<and> sb_state x \<noteq> St_destroyed" if "?c i \<noteq> C_gone" for i
  proof -
    obtain x where x: "x \<in> set R" "sb_runtime_id x = i" "sb_state x \<noteq> St_destroyed"
      using W \<open>?c i \<noteq> C_gone\<close> by (auto split: if_splits)
    moreover have "sb_id x \<noteq> sb_id sb"
    proof
      assume "sb_id x = sb_id sb"
      then have "x = sb" using row_of_mem [OF D x(1)] assms(2) by (metis option.inject)
      then show False using x(2) \<open>?c i \<noteq> C_gone\<close> by simp
    qed
    ultimately show ?thesis by auto
  qed
  ultimately have "settled ?R ?c K"
    using D N by (auto simp: settled_def distinct_map_filter split: if_splits)
  moreover have "sb_runtime_id sb \<noteq> [] \<longrightarrow> sb_runtime_id sb \<in> K"
    using A m by (auto simp: row_ok_def)
  moreover have "c [] = C_gone" using settled_gone [OF assms(1)] .
  ultimately show ?thesis
    using assms D other unfolding settled_but_def by auto
qed

text \<open>Writing the row in hand into a state its container supports settles the whole again.\<close>

definition supports :: "(string \<Rightarrow> container_state) \<Rightarrow> string \<Rightarrow> sb_state \<Rightarrow> bool" where
  "supports c rid st \<longleftrightarrow>
     (case st of
        St_running \<Rightarrow> rid \<noteq> [] \<and> c rid \<noteq> C_gone
      | St_stopped \<Rightarrow> rid \<noteq> [] \<and> c rid \<noteq> C_gone
      | St_destroyed \<Rightarrow> c rid = C_gone
      | St_error \<Rightarrow> True
      | _ \<Rightarrow> False)"

lemma settled_end:
  assumes "settled_but R c K sb" "sb_id x = sb_id sb" "sb_runtime_id x = sb_runtime_id sb"
    and "supports c (sb_runtime_id sb) (sb_state x)"
  shows "settled (put_row x R) c K"
proof -
  let ?R = "filter (\<lambda>z. sb_id z \<noteq> sb_id sb) R" and ?c = "c(sb_runtime_id sb := C_gone)"
  have S: "settled ?R ?c K" and D: "distinct (map sb_id R)" and E: "c [] = C_gone"
    and H: "sb_runtime_id sb \<noteq> [] \<longrightarrow> sb_runtime_id sb \<in> K \<and>
        (\<forall>z\<in>set R. sb_id z \<noteq> sb_id sb \<longrightarrow> sb_runtime_id z \<noteq> sb_runtime_id sb)"
    using assms(1) by (auto simp: settled_but_def)
  obtain y where y: "sandbox_row R (sb_id sb) = Some y"
    using assms(1) by (auto simp: settled_but_def)
  let ?x = "x\<lparr>sb_created_at := sb_created_at y\<rparr>"
  have yu: "z = y" if "z \<in> set R" "sb_id z = sb_id sb" for z
    using row_of_mem [OF D that(1)] that y by simp
  have mem: "z \<in> set (put_row x R) \<longleftrightarrow> z \<in> set ?R \<or> z = ?x" for z
  proof
    assume "z \<in> set (put_row x R)"
    then show "z \<in> set ?R \<or> z = ?x" using set_put_row [of z x R] yu assms(2) by auto
  next
    assume "z \<in> set ?R \<or> z = ?x"
    then show "z \<in> set (put_row x R)"
    proof
      assume "z = ?x"
      then show ?thesis
        using sandbox_row_id [OF y] assms(2) unfolding put_row_def by (auto intro: image_eqI [of _ _ y])
    qed (use assms(2) in \<open>auto simp: put_row_def\<close>)
  qed
  have rowok: "row_ok c K z" if "z \<in> set ?R" for z
  proof (rule row_ok_cong)
    show "row_ok ?c K z" using S that unfolding settled_def by blast
    show "c (sb_runtime_id z) = ?c (sb_runtime_id z)"
      using H E that by (cases "sb_runtime_id sb = []") auto
  qed
  moreover have "row_ok c K ?x"
    using assms(3,4) H E unfolding row_ok_def supports_def by (auto split: sb_state.splits)
  moreover have "own_containers (put_row x R)"
    unfolding own_containers_def
  proof (intro ballI impI)
    fix z w
    assume zw: "z \<in> set (put_row x R)" "w \<in> set (put_row x R)"
      and e: "sb_runtime_id z = sb_runtime_id w \<and> sb_runtime_id z \<noteq> []"
    have O: "own_containers ?R" using S by (simp add: settled_def)
    have far: "sb_runtime_id v \<noteq> sb_runtime_id sb" if "v \<in> set ?R" "sb_runtime_id sb \<noteq> []" for v
      using H that by simp
    consider "z \<in> set ?R" "w \<in> set ?R" | "z = ?x" "w = ?x" | "z \<in> set ?R" "w = ?x" | "z = ?x" "w \<in> set ?R"
      using zw mem by blast
    then show "sb_id z = sb_id w"
    proof cases
      case 1
      then show ?thesis using O e unfolding own_containers_def by blast
    next
      case 3
      then show ?thesis using far [of z] e assms(3) by auto
    next
      case 4
      then show ?thesis using far [of w] e assms(3) by auto
    qed simp
  qed
  moreover have "\<exists>z\<in>set (put_row x R). sb_runtime_id z = i \<and> sb_state z \<noteq> St_destroyed"
    if "c i \<noteq> C_gone" for i
  proof (cases "i = sb_runtime_id sb")
    case True
    then have "sb_state ?x \<noteq> St_destroyed" using that assms(4) by (auto simp: supports_def)
    then show ?thesis using mem [of ?x] True assms(3) by (intro bexI [of _ ?x]) auto
  next
    case False
    then have "\<exists>z\<in>set ?R. sb_runtime_id z = i \<and> sb_state z \<noteq> St_destroyed"
      using S that unfolding settled_def by (metis fun_upd_other)
    then show ?thesis using mem by blast
  qed
  moreover have "i \<in> K" if "c i \<noteq> C_gone" for i
    using S H that E unfolding settled_def by (cases "i = sb_runtime_id sb") auto
  ultimately show ?thesis
    using S D mem unfolding settled_def by auto
qed

lemma settled_but_write:
  assumes "settled_but R c K sb" "sb_id x = sb_id sb" "sb_runtime_id x = sb_runtime_id sb"
    and "sb_name x = sb_name sb" "sb_state x \<noteq> St_destroyed"
  shows "settled_but (put_row x R) c K x"
proof -
  have "filter (\<lambda>z. sb_id z \<noteq> sb_id x) (put_row x R) = filter (\<lambda>z. sb_id z \<noteq> sb_id sb) R"
    using assms(2) by (induction R) (auto simp: put_row_def)
  then show ?thesis
    using assms unfolding settled_but_def by (auto dest: set_put_row)
qed

lemma settled_but_refuse: "settled_but R c K sb \<Longrightarrow> \<not> may_refuse R sb"
  by (auto simp: settled_but_def may_refuse_def)

lemma settled_but_ctr:
  assumes "settled_but R c K sb" "c' = c(sb_runtime_id sb := st)" "sb_runtime_id sb \<noteq> []"
  shows "settled_but R c' K sb"
  using assms by (simp add: settled_but_def)

lemma settled_but_new:
  assumes "settled_but R c K sb" "c (sb_runtime_id sb) = C_gone" "i \<notin> K" "i \<noteq> []"
  shows "settled_but R (c(i := st)) (insert i K) (sb\<lparr>sb_runtime_id := i\<rparr>)"
proof -
  let ?R = "filter (\<lambda>z. sb_id z \<noteq> sb_id sb) R"
  have c: "c(sb_runtime_id sb := C_gone) = c" using assms(2) by (rule fun_upd_idem)
  have S: "settled ?R c K" using assms(1) unfolding settled_but_def c by simp
  have "c i = C_gone" using S assms(3) unfolding settled_def by blast
  then have "settled ?R ((c(i := st))(i := C_gone)) (insert i K)"
    using S assms(4) unfolding settled_def row_ok_def by (simp add: fun_upd_idem)
  moreover have "\<forall>x\<in>set R. sb_id x \<noteq> sb_id sb \<longrightarrow> sb_runtime_id x \<noteq> i"
    using S assms(3,4) unfolding settled_def row_ok_def by auto
  ultimately show ?thesis
    using assms unfolding settled_but_def by auto
qed

lemma settled_add:
  assumes "settled R c K" "sandbox_row R (sb_id x) = None" "sb_runtime_id x = []" "sb_state x \<noteq> St_destroyed"
  shows "settled_but (R @ [x]) c K x"
proof -
  have "filter (\<lambda>z. sb_id z \<noteq> sb_id x) R = R"
    using assms(2) by (auto simp: sandbox_row_none intro: filter_True)
  moreover have "c([] := C_gone) = c" using settled_gone [OF assms(1)] by (rule fun_upd_idem)
  ultimately show ?thesis
    using assms settled_gone [OF assms(1)]
    unfolding settled_but_def by (auto simp: sandbox_row_none [symmetric]) (auto simp: sandbox_row_none settled_def)
qed

section \<open>Every operation settles\<close>

context sandbox_env
begin

definition rest :: "'s \<Rightarrow> bool" where
  "rest s \<longleftrightarrow> calm s \<and> settled (rows s) (ctr s) (known s)"

definition busy :: "'s \<Rightarrow> sandbox \<Rightarrow> bool" where
  "busy s sb \<longleftrightarrow> calm s \<and> settled_but (rows s) (ctr s) (known s) sb"

lemma rest_idle: "rest s \<Longrightarrow> idle s s' \<Longrightarrow> rest s'"
  by (simp add: rest_def idle_def entails_def)

lemma busy_idle: "busy s sb \<Longrightarrow> idle s s' \<Longrightarrow> busy s' sb"
  by (simp add: busy_def idle_def entails_def)

lemma busy_row: "rest s \<Longrightarrow> sandbox_row (rows s) (sb_id sb) = Some sb \<Longrightarrow> sb_state sb \<noteq> St_destroyed \<Longrightarrow> busy s sb"
  by (simp add: rest_def busy_def settled_begin)

lemma busy_updates [simp]:
  "busy s (sb\<lparr>sb_oci_runtime := oc\<rparr>) = busy s sb"
  "busy s (sb\<lparr>sb_parent_snapshot_id := p\<rparr>) = busy s sb"
  by (simp_all add: busy_def settled_but_def)

lemma write_rest:
  assumes "busy s sb" "supports (ctr s) (sb_runtime_id sb) st"
  shows "wp (write_state sv sb st) (\<lambda>_ s'. rest s') (\<lambda>_ _. False) s"
  by (rule wp_weaken [OF write_state_law])
    (use assms settled_but_refuse [of "rows s" "ctr s" "known s" sb] in
      \<open>auto simp: rest_def busy_def entails_def stamped_def intro!: settled_end\<close>)

lemma mark_rest:
  assumes "busy s sb"
  shows "wp (mark_error sv sb cause) (\<lambda>_ _. False) (\<lambda>_ s'. rest s') s"
  unfolding mark_error_def
  by (intro wp_rules wp_weaken [OF write_rest [OF assms]]) (simp_all add: supports_def)

lemma begin_destroy:
  assumes "busy s sb"
  shows "wp (write_state sv sb St_destroying)
     (\<lambda>x s'. busy s' x \<and> ctr s' = ctr s \<and> sb_runtime_id x = sb_runtime_id sb) (\<lambda>_ _. False) s"
  by (rule wp_weaken [OF write_state_law])
    (use assms settled_but_refuse [of "rows s" "ctr s" "known s" sb] in
      \<open>auto simp: busy_def entails_def stamped_def intro!: settled_but_write [of _ _ _ sb]\<close>)

text \<open>The runtime's calls on the container in hand.\<close>

lemma start_busy:
  assumes "busy s sb"
  shows "wp (rt_start (sbs_rt sv) (sb_runtime_id sb))
     (\<lambda>_ s'. busy s' sb \<and> sb_runtime_id sb \<noteq> [] \<and> ctr s' (sb_runtime_id sb) \<noteq> C_gone)
     (\<lambda>_ s'. busy s' sb) s"
proof -
  have "ctr s [] = C_gone" using assms by (simp add: busy_def settled_but_def)
  then show ?thesis
    by (intro sandbox_rules)
      (use assms in \<open>auto simp: busy_def entails_def intro: settled_but_ctr\<close>)
qed

lemma stop_busy:
  assumes "busy s sb"
  shows "wp (rt_stop (sbs_rt sv) (sb_runtime_id sb) d)
     (\<lambda>_ s'. busy s' sb \<and> sb_runtime_id sb \<noteq> [] \<and> ctr s' (sb_runtime_id sb) \<noteq> C_gone)
     (\<lambda>_ s'. busy s' sb) s"
proof -
  have "ctr s [] = C_gone" using assms by (simp add: busy_def settled_but_def)
  then show ?thesis
    by (intro sandbox_rules)
      (use assms in \<open>auto simp: busy_def entails_def intro: settled_but_ctr\<close>)
qed

lemma inspect_busy:
  assumes "busy s sb"
  shows "wp (rt_inspect (sbs_rt sv) i) (\<lambda>st s'. busy s' sb \<and> cst_state st = ctr s' i) (\<lambda>_ s'. busy s' sb) s"
  by (intro sandbox_rules) (use assms in \<open>auto simp: busy_def entails_def\<close>)

lemma create_busy:
  assumes "busy s sb" "ctr s (sb_runtime_id sb) = C_gone"
  shows "wp (rt_create (sbs_rt sv) spec)
     (\<lambda>i s'. busy s' (sb\<lparr>sb_runtime_id := i\<rparr>)) (\<lambda>_ s'. busy s' sb) s"
  by (intro sandbox_rules)
    (use assms in \<open>auto simp: busy_def entails_def intro: settled_but_new\<close>)

lemma destroy_busy:
  assumes "busy s sb" "sb_runtime_id sb \<noteq> []"
  shows "wp (rt_destroy (sbs_rt sv) (sb_runtime_id sb))
     (\<lambda>_ s'. busy s' sb \<and> ctr s' (sb_runtime_id sb) = C_gone)
     (\<lambda>e s'. busy s' sb \<and> entails (errors_is e Rt_not_found) (ctr s' (sb_runtime_id sb) = C_gone)) s"
  by (intro sandbox_rules)
    (use assms in \<open>auto simp: busy_def entails_def intro: settled_but_ctr\<close>)

lemma drop_container_rest:
  assumes "busy s sb"
    and "\<And>s'. busy s' sb \<Longrightarrow> ctr s' (sb_runtime_id sb) = C_gone \<Longrightarrow> wp k (\<lambda>_ s'. rest s') (\<lambda>_ s'. rest s') s'"
  shows "wp (drop_container sv sb k) (\<lambda>_ s'. rest s') (\<lambda>_ s'. rest s') s"
proof -
  have "ctr s [] = C_gone" using assms(1) by (simp add: busy_def settled_but_def)
  then show ?thesis
    unfolding drop_container_def
    by (intro wp_rules wp_weaken [OF destroy_busy] wp_weaken [OF mark_rest] assms(2))
      (use assms(1) in \<open>auto simp: entails_def\<close>)
qed

lemma or_mark_rest:
  assumes "wp m A (\<lambda>_ s'. busy s' sb) s" "\<And>a s'. A a s' \<Longrightarrow> wp (k a) (\<lambda>_ s'. rest s') (\<lambda>_ s'. rest s') s'"
  shows "wp (or_mark sv sb m k) (\<lambda>_ s'. rest s') (\<lambda>_ s'. rest s') s"
  unfolding or_mark_def
  by (intro wp_rules wp_weaken [OF assms(1)] wp_weaken [OF mark_rest]) (auto intro: assms(2))

lemma boot_container_rest:
  assumes "busy s sb" "ctr s (sb_runtime_id sb) = C_gone"
    and "\<And>sb1 s'. busy s' sb1 \<Longrightarrow> supports (ctr s') (sb_runtime_id sb1) St_running \<Longrightarrow>
      wp (k sb1) (\<lambda>_ s'. rest s') (\<lambda>_ s'. rest s') s'"
  shows "wp (boot_container sv sb img ex k) (\<lambda>_ s'. rest s') (\<lambda>_ s'. rest s') s"
  unfolding boot_container_def Let_def
proof (rule or_mark_rest [OF create_busy [OF assms(1,2)]])
  fix rid s1
  let ?sb = "sb\<lparr>sb_runtime_id := rid\<rparr>"
  assume b: "busy s1 ?sb"
  show "wp (or_mark sv ?sb (rt_start (sbs_rt sv) rid)
      (\<lambda>_. or_mark sv ?sb (rt_inspect (sbs_rt sv) rid)
        (\<lambda>status. if cst_state status \<noteq> C_running then mark_error sv ?sb (wrapf ex) else k ?sb)))
      (\<lambda>_ s'. rest s') (\<lambda>_ s'. rest s') s1"
  proof (rule or_mark_rest [OF start_busy [OF b, simplified]])
    fix u s2
    assume b2: "busy s2 ?sb \<and> rid \<noteq> [] \<and> ctr s2 rid \<noteq> C_gone"
    show "wp (or_mark sv ?sb (rt_inspect (sbs_rt sv) rid)
        (\<lambda>status. if cst_state status \<noteq> C_running then mark_error sv ?sb (wrapf ex) else k ?sb))
        (\<lambda>_ s'. rest s') (\<lambda>_ s'. rest s') s2"
      by (rule or_mark_rest [OF inspect_busy [OF conjunct1 [OF b2]]])
        (intro wp_rules wp_weaken [OF mark_rest] assms(3); use b2 in \<open>auto simp: supports_def\<close>)
  qed
qed

lemma locked_rest:
  assumes "rest s"
    and "\<And>sb s'. sb_state sb \<noteq> St_destroyed \<Longrightarrow> rest s' \<Longrightarrow> busy s' sb \<Longrightarrow>
      sandbox_row (rows s') (sb_id sb) = Some sb \<Longrightarrow> wp (k sb) (\<lambda>_ s'. rest s') (\<lambda>_ s'. rest s') s'"
    and "\<And>sb. sb_state sb = St_destroyed \<Longrightarrow> \<exists>e. k sb = throwE e"
  shows "wp (bindE (locked_get sv ref) k) (\<lambda>_ s'. rest s') (\<lambda>_ s'. rest s') s"
proof (intro wp_rules wp_weaken [OF locked_get_law])
  fix sb s'
  assume a: "idle s s' \<and> sandbox_row (rows s) (sb_id sb) = Some sb \<and>
    entails (sbs_is_uuid sv ref) (sb_id sb = ref)"
  then have r: "rest s'" using assms(1) rest_idle by blast
  show "wp (k sb) (\<lambda>_ s'. rest s') (\<lambda>_ s'. rest s') s'"
  proof (cases "sb_state sb = St_destroyed")
    case True
    then obtain e where "k sb = throwE e" using assms(3) by blast
    then show ?thesis using r by (simp add: wp_throw)
  next
    case False
    have row: "sandbox_row (rows s') (sb_id sb) = Some sb" using a by (simp add: idle_def)
    show ?thesis using False r busy_row [OF r row False] row by (intro assms(2))
  qed
qed (use assms(1) rest_idle in blast)

lemma transition_rest:
  assumes "rest s" "target \<in> {St_running, St_stopped}"
    and "\<And>sb t. busy t sb \<Longrightarrow> wp (act sb)
      (\<lambda>_ s'. busy s' sb \<and> sb_runtime_id sb \<noteq> [] \<and> ctr s' (sb_runtime_id sb) \<noteq> C_gone) (\<lambda>_ s'. busy s' sb) t"
  shows "wp (sandbox_transition sv ref target act) (\<lambda>_ s'. rest s') (\<lambda>_ s'. rest s') s"
  unfolding sandbox_transition_def
  by (intro locked_rest [OF assms(1)] wp_rules or_mark_rest [OF assms(3)] wp_weaken [OF write_rest])
    (use assms(2) in \<open>auto simp: no_edges supports_def\<close>)

lemma destroy_rest:
  assumes "rest s"
  shows "wp (sandbox_destroy sv ref) (\<lambda>_ s'. rest s') (\<lambda>_ s'. rest s') s"
  unfolding sandbox_destroy_def
  by (intro locked_rest [OF assms] wp_rules wp_weaken [OF begin_destroy] drop_container_rest
      wp_weaken [OF write_rest])
    (auto simp: no_edges supports_def)

lemma create_rest:
  assumes "rest s"
  shows "wp (sandbox_create sv opts) (\<lambda>_ s'. rest s') (\<lambda>_ s'. rest s') s"
  unfolding sandbox_create_def
  by (intro wp_rules sandbox_rules boot_container_rest wp_weaken [OF write_rest])
    (use assms in \<open>auto simp: rest_def busy_def entails_def new_row_def settled_gone intro: settled_add\<close>)

end

context sandbox_env
begin

text \<open>Linking a fork to its snapshot touches neither the state nor the container.\<close>

lemma settled_touch:
  assumes "settled R c K" "sandbox_row R (sb_id x) = Some y"
    and "sb_state x = sb_state y" "sb_runtime_id x = sb_runtime_id y"
  shows "settled (put_row x R) c K"
proof -
  have u: "z = y" if "z \<in> set R" "sb_id z = sb_id x" for z
    using row_of_mem [of R z] that assms(1,2) unfolding settled_def by (metis option.inject)
  have y: "y \<in> set R" "sb_id y = sb_id x" using sandbox_row_id [OF assms(2)] by auto
  define f where "f = (\<lambda>z. if sb_id z = sb_id x then x\<lparr>sb_created_at := sb_created_at z\<rparr> else z)"
  have f: "sb_id (f z) = sb_id z \<and> sb_state (f z) = sb_state z \<and> sb_runtime_id (f z) = sb_runtime_id z"
    if "z \<in> set R" for z
    using u [OF that] assms(3,4) by (auto simp: f_def)
  have p: "put_row x R = map f R" by (simp add: put_row_def f_def)
  have ids: "distinct (map sb_id (map f R))"
  proof -
    have "map sb_id (map f R) = map sb_id R" using f by simp
    then show ?thesis using assms(1) unfolding settled_def by metis
  qed
  have ok: "row_ok c K (f z)" if "z \<in> set R" for z
    using assms(1) f [OF that] that unfolding settled_def row_ok_def by simp
  have own: "own_containers (map f R)"
  proof -
    have "own_containers R" using assms(1) unfolding settled_def by blast
    then show ?thesis using f unfolding own_containers_def set_map by (metis imageE)
  qed
  have "\<exists>z\<in>set (map f R). sb_runtime_id z = i \<and> sb_state z \<noteq> St_destroyed" if live: "c i \<noteq> C_gone" for i
  proof -
    obtain z where "z \<in> set R" "sb_runtime_id z = i" "sb_state z \<noteq> St_destroyed"
      using assms(1) live unfolding settled_def by blast
    then show ?thesis using f by (intro bexI [of _ "f z"]) auto
  qed
  then show ?thesis
    using assms(1) ids ok own unfolding settled_def p set_map by blast
qed

lemma fork_link_rest:
  assumes "rest s"
  shows "wp (fork_link sv r i) (\<lambda>_ s'. rest s') (\<lambda>_ s'. rest s') s"
  unfolding fork_link_def
  by (intro wp_rules sandbox_rules)
    (use assms in \<open>auto simp: rest_def entails_def intro: settled_touch\<close>)

lemma fork_rest:
  assumes "rest s"
  shows "wp (sandbox_fork sv sref opts) (\<lambda>_ s'. rest s') (\<lambda>_ s'. rest s') s"
proof (cases "sbs_snapshots sv")
  case (Some resolve)
  show ?thesis
    unfolding sandbox_fork_def Some option.case
    by (intro wp_rules wp_weaken [OF resolve_law [OF Some]] wp_weaken [OF create_rest] fork_link_rest)
      (use assms rest_idle in auto)
qed (simp add: sandbox_fork_def wp_throw assms)

lemma restore_rest:
  assumes "rest s"
  shows "wp (sandbox_restore sv ref sref) (\<lambda>_ s'. rest s') (\<lambda>_ s'. rest s') s"
proof (cases "sbs_snapshots sv")
  case (Some resolve)
  show ?thesis
    unfolding sandbox_restore_def Some option.case
    by (intro wp_rules wp_weaken [OF resolve_law [OF Some]] locked_rest
        drop_container_rest boot_container_rest wp_weaken [OF write_rest])
      (use assms rest_idle in auto)
qed (simp add: sandbox_restore_def wp_throw assms)

text \<open>Unpausing changes no container's existence.\<close>

lemma settled_live:
  assumes "settled R c K" "\<And>i. c' i = C_gone \<longleftrightarrow> c i = C_gone"
  shows "settled R c' K"
  using assms unfolding settled_def row_ok_def by simp

lemma settled_unpause: "settled R c K \<Longrightarrow> c i = C_paused \<Longrightarrow> settled R (c(i := C_running)) K"
  by (erule settled_live) simp

lemma unpause_one_rest:
  assumes "rest s"
  shows "wp (unpause_one sv sb) (\<lambda>_ s'. rest s') (\<lambda>_ s'. rest s') s"
  unfolding unpause_one_def
  by (intro wp_rules sandbox_rules)
    (use assms in \<open>auto simp: rest_def entails_def settled_unpause split: if_splits\<close>)

lemma unpause_all_rest:
  assumes "rest s"
  shows "wp (unpause_all sv sbs) (\<lambda>_ s'. rest s') (\<lambda>_ s'. rest s') s"
  using assms
proof (induction sbs arbitrary: s)
  case (Cons sb sbs)
  then show ?case
    unfolding unpause_all.simps
    by (intro wp_rules wp_weaken [OF unpause_one_rest] wp_weaken [OF Cons.IH]) auto
qed (simp add: wp_return)

lemma unpause_rest:
  assumes "rest s"
  shows "wp (unpause_paused sv) (\<lambda>_ s'. rest s') (\<lambda>_ s'. rest s') s"
  unfolding unpause_paused_def
  by (intro wp_rules sandbox_rules unpause_all_rest)
    (use assms in \<open>auto simp: rest_def entails_def\<close>)

lemma call_rest:
  assumes "rest s"
  shows "wp (run_call sv c) (\<lambda>_ s'. rest s') (\<lambda>_ s'. rest s') s"
  using assms
  by (cases c) (auto simp: sandbox_start_def sandbox_stop_def intro!: wp_to_unit create_rest
      destroy_rest fork_rest restore_rest transition_rest start_busy stop_busy unpause_rest)

lemma calls_rest: "rest s \<Longrightarrow> rest (run_calls sv cs s)"
proof (induction cs arbitrary: s)
  case (Cons c cs)
  then show ?case using wp_snd [OF call_rest [of s c]] by simp
qed simp

end

end
