(* ===== verification/Sandbox_Outcomes.thy ===== *)
theory Sandbox_Outcomes
  imports Sandbox_Settled
begin

text \<open>
  What each operation of the sandbox service has done when it returns: the row as it is
  stored and the container behind it; and, for a creation that fails, that the failure is
  in the row. These are the functional laws of the service, proved over its contract.
\<close>

context sandbox_env
begin

definition booted :: "string \<Rightarrow> 's \<Rightarrow> 's \<Rightarrow> bool" where
  "booted rid s s' \<longleftrightarrow> ctr s' rid = C_running \<and> (\<forall>j. j \<noteq> rid \<longrightarrow> ctr s' j = ctr s j) \<and> rid \<notin> known s \<and> rid \<noteq> []"

text \<open>\<open>Create\<close>: the row that was asked for, with the limits defaulted, running on a new
  container; a failure after the insert leaves the row in the error state.\<close>

lemma create_outcome:
  assumes "calm s"
  shows "wp (sandbox_create sv opts)
    (\<lambda>x s'. calm s' \<and> (\<exists>net now i rid t. check_options sv opts = Inr net \<and>
       x = (new_row sv opts net now i)\<lparr>sb_runtime_id := rid, sb_state := St_running, sb_updated_at := t\<rparr> \<and>
       sandbox_row (rows s) i = None \<and> rows s' = rows s @ [x] \<and> booted rid s s'))
    (\<lambda>e s'. calm s' \<and> (rows s' = rows s \<and> ctr s' = ctr s \<or>
       (\<exists>x. rows s' = rows s @ [x] \<and> sb_state x = St_error \<and> (\<forall>j. j \<noteq> sb_runtime_id x \<longrightarrow> ctr s' j = ctr s j)))) s"
  unfolding sandbox_create_def boot_container_def or_mark_def Let_def
  by (intro service_rules)
    (use assms in \<open>auto simp: idle_def entails_def stamped_def may_refuse_def new_row_def booted_def split: if_splits\<close>)

text \<open>\<open>Destroy\<close>: the container is gone and the row says so. A failure writes at most the
  error state.\<close>

text \<open>The row a reference means: by id, or by the name of a sandbox that is not destroyed.\<close>

definition meant_by :: "string \<Rightarrow> sandbox list \<Rightarrow> string \<Rightarrow> bool" where
  "meant_by ref R i \<longleftrightarrow>
     (if sbs_is_uuid sv ref then i = ref
      else \<exists>y\<in>set R. sb_id y = i \<and> sb_name y = ref \<and> sb_state y \<noteq> St_destroyed)"

definition picked :: "'s \<Rightarrow> string \<Rightarrow> sandbox \<Rightarrow> bool" where
  "picked s ref sb \<longleftrightarrow> sandbox_row (rows s) (sb_id sb) = Some sb \<and> meant_by ref (rows s) (sb_id sb)"

lemma pick_law: "wp (locked_get sv ref) (\<lambda>x s'. idle s s' \<and> picked s ref x) (\<lambda>_ s'. idle s s') s"
  unfolding locked_get_def
  by (intro wp_rules wp_weaken [OF get_law] sandbox_rules) (auto simp: idle_def entails_def picked_def meant_by_def)

lemma picked_row: "picked s ref sb \<Longrightarrow> sandbox_row (rows s) (sb_id sb) = Some sb"
  by (simp add: picked_def)

lemma stamped_twice: "stamped sb a x \<Longrightarrow> stamped x b y \<Longrightarrow> stamped sb b y"
  by (auto simp: stamped_def)

lemma write_calm:
  assumes "calm s" "sandbox_row (rows s) (sb_id sb) = Some y" "sb_name y = sb_name sb" "sb_state y \<noteq> St_destroyed"
  shows "wp (write_state sv sb st)
    (\<lambda>x s'. stamped sb st x \<and> rows s' = put_row x (rows s) \<and> ctr s' = ctr s \<and> known s' = known s \<and> calm s')
    (\<lambda>_ _. False) s"
  by (rule wp_weaken [OF write_state_law]) (use assms in \<open>auto simp: may_refuse_def entails_def\<close>)

lemma mark_calm:
  assumes "calm s" "sandbox_row (rows s) (sb_id sb) = Some y" "sb_name y = sb_name sb" "sb_state y \<noteq> St_destroyed"
  shows "wp (mark_error sv sb cause) (\<lambda>_ _. False)
    (\<lambda>e s'. e = cause \<and> (\<exists>x. stamped sb St_error x \<and> rows s' = put_row x (rows s)) \<and> ctr s' = ctr s \<and>
       known s' = known s \<and> calm s') s"
  unfolding mark_error_def
  by (intro wp_rules wp_weaken [OF write_calm [OF assms]]) auto

definition gone :: "string \<Rightarrow> 's \<Rightarrow> 's \<Rightarrow> bool" where
  "gone rid s s' \<longleftrightarrow> (rid \<noteq> [] \<longrightarrow> ctr s' = (ctr s)(rid := C_gone))"

lemma drop_law:
  assumes "calm s" "sandbox_row (rows s) (sb_id sb) = Some y" "sb_name y = sb_name sb" "sb_state y \<noteq> St_destroyed"
    and "\<And>s'. calm s' \<Longrightarrow> rows s' = rows s \<Longrightarrow> known s' = known s \<Longrightarrow> gone (sb_runtime_id sb) s s' \<Longrightarrow>
      (sb_runtime_id sb = [] \<Longrightarrow> ctr s' = ctr s) \<Longrightarrow> wp k Q E s'"
    and "\<And>e x s'. calm s' \<Longrightarrow> stamped sb St_error x \<Longrightarrow> rows s' = put_row x (rows s) \<Longrightarrow> ctr s' = ctr s \<Longrightarrow> E e s'"
  shows "wp (drop_container sv sb k) Q E s"
  unfolding drop_container_def
  by (intro wp_rules sandbox_rules wp_weaken [OF mark_calm [of _ sb y]])
    (use assms in \<open>auto simp: entails_def gone_def fun_upd_idem\<close>)

lemma destroy_outcome:
  assumes "calm s"
  shows "wp (sandbox_destroy sv ref)
    (\<lambda>x s'. calm s' \<and> (\<exists>sb. picked s ref sb \<and> can_transition (sb_state sb) St_destroying \<and>
       stamped sb St_destroyed x \<and> rows s' = put_row x (rows s) \<and> gone (sb_runtime_id sb) s s'))
    (\<lambda>e s'. calm s' \<and> ctr s' = ctr s \<and> (rows s' = rows s \<or>
       (\<exists>sb. picked s ref sb \<and> (\<exists>x. stamped sb St_error x \<and> rows s' = put_row x (rows s))))) s"
proof -
  have after: "wp (drop_container sv x (write_state sv x St_destroyed))
      (\<lambda>x s'. calm s' \<and> (\<exists>sb. picked s ref sb \<and> can_transition (sb_state sb) St_destroying \<and>
         stamped sb St_destroyed x \<and> rows s' = put_row x (rows s) \<and> gone (sb_runtime_id sb) s s'))
      (\<lambda>e s'. calm s' \<and> ctr s' = ctr s \<and> (rows s' = rows s \<or>
         (\<exists>sb. picked s ref sb \<and> (\<exists>x. stamped sb St_error x \<and> rows s' = put_row x (rows s))))) u"
    if sb: "picked s ref sb" "can_transition (sb_state sb) St_destroying" "stamped sb St_destroying x"
      and u: "rows u = put_row x (rows s)" "ctr u = ctr s" "calm u" for sb x u
  proof -
    note ids = stamped_simps [OF sb(3)]
    have row: "sandbox_row (rows u) (sb_id x) = Some (x\<lparr>sb_created_at := sb_created_at sb\<rparr>)"
      using u(1) picked_row [OF sb(1)] ids by simp
    show ?thesis
    proof (rule drop_law [OF u(3) row])
      fix s' assume s': "calm s'" "rows s' = rows u" "gone (sb_runtime_id x) u s'"
      have row': "sandbox_row (rows s') (sb_id x) = Some (x\<lparr>sb_created_at := sb_created_at sb\<rparr>)"
        using row s'(2) by simp
      show "wp (write_state sv x St_destroyed)
        (\<lambda>x s'. calm s' \<and> (\<exists>sb. picked s ref sb \<and> can_transition (sb_state sb) St_destroying \<and>
           stamped sb St_destroyed x \<and> rows s' = put_row x (rows s) \<and> gone (sb_runtime_id sb) s s'))
        (\<lambda>e s'. calm s' \<and> ctr s' = ctr s \<and> (rows s' = rows s \<or>
           (\<exists>sb. picked s ref sb \<and> (\<exists>x. stamped sb St_error x \<and> rows s' = put_row x (rows s))))) s'"
        by (rule wp_weaken [OF write_calm [OF s'(1) row']])
          (use sb u s' ids stamped_simps in \<open>auto simp: put_row_put gone_def intro!: exI [of _ sb] dest: stamped_twice\<close>)
    next
      fix e y s' assume "calm s'" "stamped x St_error y" "rows s' = put_row y (rows u)" "ctr s' = ctr u"
      then show "calm s' \<and> ctr s' = ctr s \<and> (rows s' = rows s \<or>
           (\<exists>sb. picked s ref sb \<and> (\<exists>x. stamped sb St_error x \<and> rows s' = put_row x (rows s))))"
        using sb(1) u stamped_twice [OF sb(3)] stamped_simps [of x St_error y] by (auto simp: put_row_put)
    qed (use ids in simp_all)
  qed
  show ?thesis
    unfolding sandbox_destroy_def
    by (intro wp_rules wp_weaken [OF pick_law] wp_weaken [OF write_state_law])
      (use assms in \<open>auto simp: idle_def entails_def may_refuse_def no_edges dest: picked_row intro!: after\<close>)
qed

text \<open>\<open>Start\<close> and \<open>Stop\<close>: the target state and a container that still exists, or the row unchanged,
  or the error state.\<close>

lemma transition_outcome:
  assumes "calm s" "target \<in> {St_running, St_stopped}"
    and "\<And>sb t. wp (act sb) (\<lambda>_ t'. rows t' = rows t \<and> entails (calm t) (calm t') \<and> ctr t' (sb_runtime_id sb) \<noteq> C_gone)
      (\<lambda>_ t'. rows t' = rows t \<and> entails (calm t) (calm t')) t"
  shows "wp (sandbox_transition sv ref target act)
    (\<lambda>x s'. calm s' \<and> (\<exists>sb. picked s ref sb \<and> can_transition (sb_state sb) target \<and>
       stamped sb target x \<and> rows s' = put_row x (rows s) \<and> ctr s' (sb_runtime_id sb) \<noteq> C_gone))
    (\<lambda>e s'. calm s' \<and> (rows s' = rows s \<or>
       (\<exists>sb. picked s ref sb \<and> (\<exists>x. stamped sb St_error x \<and> rows s' = put_row x (rows s))))) s"
  unfolding sandbox_transition_def or_mark_def
  by (intro wp_rules wp_weaken [OF pick_law] wp_weaken [OF assms(3)] wp_weaken [OF write_state_law]
      wp_weaken [OF mark_error_law])
    (use assms(1,2) in \<open>auto simp: idle_def entails_def may_refuse_def can_transition_def picked_def\<close>)

lemma start_outcome:
  assumes "calm s"
  shows "wp (sandbox_start sv ref)
    (\<lambda>x s'. calm s' \<and> (\<exists>sb. picked s ref sb \<and> can_transition (sb_state sb) St_running \<and>
       stamped sb St_running x \<and> rows s' = put_row x (rows s) \<and> ctr s' (sb_runtime_id sb) \<noteq> C_gone))
    (\<lambda>e s'. calm s' \<and> (rows s' = rows s \<or>
       (\<exists>sb. picked s ref sb \<and> (\<exists>x. stamped sb St_error x \<and> rows s' = put_row x (rows s))))) s"
  unfolding sandbox_start_def
  by (intro transition_outcome assms sandbox_rules) auto

lemma stop_outcome:
  assumes "calm s"
  shows "wp (sandbox_stop sv ref)
    (\<lambda>x s'. calm s' \<and> (\<exists>sb. picked s ref sb \<and> can_transition (sb_state sb) St_stopped \<and>
       stamped sb St_stopped x \<and> rows s' = put_row x (rows s) \<and> ctr s' (sb_runtime_id sb) \<noteq> C_gone))
    (\<lambda>e s'. calm s' \<and> (rows s' = rows s \<or>
       (\<exists>sb. picked s ref sb \<and> (\<exists>x. stamped sb St_error x \<and> rows s' = put_row x (rows s))))) s"
  unfolding sandbox_stop_def
  by (intro transition_outcome assms sandbox_rules) auto

text \<open>\<open>Fork\<close>: a new sandbox from the snapshot's image, on the snapshot's network unless another
  was asked for, linked to the snapshot.\<close>

lemma fork_outcome:
  assumes "calm s" "sbs_snapshots sv = Some resolve"
    and "\<And>t. wp (resolve sref) (\<lambda>r t'. idle t t' \<and> R t r) (\<lambda>_ t'. idle t t') t"
  shows "wp (sandbox_fork sv sref opts)
    (\<lambda>x s'. calm s' \<and> (\<exists>r rid. R s r \<and> sb_parent_snapshot_id x = Some (rs_id r) \<and>
       sb_image x = rs_runtime_ref r \<and> sb_state x = St_running \<and> sb_runtime_id x = rid \<and>
       (opt_network opts = [] \<and> rs_network r \<noteq> [] \<longrightarrow> sb_network x = rs_network r) \<and>
       rows s' = rows s @ [x] \<and> booted rid s s'))
    (\<lambda>_ s'. calm s') s"
proof -
  have net: "check_options sv (fork_options r opts) = Inr net \<Longrightarrow>
      opt_network opts = [] \<and> rs_network r \<noteq> [] \<longrightarrow> net = rs_network r" for r net
    by (auto simp: check_options_def fork_options_def Let_def split: if_splits sum.splits)
  have image: "opt_image (fork_options r opts) = rs_runtime_ref r" for r
    by (simp add: fork_options_def)
  show ?thesis
    unfolding sandbox_fork_def assms(2) option.case fork_link_def Let_def
    by (intro wp_rules wp_weaken [OF assms(3)] wp_weaken [OF create_outcome] sandbox_rules)
      (use assms(1) net in \<open>auto simp: idle_def entails_def new_row_def image booted_def, blast\<close>)
qed

text \<open>\<open>Restore\<close>: the same row on a new container from the snapshot's image, the old one gone.\<close>

definition restored :: "'s \<Rightarrow> sandbox \<Rightarrow> resolved \<Rightarrow> sandbox \<Rightarrow> 's \<Rightarrow> bool" where
  "restored s sb r x s' \<longleftrightarrow> (\<exists>t. x = sb\<lparr>sb_runtime_id := sb_runtime_id x, sb_oci_runtime := sbs_oci_runtime sv,
       sb_parent_snapshot_id := Some (rs_id r), sb_state := St_running, sb_updated_at := t\<rparr>) \<and>
     rows s' = put_row x (rows s) \<and> ctr s' (sb_runtime_id x) = C_running \<and>
     sb_runtime_id x \<notin> known s \<and>
     (\<forall>j. j \<noteq> sb_runtime_id x \<longrightarrow> ctr s' j = (if j = sb_runtime_id sb \<and> j \<noteq> [] then C_gone else ctr s j))"

lemma restoredI:
  assumes "stamped (sb\<lparr>sb_runtime_id := rid, sb_oci_runtime := sbs_oci_runtime sv,
      sb_parent_snapshot_id := Some (rs_id r)\<rparr>) St_running x" "rows s' = put_row x (rows s)"
    and "booted rid u s'" "known u = known s" "gone (sb_runtime_id sb) s u"
    and "sb_runtime_id sb = [] \<Longrightarrow> ctr u = ctr s"
  shows "restored s sb r x s'"
proof -
  have rid: "sb_runtime_id x = rid" using stamped_simps [OF assms(1)] by simp
  have "ctr s' j = (if j = sb_runtime_id sb \<and> j \<noteq> [] then C_gone else ctr s j)" if "j \<noteq> rid" for j
    using that assms(3,5,6) by (cases "sb_runtime_id sb = []") (simp_all add: booted_def gone_def)
  then show ?thesis
    using assms(1-4) unfolding restored_def rid stamped_def booted_def by simp
qed

lemma boot_law:
  assumes "calm u" "sandbox_row (rows u) (sb_id sb) = Some y" "sb_name y = sb_name sb" "sb_state y \<noteq> St_destroyed"
    and "\<And>rid s'. calm s' \<Longrightarrow> rows s' = rows u \<Longrightarrow> booted rid u s' \<Longrightarrow> wp (k (sb\<lparr>sb_runtime_id := rid\<rparr>)) Q E s'"
    and "\<And>e y x s'. stamped y St_error x \<Longrightarrow> sb_id y = sb_id sb \<Longrightarrow> calm s' \<Longrightarrow> rows s' = put_row x (rows u) \<Longrightarrow> E e s'"
  shows "wp (boot_container sv sb img ex k) Q E u"
  unfolding boot_container_def or_mark_def Let_def
  by (intro wp_rules sandbox_rules wp_weaken [OF mark_calm [of _ _ y]])
    (use assms(1-4) in \<open>auto simp: entails_def booted_def intro!: assms(5) split: if_splits\<close>,
      (erule assms(6); simp)+)

lemma restore_outcome:
  assumes "calm s" "sbs_snapshots sv = Some resolve"
    and "\<And>t. wp (resolve sref) (\<lambda>r t'. idle t t' \<and> R t r) (\<lambda>_ t'. idle t t') t"
  shows "wp (sandbox_restore sv ref sref)
    (\<lambda>x s'. calm s' \<and> (\<exists>sb r. picked s ref sb \<and> sb_state sb \<in> {St_running, St_stopped} \<and> R s r \<and> restored s sb r x s'))
    (\<lambda>_ s'. calm s' \<and> (rows s' = rows s \<or>
       (\<exists>sb. picked s ref sb \<and> (\<exists>x. sb_id x = sb_id sb \<and> sb_state x = St_error \<and> rows s' = put_row x (rows s))))) s"
proof -
  let ?Q = "\<lambda>x s'. calm s' \<and> (\<exists>sb r. picked s ref sb \<and> sb_state sb \<in> {St_running, St_stopped} \<and> R s r \<and> restored s sb r x s')"
    and ?E = "\<lambda>_ s'. calm s' \<and> (rows s' = rows s \<or>
       (\<exists>sb. picked s ref sb \<and> (\<exists>x. sb_id x = sb_id sb \<and> sb_state x = St_error \<and> rows s' = put_row x (rows s))))"
  have marked: "?E e s'" if "picked s ref sb" "sb_id y = sb_id sb" "stamped y St_error x" "rows s' = put_row x (rows s)" "calm s'"
    for e x y sb s'
    using that stamped_simps [OF that(3)] by auto
  have boot: "wp (boot_container sv sb img Sb_invalid_state (\<lambda>sb1. write_state sv
        (sb1\<lparr>sb_oci_runtime := sbs_oci_runtime sv, sb_parent_snapshot_id := Some (rs_id r)\<rparr>) St_running)) ?Q ?E u"
    if sb: "picked s ref sb" "sb_state sb \<in> {St_running, St_stopped}" "R s r"
      and u: "calm u" "rows u = rows s" "known u = known s" "gone (sb_runtime_id sb) s u"
        "sb_runtime_id sb = [] \<Longrightarrow> ctr u = ctr s" for sb r u img
  proof (rule boot_law [OF u(1), of sb sb])
    show row: "sandbox_row (rows u) (sb_id sb) = Some sb" using picked_row [OF sb(1)] u(2) by simp
    show live: "sb_state sb \<noteq> St_destroyed" using sb(2) by auto
    fix rid s' assume s': "calm s'" "rows s' = rows u" "booted rid u s'"
    have row': "sandbox_row (rows s') (sb_id sb) = Some sb" using row s'(2) by simp
    let ?x = "sb\<lparr>sb_runtime_id := rid, sb_oci_runtime := sbs_oci_runtime sv, sb_parent_snapshot_id := Some (rs_id r)\<rparr>"
    show "wp (write_state sv ?x St_running) ?Q ?E s'"
    proof (rule wp_weaken [OF write_calm [of _ _ sb]])
      fix x t assume "stamped ?x St_running x \<and> rows t = put_row x (rows s') \<and> ctr t = ctr s' \<and> known t = known s' \<and> calm t"
      then show "?Q x t"
        using restoredI [where sb = sb and rid = rid and r = r and x = x and s' = t and s = s and u = u] sb s' u
        by (auto simp: booted_def)
    qed (use row' live s' in auto)
  next
    fix e y x s' assume "stamped y St_error x" "sb_id y = sb_id sb" "calm s'" "rows s' = put_row x (rows u)"
    then show "?E e s'" using marked sb(1) u(2) by metis
  qed simp
  show ?thesis
    unfolding sandbox_restore_def assms(2) option.case
  proof (intro wp_rules wp_weaken [OF assms(3)] wp_weaken [OF pick_law])
    fix r t sb u
    assume t: "idle s t \<and> R s r" and u: "idle t u \<and> picked t ref sb"
      and st: "\<not> (sb_state sb \<noteq> St_running \<and> sb_state sb \<noteq> St_stopped)"
    have p: "picked s ref sb" "rows u = rows s" "ctr u = ctr s" "known u = known s" "calm u"
      using t u assms(1) by (auto simp: idle_def picked_def entails_def)
    show "wp (drop_container sv sb (boot_container sv sb (rs_runtime_ref r) Sb_invalid_state (\<lambda>sb1. write_state sv
        (sb1\<lparr>sb_oci_runtime := sbs_oci_runtime sv, sb_parent_snapshot_id := Some (rs_id r)\<rparr>) St_running))) ?Q ?E u"
    proof (rule drop_law [OF p(5), of sb sb])
      show "sandbox_row (rows u) (sb_id sb) = Some sb" using picked_row [OF p(1)] p(2) by simp
      fix v assume "calm v" "rows v = rows u" "known v = known u" "gone (sb_runtime_id sb) u v"
        "sb_runtime_id sb = [] \<Longrightarrow> ctr v = ctr u"
      then show "wp (boot_container sv sb (rs_runtime_ref r) Sb_invalid_state (\<lambda>sb1. write_state sv
        (sb1\<lparr>sb_oci_runtime := sbs_oci_runtime sv, sb_parent_snapshot_id := Some (rs_id r)\<rparr>) St_running)) ?Q ?E v"
        by (intro boot) (use p t st in \<open>auto simp: gone_def\<close>)
    next
      fix e x v assume "calm v" "stamped sb St_error x" "rows v = put_row x (rows u)"
      then show "?E e v" using marked [OF p(1) refl] p(2) by metis
    qed (use st in auto)
  qed (use assms(1) in \<open>auto simp: idle_def entails_def\<close>)
qed

end

end
