(* ===== verification/Auth.thy ===== *)
theory Auth
  imports Names
begin

text \<open>
  \<open>internal/auth\<close>: scopes, tokens, the token repository and its laws, the service
  (\<open>Create\<close>, \<open>List\<close>, \<open>Revoke\<close>, \<open>Authenticate\<close>), the bootstrap at start-up and the
  in-memory repository. SHA-256 and the random source are parameters of the service.
\<close>

section \<open>Scopes\<close>

type_synonym scope = string
type_synonym scopes = "scope list"

definition scope_admin :: scope where "scope_admin = ''admin''"
definition scope_all :: scope where "scope_all = ''*''"

definition known_scopes :: scopes where
  "known_scopes =
     [''sandboxes:read'', ''sandboxes:write'', ''exec'', ''files:read'', ''files:write'',
      ''snapshots:read'', ''snapshots:write'', ''audit:read'', ''admin'']"

definition valid_scope :: "scope \<Rightarrow> bool" where
  "valid_scope s \<longleftrightarrow> s = scope_all \<or> s \<in> set known_scopes"

definition scopes_has :: "scopes \<Rightarrow> scope \<Rightarrow> bool" where
  "scopes_has s want \<longleftrightarrow> list_ex (\<lambda>held. held = scope_all \<or> held = want) s"

definition scopes_missing :: "scopes \<Rightarrow> scopes \<Rightarrow> scopes" where
  "scopes_missing s want = filter (\<lambda>w. \<not> scopes_has s w) want"

definition scopes_covers :: "scopes \<Rightarrow> scopes \<Rightarrow> bool" where
  "scopes_covers s want \<longleftrightarrow> scopes_missing s want = []"

definition admin_capable :: "scopes \<Rightarrow> bool" where
  "admin_capable s \<longleftrightarrow> list_ex (\<lambda>held. held = scope_admin \<or> held = scope_all) s"

definition validate_scopes :: "scopes \<Rightarrow> goerr + unit" where
  "validate_scopes s =
     (if s = [] then Inl (wrapf Auth_invalid_scope)
      else if list_all valid_scope s then Inr () else Inl (wrapf Auth_invalid_scope))"

section \<open>Tokens\<close>

record token =
  tk_id :: string
  tk_name :: string
  tk_hash :: string
  tk_prefix :: string
  tk_scopes :: scopes
  tk_created_at :: time
  tk_expires_at :: "time option"
  tk_last_used_at :: "time option"
  tk_revoked_at :: "time option"

definition token_live :: "token \<Rightarrow> time \<Rightarrow> bool" where
  "token_live t now \<longleftrightarrow>
     (if tk_revoked_at t \<noteq> None then False
      else (case tk_expires_at t of None \<Rightarrow> True | Some e \<Rightarrow> now < e))"

definition prefix_of :: "string \<Rightarrow> string" where
  "prefix_of t = (if length t < 12 then t else take 12 t)"

section \<open>The repository\<close>

record 's token_repo =
  tkr_create :: "token \<Rightarrow> ('s, unit) op"
  tkr_get :: "string \<Rightarrow> ('s, token) op"
  tkr_get_by_hash :: "string \<Rightarrow> ('s, token) op"
  tkr_get_by_name :: "string \<Rightarrow> ('s, token) op"
  tkr_list :: "('s, token list) op"
  tkr_update :: "token \<Rightarrow> ('s, unit) op"
  tkr_touch :: "string \<Rightarrow> time \<Rightarrow> ('s, unit) op"

record 's settings_store =
  set_get :: "string \<Rightarrow> ('s, string option) op"
  set_set :: "string \<Rightarrow> string \<Rightarrow> ('s, unit) op"
  set_delete :: "string \<Rightarrow> ('s, unit) op"

section \<open>The service\<close>

record 's auth_service =
  aus_repo :: "'s token_repo"
  aus_now :: "('s, time) act"
  aus_new_id :: "('s, string) act"
  aus_generate :: "('s, string) op"
  aus_hash :: "string \<Rightarrow> string"

record token_options =
  tko_name :: string
  tko_scopes :: scopes
  tko_expires_in :: int

definition last_used_interval :: time where "last_used_interval = 60000000000"

definition auth_create ::
    "'s auth_service \<Rightarrow> token_options \<Rightarrow> scopes \<Rightarrow> ('s, token \<times> string) op" where
  "auth_create sv opts grantor =
     bindE (liftR (auth_validate_name (tko_name opts))) (\<lambda>_.
     bindE (liftR (validate_scopes (tko_scopes opts))) (\<lambda>_.
     if scopes_missing grantor (tko_scopes opts) \<noteq> [] then throwE (wrapf Auth_scope_escalation)
     else if tko_expires_in opts < 0 then throwE (wrapf Auth_invalid_name)
     else
       bindE (aus_generate sv) (\<lambda>plaintext.
       bindE (liftE (aus_now sv)) (\<lambda>now.
       bindE (liftE (aus_new_id sv)) (\<lambda>i.
       let tok = \<lparr>tk_id = i, tk_name = tko_name opts, tk_hash = aus_hash sv plaintext,
                  tk_prefix = prefix_of plaintext, tk_scopes = tko_scopes opts, tk_created_at = now,
                  tk_expires_at = (if tko_expires_in opts > 0 then Some (now + tko_expires_in opts) else None),
                  tk_last_used_at = None, tk_revoked_at = None\<rparr>
       in bindE (tkr_create (aus_repo sv) tok) (\<lambda>_. returnE (tok, plaintext)))))))"

definition auth_list :: "'s auth_service \<Rightarrow> ('s, token list) op" where
  "auth_list sv = tkr_list (aus_repo sv)"

definition other_admins :: "token \<Rightarrow> time \<Rightarrow> token list \<Rightarrow> token list" where
  "other_admins tok now others =
     filter (\<lambda>t. tk_id t \<noteq> tk_id tok \<and> token_live t now \<and> admin_capable (tk_scopes t)) others"

definition auth_revoke :: "'s auth_service \<Rightarrow> string \<Rightarrow> ('s, unit) op" where
  "auth_revoke sv i =
     bindE (tkr_get (aus_repo sv) i) (\<lambda>tok.
     if tk_revoked_at tok \<noteq> None then returnE ()
     else
       bindE (liftE (aus_now sv)) (\<lambda>now.
       bindE (if admin_capable (tk_scopes tok) then
                bindE (tkr_list (aus_repo sv)) (\<lambda>others.
                  if other_admins tok now others = [] then throwE (wrapf Auth_last_admin_token)
                  else returnE ())
              else returnE ()) (\<lambda>_.
       tkr_update (aus_repo sv) (tok\<lparr>tk_revoked_at := Some now\<rparr>))))"

text \<open>
  A rejection carries the token it was about, when one was found, so that the audit record
  can name it.
\<close>

type_synonym 's auth_act = "'s \<Rightarrow> ((goerr \<times> token option) + token) \<times> 's"

definition reject :: "sentinel list \<Rightarrow> token option \<Rightarrow> 's auth_act" where
  "reject ws t s = (Inl (Wrapped (map Sentinel ws), t), s)"

definition auth_authenticate :: "'s auth_service \<Rightarrow> string \<Rightarrow> 's auth_act" where
  "auth_authenticate sv plaintext s =
     (if plaintext = [] then (Inl (Sentinel Auth_unauthorized, None), s)
      else (case tkr_get_by_hash (aus_repo sv) (aus_hash sv plaintext) s of
        (Inl err, s1) \<Rightarrow>
          if errors_is err Auth_not_found then reject [Auth_unauthorized, Auth_unknown_token] None s1
          else (Inl (err, None), s1)
      | (Inr tok, s1) \<Rightarrow>
          (case aus_now sv s1 of (now, s2) \<Rightarrow>
             if tk_revoked_at tok \<noteq> None then reject [Auth_unauthorized, Auth_token_revoked] (Some tok) s2
             else if (case tk_expires_at tok of None \<Rightarrow> False | Some e \<Rightarrow> \<not> now < e)
             then reject [Auth_unauthorized, Auth_token_expired] (Some tok) s2
             else if (case tk_last_used_at tok of None \<Rightarrow> True | Some u \<Rightarrow> now - u \<ge> last_used_interval)
             then (case tkr_touch (aus_repo sv) (tk_id tok) now s2 of
                     (Inl err, s3) \<Rightarrow> (Inl (err, None), s3)
                   | (Inr _, s3) \<Rightarrow> (Inr tok, s3))
             else (Inr tok, s2))))"

section \<open>Bootstrap\<close>

definition bootstrap_name :: string where "bootstrap_name = ''bootstrap''"
definition setting_key :: string where "setting_key = ''auth_token_hash''"

definition bootstrap_token :: "string \<Rightarrow> string \<Rightarrow> string \<Rightarrow> time \<Rightarrow> token" where
  "bootstrap_token i h pre now =
     \<lparr>tk_id = i, tk_name = bootstrap_name, tk_hash = h, tk_prefix = pre, tk_scopes = [scope_all],
      tk_created_at = now, tk_expires_at = None, tk_last_used_at = None, tk_revoked_at = None\<rparr>"

definition migrate_settings_token :: "'s auth_service \<Rightarrow> 's settings_store \<Rightarrow> ('s, unit) op" where
  "migrate_settings_token sv settings =
     bindE (set_get settings setting_key) (\<lambda>found.
     case found of
       None \<Rightarrow> returnE ()
     | Some h \<Rightarrow>
         bindE (liftE (aus_new_id sv)) (\<lambda>i.
         bindE (liftE (aus_now sv)) (\<lambda>now.
         bindE (attempt (tkr_create (aus_repo sv) (bootstrap_token i h [] now))) (\<lambda>r.
         case r of
           Inl err \<Rightarrow> if errors_is err Auth_name_taken then set_delete settings setting_key
                      else throwE (Wrapped [err])
         | Inr _ \<Rightarrow> set_delete settings setting_key))))"

definition pin_bootstrap :: "'s auth_service \<Rightarrow> string \<Rightarrow> ('s, unit) op" where
  "pin_bootstrap sv configured =
     bindE (liftE (aus_now sv)) (\<lambda>now.
     bindE (attempt (tkr_get_by_name (aus_repo sv) bootstrap_name)) (\<lambda>r.
     case r of
       Inr existing \<Rightarrow>
         tkr_update (aus_repo sv)
           (existing\<lparr>tk_hash := aus_hash sv configured, tk_prefix := prefix_of configured,
                     tk_scopes := [scope_all], tk_expires_at := None\<rparr>)
     | Inl err \<Rightarrow>
         if errors_is err Auth_not_found then
           bindE (liftE (aus_new_id sv)) (\<lambda>i.
             tkr_create (aus_repo sv)
               (bootstrap_token i (aus_hash sv configured) (prefix_of configured) now))
         else throwE err))"

definition has_live_token :: "'s auth_service \<Rightarrow> ('s, bool) op" where
  "has_live_token sv =
     bindE (tkr_list (aus_repo sv)) (\<lambda>tokens.
     bindE (liftE (aus_now sv)) (\<lambda>now. returnE (list_ex (\<lambda>t. token_live t now) tokens)))"

text \<open>The result is the generated token, when one was generated.\<close>

definition auth_bootstrap ::
    "'s auth_service \<Rightarrow> 's settings_store \<Rightarrow> string \<Rightarrow> ('s, string option) op" where
  "auth_bootstrap sv settings configured =
     bindE (migrate_settings_token sv settings) (\<lambda>_.
     if configured \<noteq> [] then bindE (pin_bootstrap sv configured) (\<lambda>_. returnE None)
     else
       bindE (has_live_token sv) (\<lambda>live.
       if live then returnE None
       else
         bindE (aus_generate sv) (\<lambda>plaintext.
         bindE (liftE (aus_now sv)) (\<lambda>now.
         bindE (liftE (aus_new_id sv)) (\<lambda>i.
         bindE (tkr_create (aus_repo sv)
             (bootstrap_token i (aus_hash sv plaintext) (prefix_of plaintext) now)) (\<lambda>_.
         returnE (Some plaintext)))))))"

section \<open>The in-memory repository\<close>

fun memory_taken :: "token \<Rightarrow> token list \<Rightarrow> goerr option" where
  "memory_taken t [] = None"
| "memory_taken t (e # es) =
     (if tk_name e = tk_name t \<and> tk_revoked_at e = None then Some (Sentinel Auth_name_taken)
      else if tk_hash e = tk_hash t then Some (Sentinel Auth_hash_taken)
      else memory_taken t es)"

definition memory_create :: "token \<Rightarrow> (token list, unit) op" where
  "memory_create t ts =
     (case memory_taken t ts of Some e \<Rightarrow> (Inl e, ts) | None \<Rightarrow> (Inr (), ts @ [t]))"

definition memory_find :: "(token \<Rightarrow> bool) \<Rightarrow> (token list, token) op" where
  "memory_find P ts =
     (case find P ts of None \<Rightarrow> (Inl (Sentinel Auth_not_found), ts) | Some t \<Rightarrow> (Inr t, ts))"

definition memory_get :: "string \<Rightarrow> (token list, token) op" where
  "memory_get i = memory_find (\<lambda>t. tk_id t = i)"

definition memory_get_by_hash :: "string \<Rightarrow> (token list, token) op" where
  "memory_get_by_hash h = memory_find (\<lambda>t. tk_hash t = h)"

definition memory_get_by_name :: "string \<Rightarrow> (token list, token) op" where
  "memory_get_by_name n = memory_find (\<lambda>t. tk_name t = n \<and> tk_revoked_at t = None)"

definition memory_list :: "(token list, token list) op" where
  "memory_list ts = (Inr ts, ts)"

fun memory_replace :: "(token \<Rightarrow> token) \<Rightarrow> string \<Rightarrow> token list \<Rightarrow> token list option" where
  "memory_replace f i [] = None"
| "memory_replace f i (e # es) =
     (if tk_id e = i then Some (f e # es) else map_option ((#) e) (memory_replace f i es))"

definition memory_update :: "token \<Rightarrow> (token list, unit) op" where
  "memory_update t ts =
     (case memory_replace (\<lambda>_. t) (tk_id t) ts of
        None \<Rightarrow> (Inl (Sentinel Auth_not_found), ts) | Some ts' \<Rightarrow> (Inr (), ts'))"

definition memory_touch :: "string \<Rightarrow> time \<Rightarrow> (token list, unit) op" where
  "memory_touch i at ts =
     (case memory_replace (\<lambda>t. t\<lparr>tk_last_used_at := Some at\<rparr>) i ts of
        None \<Rightarrow> (Inl (Sentinel Auth_not_found), ts) | Some ts' \<Rightarrow> (Inr (), ts'))"

definition memory_tokens :: "token list token_repo" where
  "memory_tokens =
     \<lparr>tkr_create = memory_create, tkr_get = memory_get, tkr_get_by_hash = memory_get_by_hash,
      tkr_get_by_name = memory_get_by_name, tkr_list = memory_list, tkr_update = memory_update,
      tkr_touch = memory_touch\<rparr>"

section \<open>Scope lemmas\<close>

lemma scopes_has_iff: "scopes_has s w \<longleftrightarrow> scope_all \<in> set s \<or> w \<in> set s"
  by (auto simp: scopes_has_def list_ex_iff)

lemma scopes_covers_iff: "scopes_covers s want \<longleftrightarrow> (\<forall>w. scopes_has want w \<longrightarrow> scopes_has s w)"
  by (auto simp: scopes_covers_def scopes_missing_def filter_empty_conv scopes_has_iff)

lemma admin_capable_iff: "admin_capable s \<longleftrightarrow> scopes_has s scope_admin"
  by (auto simp: admin_capable_def scopes_has_iff list_ex_iff)

section \<open>Laws of the repository\<close>

definition token_row :: "token list \<Rightarrow> string \<Rightarrow> token option" where
  "token_row ts i = find (\<lambda>t. tk_id t = i) ts"

text \<open>An update writes every column but \<open>created_at\<close>; an implementation may write that too.\<close>

definition updated_token :: "token \<Rightarrow> token \<Rightarrow> bool" where
  "updated_token t y \<longleftrightarrow> (\<exists>c. y = t\<lparr>tk_created_at := c\<rparr>)"

definition wrote_token :: "token \<Rightarrow> token list \<Rightarrow> token list \<Rightarrow> bool" where
  "wrote_token t ts ts' \<longleftrightarrow>
     (\<exists>y\<in>set ts'. updated_token t y) \<and>
     (\<forall>y\<in>set ts. tk_id y \<noteq> tk_id t \<longrightarrow> y \<in> set ts') \<and>
     (\<forall>y\<in>set ts'. y \<in> set ts \<or> updated_token t y)"

text \<open>A touch changes nothing but when a token was last used.\<close>

definition unused :: "token \<Rightarrow> token" where
  "unused t = t\<lparr>tk_last_used_at := None\<rparr>"

locale token_store =
  fixes repo :: "'s token_repo"
    and toks :: "'s \<Rightarrow> token list"
  assumes tk_create_law: "wp (tkr_create repo t)
      (\<lambda>_ s'. toks s' = toks s @ [t]) (\<lambda>_ s'. toks s' = toks s) s"
    and tk_get_law: "wp (tkr_get repo i)
      (\<lambda>t s'. toks s' = toks s \<and> t \<in> set (toks s) \<and> tk_id t = i) (\<lambda>_ s'. toks s' = toks s) s"
    and tk_get_by_hash_law: "wp (tkr_get_by_hash repo h)
      (\<lambda>t s'. toks s' = toks s \<and> t \<in> set (toks s) \<and> tk_hash t = h) (\<lambda>_ s'. toks s' = toks s) s"
    and tk_get_by_name_law: "wp (tkr_get_by_name repo n)
      (\<lambda>t s'. toks s' = toks s \<and> t \<in> set (toks s) \<and> tk_name t = n \<and> tk_revoked_at t = None)
      (\<lambda>_ s'. toks s' = toks s) s"
    and tk_list_law: "wp (tkr_list repo)
      (\<lambda>ts s'. toks s' = toks s \<and> set ts = set (toks s)) (\<lambda>_ s'. toks s' = toks s) s"
    and tk_update_law: "wp (tkr_update repo t)
      (\<lambda>_ s'. wrote_token t (toks s) (toks s')) (\<lambda>_ s'. toks s' = toks s) s"
    and tk_touch_law: "wp (tkr_touch repo i at)
      (\<lambda>_ s'. map unused (toks s') = map unused (toks s)) (\<lambda>_ s'. toks s' = toks s) s"

text \<open>
  What a successful revocation of \<open>i\<close> did: nothing to a token already revoked; otherwise the
  row is stamped at some \<open>n\<close>, and if it could administer, another live token still can.
\<close>

definition revocation :: "time \<Rightarrow> string \<Rightarrow> token \<Rightarrow> token list \<Rightarrow> token list \<Rightarrow> bool" where
  "revocation since i t ts ts' \<longleftrightarrow>
     tk_id t = i \<and>
     (tk_revoked_at t \<noteq> None \<and> ts' = ts \<or>
      tk_revoked_at t = None \<and>
      (\<exists>n \<ge> since. wrote_token (t\<lparr>tk_revoked_at := Some n\<rparr>) ts ts' \<and>
         (admin_capable (tk_scopes t) \<longrightarrow>
            (\<exists>a\<in>set ts'. tk_id a \<noteq> i \<and> token_live a n \<and> admin_capable (tk_scopes a)))))"

lemma revocation_keep:
  assumes "wrote_token (t\<lparr>tk_revoked_at := Some n\<rparr>) ts ts'" "t \<in> set ts"
    and "tk_revoked_at t = None" "since \<le> n" "set us = set ts"
    and "admin_capable (tk_scopes t) \<Longrightarrow> other_admins t n us \<noteq> []"
  shows "\<exists>u\<in>set ts. revocation since (tk_id t) u ts ts'"
  using assms unfolding revocation_def other_admins_def
  by (intro bexI [of _ t]) (auto simp: filter_empty_conv wrote_token_def)

lemma revocation_done:
  assumes "t \<in> set ts" "tk_revoked_at t \<noteq> None"
  shows "\<exists>u\<in>set ts. revocation since (tk_id t) u ts ts"
  using assms unfolding revocation_def by blast

locale auth_env = token_store "aus_repo sv" toks
  for sv :: "'s auth_service" and toks :: "'s \<Rightarrow> token list" +
  fixes clock :: "'s \<Rightarrow> time"
  assumes auth_now_law: "aus_now sv s = (n, s') \<Longrightarrow> toks s' = toks s \<and> clock s \<le> n \<and> clock s' = n"
    and auth_new_id_toks: "leaves toks (liftE (aus_new_id sv))"
    and auth_generate_toks: "leaves toks (aus_generate sv)"
    and auth_get_clock: "leaves clock (tkr_get (aus_repo sv) i)"
    and auth_get_by_hash_clock: "leaves clock (tkr_get_by_hash (aus_repo sv) i)"
begin

lemma wp_now [wp_rules]:
  assumes "\<And>n s'. toks s' = toks s \<Longrightarrow> clock s \<le> n \<Longrightarrow> clock s' = n \<Longrightarrow> Q n s'"
  shows "wp (liftE (aus_now sv)) Q E s"
  using assms by (intro wp_liftE) (auto dest: auth_now_law)

lemmas auth_rules =
  wp_weaken [OF tk_create_law] wp_framed [OF tk_get_law auth_get_clock] wp_weaken [OF tk_list_law]
  wp_weaken [OF tk_update_law] wp_weaken [OF tk_get_by_name_law]
  wp_liftE_leaves [OF auth_new_id_toks] wp_leaves [OF auth_generate_toks]

text \<open>A token in the store that the given hash opens, with every scope and no expiry.\<close>

definition master_token :: "'s \<Rightarrow> string \<Rightarrow> bool" where
  "master_token s h \<longleftrightarrow>
     (\<exists>t\<in>set (toks s). tk_hash t = h \<and> tk_scopes t = [scope_all] \<and> (\<forall>n. token_live t n))"

lemma create_law:
  "wp (auth_create sv opts grantor)
     (\<lambda>(t, plain) s'. toks s' = toks s @ [t] \<and> scopes_covers grantor (tk_scopes t) \<and>
        tk_scopes t = tko_scopes opts \<and> list_all valid_scope (tk_scopes t) \<and> tk_scopes t \<noteq> [] \<and>
        tk_hash t = aus_hash sv plain \<and> tk_revoked_at t = None \<and>
        tk_expires_at t = (if tko_expires_in opts > 0 then Some (tk_created_at t + tko_expires_in opts) else None))
     (\<lambda>_ s'. toks s' = toks s) s"
  unfolding auth_create_def
  by (intro wp_rules auth_rules) (auto simp: scopes_covers_def validate_scopes_def split: if_splits)

text \<open>Revoking leaves, at the moment it is recorded, an administrator among the others.\<close>

lemma revoke_law:
  "wp (auth_revoke sv i)
     (\<lambda>_ s'. \<exists>t\<in>set (toks s). revocation (clock s) i t (toks s) (toks s')) (\<lambda>_ s'. toks s' = toks s) s"
  unfolding auth_revoke_def
  by (intro wp_rules auth_rules) (auto intro: revocation_done revocation_keep)

text \<open>A wildcard token without expiry is live forever once it is not revoked.\<close>

lemma master_new: "toks s' = ts @ [bootstrap_token i h p n] \<Longrightarrow> master_token s' h"
  by (auto simp: master_token_def bootstrap_token_def token_live_def)

lemma master_pinned:
  assumes "wrote_token (t\<lparr>tk_hash := h, tk_prefix := p, tk_scopes := [scope_all], tk_expires_at := None\<rparr>)
      ts (toks s')" "tk_revoked_at t = None"
  shows "master_token s' h"
proof -
  obtain y where y: "y \<in> set (toks s')"
    "updated_token (t\<lparr>tk_hash := h, tk_prefix := p, tk_scopes := [scope_all], tk_expires_at := None\<rparr>) y"
    using assms(1) by (auto simp: wrote_token_def)
  then show ?thesis
    using assms(2) unfolding master_token_def
    by (intro bexI [of _ y]) (auto simp: updated_token_def token_live_def)
qed

lemma pin_law:
  "wp (pin_bootstrap sv c) (\<lambda>_ s'. master_token s' (aus_hash sv c)) (\<lambda>_ s'. toks s' = toks s) s"
  unfolding pin_bootstrap_def
  by (intro wp_rules auth_rules)
    (auto intro: master_pinned master_new)

lemma authenticate_law:
  assumes "auth_authenticate sv plain s = (Inr t, s')"
  shows "\<exists>n \<ge> clock s. t \<in> set (toks s) \<and> tk_hash t = aus_hash sv plain \<and> token_live t n \<and> plain \<noteq> [] \<and>
    map unused (toks s') = map unused (toks s)"
proof -
  have p: "plain \<noteq> []" using assms by (auto simp: auth_authenticate_def)
  obtain s1 where g: "tkr_get_by_hash (aus_repo sv) (aus_hash sv plain) s = (Inr t, s1)"
    using assms p by (auto simp: auth_authenticate_def reject_def split: prod.splits sum.splits if_splits)
  obtain n s2 where n: "aus_now sv s1 = (n, s2)" by fastforce
  have l: "token_live t n" and s: "s' = s2 \<or> tkr_touch (aus_repo sv) (tk_id t) n s2 = (Inr (), s')"
    using assms p g n
    by (auto simp: auth_authenticate_def reject_def token_live_def split: prod.splits sum.splits if_splits
        option.splits)
  have "toks s1 = toks s" "t \<in> set (toks s)" "tk_hash t = aus_hash sv plain" "clock s1 = clock s"
    using wp_Inr [OF tk_get_by_hash_law g] leavesD [OF auth_get_by_hash_clock g] by auto
  moreover have "toks s2 = toks s1" "clock s1 \<le> n" using auth_now_law [OF n] by auto
  moreover have "map unused (toks s') = map unused (toks s2)"
    using s wp_Inr [OF tk_touch_law] by auto
  ultimately show ?thesis using p l by auto
qed

end

locale auth_boot = auth_env sv toks clock
  for sv :: "'s auth_service" and toks :: "'s \<Rightarrow> token list" and clock :: "'s \<Rightarrow> time" +
  fixes settings :: "'s settings_store"
  assumes boot_get_toks: "leaves (\<lambda>s. (toks s, clock s)) (set_get settings k)"
    and boot_delete_toks: "leaves (\<lambda>s. (toks s, clock s)) (set_delete settings k)"
    and boot_new_id_clock: "leaves clock (liftE (aus_new_id sv))"
    and boot_create_clock: "leaves clock (tkr_create (aus_repo sv) t)"
    and boot_list_clock: "leaves clock (tkr_list (aus_repo sv))"
begin

lemmas boot_rules =
  wp_leaves [OF boot_get_toks] wp_leaves [OF boot_delete_toks]
  wp_framed [OF tk_create_law boot_create_clock] wp_framed [OF tk_list_law boot_list_clock]

lemma migrate_law: "wp (migrate_settings_token sv settings)
    (\<lambda>_ s'. clock s \<le> clock s') (\<lambda>_ s'. True) s"
  unfolding migrate_settings_token_def
  by (intro wp_rules boot_rules wp_liftE_leaves [OF boot_new_id_clock]) auto

lemma live_law: "wp (has_live_token sv)
    (\<lambda>live s'. clock s \<le> clock s' \<and> (live \<longrightarrow> (\<exists>t\<in>set (toks s'). token_live t (clock s')))) (\<lambda>_ _. True) s"
  unfolding has_live_token_def
  by (intro wp_rules boot_rules) (auto simp: list_ex_iff)

text \<open>After a successful start there is a token to get in with.\<close>

lemma bootstrap_law:
  "wp (auth_bootstrap sv settings c)
     (\<lambda>r s'. case r of
        Some p \<Rightarrow> c = [] \<and> master_token s' (aus_hash sv p)
      | None \<Rightarrow> if c \<noteq> [] then master_token s' (aus_hash sv c)
                else \<exists>t\<in>set (toks s'). \<exists>n \<ge> clock s. token_live t n)
     (\<lambda>_ _. True) s"
  unfolding auth_bootstrap_def
  by (intro wp_rules wp_weaken [OF migrate_law] wp_weaken [OF pin_law] wp_weaken [OF live_law]
      auth_rules) (auto intro: master_new order_trans)

end

section \<open>The in-memory repository keeps the laws\<close>

lemma memory_replace_wrote:
  "memory_replace (\<lambda>_. t) (tk_id t) ts = Some ts' \<Longrightarrow> wrote_token t ts ts'"
proof (induction ts arbitrary: ts')
  case (Cons e es)
  have self: "updated_token t t" by (auto simp: updated_token_def intro: exI [of _ "tk_created_at t"])
  show ?case
  proof (cases "tk_id e = tk_id t")
    case True
    then show ?thesis using Cons.prems self by (auto simp: wrote_token_def)
  next
    case False
    then show ?thesis using Cons by (auto simp: wrote_token_def)
  qed
qed simp

lemma memory_replace_unused:
  "memory_replace (\<lambda>t. t\<lparr>tk_last_used_at := Some at\<rparr>) i ts = Some ts' \<Longrightarrow> map unused ts' = map unused ts"
  by (induction ts arbitrary: ts') (auto simp: unused_def split: if_splits)

interpretation memory: token_store memory_tokens "\<lambda>ts. ts"
  by unfold_locales
    (auto intro!: wpI simp: memory_tokens_def memory_create_def memory_get_def memory_get_by_hash_def
      memory_get_by_name_def memory_list_def memory_update_def memory_touch_def memory_find_def
      memory_replace_wrote memory_replace_unused dest: find_SomeD split: option.splits)

end
