(* ===== verification/Audit_Log.thy ===== *)
theory Audit_Log
  imports Prelude
begin

text \<open>
  \<open>internal/audit\<close>: the actions, the event and its filter, the repository and its laws
  (a list is a function of the stored events), the service (\<open>Record\<close>, \<open>List\<close>, \<open>Prune\<close>) and
  the in-memory repository. A value in an event's details is a
  string or a list of strings: nothing else is ever put there.
\<close>

section \<open>Events\<close>

type_synonym action = string

definition known_actions :: "action list" where
  "known_actions =
     [''sandbox.create'', ''sandbox.fork'', ''sandbox.start'', ''sandbox.stop'', ''sandbox.destroy'',
      ''sandbox.restore'', ''exec.create'', ''snapshot.create'', ''snapshot.delete'', ''file.read'',
      ''file.write'', ''archive.download'', ''archive.upload'', ''token.create'', ''token.revoke'',
      ''auth.denied'']"

definition valid_action :: "action \<Rightarrow> bool" where
  "valid_action a \<longleftrightarrow> a \<in> set known_actions"

datatype detail = Text string | Texts "string list"

record event =
  ev_id :: string
  ev_timestamp :: time
  ev_actor_token_id :: string
  ev_actor_name :: string
  ev_action :: action
  ev_resource_type :: string
  ev_resource_id :: string
  ev_request_id :: string
  ev_status :: int
  ev_remote_addr :: string
  ev_details :: "(string \<times> detail) list"

text \<open>The zero of \<open>time\<close> is \<open>time.Time\<close>'s zero: no bound.\<close>

record event_filter =
  ef_actor :: string
  ef_action :: action
  ef_resource_type :: string
  ef_resource_id :: string
  ef_since :: time
  ef_until :: time
  ef_limit :: int
  ef_cursor :: string

section \<open>The repository\<close>

record 's event_repo =
  evr_create :: "event \<Rightarrow> ('s, unit) op"
  evr_list :: "event_filter \<Rightarrow> ('s, event list) op"
  evr_delete_older :: "time \<Rightarrow> ('s, int) op"
  evr_delete_beyond :: "int \<Rightarrow> ('s, int) op"

definition event_matches :: "event_filter \<Rightarrow> event \<Rightarrow> bool" where
  "event_matches f e \<longleftrightarrow>
     (ef_actor f \<noteq> [] \<longrightarrow> ev_actor_token_id e = ef_actor f) \<and>
     (ef_action f \<noteq> [] \<longrightarrow> ev_action e = ef_action f) \<and>
     (ef_resource_type f \<noteq> [] \<longrightarrow> ev_resource_type e = ef_resource_type f) \<and>
     (ef_resource_id f \<noteq> [] \<longrightarrow> ev_resource_id e = ef_resource_id f) \<and>
     (ef_since f \<noteq> 0 \<longrightarrow> ef_since f \<le> ev_timestamp e) \<and>
     (ef_until f \<noteq> 0 \<longrightarrow> ev_timestamp e < ef_until f) \<and>
     (ef_cursor f \<noteq> [] \<longrightarrow> ev_id e < ef_cursor f)"

definition newest_first :: "event list \<Rightarrow> event list" where
  "newest_first es = rev (sort_key ev_id es)"

definition limit_to :: "int \<Rightarrow> 'a list \<Rightarrow> 'a list" where
  "limit_to n xs = (if n > 0 then take (nat n) xs else xs)"

definition audit_query :: "event_filter \<Rightarrow> event list \<Rightarrow> event list" where
  "audit_query f es = limit_to (ef_limit f) (newest_first (filter (event_matches f) es))"

definition newest_ids :: "int \<Rightarrow> event list \<Rightarrow> string set" where
  "newest_ids keep es = ev_id ` set (take (nat keep) (newest_first es))"

definition expire :: "time \<Rightarrow> event list \<Rightarrow> event list" where
  "expire cutoff es = filter (\<lambda>e. \<not> ev_timestamp e < cutoff) es"

definition trim_to :: "int \<Rightarrow> event list \<Rightarrow> event list" where
  "trim_to keep es = filter (\<lambda>e. ev_id e \<in> newest_ids keep es) es"

locale event_store =
  fixes repo :: "'s event_repo"
    and evs :: "'s \<Rightarrow> event list"
  assumes ev_create_law: "wp (evr_create repo e)
      (\<lambda>_ s'. evs s' = evs s @ [e]) (\<lambda>_ s'. evs s' = evs s) s"
    and ev_list_law: "wp (evr_list repo f)
      (\<lambda>r s'. evs s' = evs s \<and> r = audit_query f (evs s)) (\<lambda>_ s'. evs s' = evs s) s"
    and ev_older_law: "wp (evr_delete_older repo cutoff)
      (\<lambda>n s'. evs s' = expire cutoff (evs s) \<and> n = int (length (evs s)) - int (length (evs s')))
      (\<lambda>_ s'. evs s' = evs s) s"
    and ev_beyond_law: "0 < keep \<Longrightarrow> wp (evr_delete_beyond repo keep)
      (\<lambda>n s'. evs s' = trim_to keep (evs s) \<and>
         n = int (length (evs s)) - int (length (evs s')))
      (\<lambda>_ s'. evs s' = evs s) s"

section \<open>The service\<close>

record retention_policy =
  rp_max_age :: int
  rp_max_events :: int

record 's audit_service =
  ads_repo :: "'s event_repo"
  ads_retention :: retention_policy
  ads_now :: "('s, time) act"
  ads_new_id :: "('s, string) act"

definition audit_record :: "'s audit_service \<Rightarrow> event \<Rightarrow> ('s, unit) op" where
  "audit_record sv e =
     (if \<not> valid_action (ev_action e) then throwE Opaque
      else
        bindE (if ev_id e = [] then liftE (ads_new_id sv) else returnE (ev_id e)) (\<lambda>i.
        bindE (if ev_timestamp e = 0 then liftE (ads_now sv) else returnE (ev_timestamp e)) (\<lambda>t.
        evr_create (ads_repo sv) (e\<lparr>ev_id := i, ev_timestamp := t\<rparr>))))"

definition audit_list :: "'s audit_service \<Rightarrow> event_filter \<Rightarrow> ('s, event list) op" where
  "audit_list sv f = evr_list (ads_repo sv) f"

definition audit_prune :: "'s audit_service \<Rightarrow> ('s, int) op" where
  "audit_prune sv =
     bindE (if rp_max_age (ads_retention sv) > 0 then
              bindE (liftE (ads_now sv)) (\<lambda>now.
                evr_delete_older (ads_repo sv) (now - rp_max_age (ads_retention sv)))
            else returnE 0) (\<lambda>aged.
     bindE (if rp_max_events (ads_retention sv) > 0 then
              evr_delete_beyond (ads_repo sv) (rp_max_events (ads_retention sv))
            else returnE 0) (\<lambda>beyond. returnE (aged + beyond)))"

section \<open>The in-memory repository\<close>

definition memory_event_create :: "event \<Rightarrow> (event list, unit) op" where
  "memory_event_create e es = (Inr (), es @ [e])"

text \<open>The loop's \<open>continue\<close>s, one per condition.\<close>

definition memory_keeps :: "event_filter \<Rightarrow> event \<Rightarrow> bool" where
  "memory_keeps f e =
     (if ef_actor f \<noteq> [] \<and> ev_actor_token_id e \<noteq> ef_actor f then False
      else if ef_action f \<noteq> [] \<and> ev_action e \<noteq> ef_action f then False
      else if ef_resource_type f \<noteq> [] \<and> ev_resource_type e \<noteq> ef_resource_type f then False
      else if ef_resource_id f \<noteq> [] \<and> ev_resource_id e \<noteq> ef_resource_id f then False
      else if ef_since f \<noteq> 0 \<and> ev_timestamp e < ef_since f then False
      else if ef_until f \<noteq> 0 \<and> \<not> ev_timestamp e < ef_until f then False
      else if ef_cursor f \<noteq> [] \<and> ev_id e \<ge> ef_cursor f then False
      else True)"

definition memory_event_list :: "event_filter \<Rightarrow> (event list, event list) op" where
  "memory_event_list f es =
     (let out = newest_first (filter (memory_keeps f) es)
      in (Inr (if ef_limit f > 0 \<and> int (length out) > ef_limit f then take (nat (ef_limit f)) out else out), es))"

definition memory_delete_older :: "time \<Rightarrow> (event list, int) op" where
  "memory_delete_older cutoff es =
     (Inr (int (length (filter (\<lambda>e. ev_timestamp e < cutoff) es))),
      filter (\<lambda>e. \<not> ev_timestamp e < cutoff) es)"

definition memory_delete_beyond :: "int \<Rightarrow> (event list, int) op" where
  "memory_delete_beyond keep es =
     (if int (length es) \<le> keep then (Inr 0, es)
      else
        let keep_ids = map ev_id (take (nat keep) (newest_first es));
            kept = filter (\<lambda>e. ev_id e \<in> set keep_ids) es
        in (Inr (int (length es) - int (length kept)), kept))"

definition memory_events :: "event list event_repo" where
  "memory_events =
     \<lparr>evr_create = memory_event_create, evr_list = memory_event_list,
      evr_delete_older = memory_delete_older, evr_delete_beyond = memory_delete_beyond\<rparr>"

lemma memory_keeps_matches: "memory_keeps f e = event_matches f e"
  by (auto simp: memory_keeps_def event_matches_def)

lemma newest_first_set [simp]: "set (newest_first es) = set es" "length (newest_first es) = length es"
  by (simp_all add: newest_first_def)

interpretation memory_log: event_store memory_events "\<lambda>es. es"
proof unfold_locales
  fix f es
  show "wp (evr_list memory_events f) (\<lambda>r s'. s' = es \<and> r = audit_query f es) (\<lambda>_ s'. s' = es) es"
    by (rule wpI)
      (auto simp: memory_events_def memory_event_list_def audit_query_def limit_to_def Let_def
        memory_keeps_matches [abs_def] newest_first_def)
next
  fix keep :: int and es
  assume "0 < keep"
  show "wp (evr_delete_beyond memory_events keep)
      (\<lambda>n s'. s' = trim_to keep es \<and> n = int (length es) - int (length s')) (\<lambda>_ s'. s' = es) es"
    by (rule wpI)
      (auto simp: memory_events_def memory_delete_beyond_def trim_to_def newest_ids_def Let_def
        filter_id_conv split: if_splits)
next
  fix cutoff es
  show "wp (evr_delete_older memory_events cutoff)
      (\<lambda>n s'. s' = expire cutoff es \<and> n = int (length es) - int (length s')) (\<lambda>_ s'. s' = es) es"
    using sum_length_filter_compl [of "\<lambda>e. ev_timestamp e < cutoff" es]
    by (intro wpI) (auto simp: memory_events_def memory_delete_older_def expire_def)
qed (auto intro!: wpI simp: memory_events_def memory_event_create_def)

section \<open>What pruning leaves\<close>

text \<open>
  \<open>retained\<close>: nothing older than the cutoff, at most the allowed number, and no event that
  is newer than one that stayed was removed for the count.
\<close>

lemma newest_count:
  assumes "distinct (map ev_id es)" "0 < keep"
  shows "int (length (trim_to keep es)) = min keep (int (length es))"
proof -
  let ?t = "take (nat keep) (newest_first es)"
  have d: "distinct (map ev_id (newest_first es))"
    using assms(1) by (simp add: newest_first_def rev_map [symmetric] distinct_map)
  have inj: "inj_on ev_id (set es)" using assms(1) by (simp add: distinct_map)
  have "set (filter (\<lambda>e. ev_id e \<in> newest_ids keep es) es) = set ?t"
    using inj set_take_subset [of "nat keep" "newest_first es"]
    by (auto simp: newest_ids_def inj_on_def)
  moreover have "distinct (filter (\<lambda>e. ev_id e \<in> newest_ids keep es) es)" "distinct ?t"
    using assms(1) d by (simp_all add: distinct_map)
  ultimately have "length (filter (\<lambda>e. ev_id e \<in> newest_ids keep es) es) = length ?t"
    by (metis distinct_card)
  then show ?thesis using assms(2) by (simp add: trim_to_def)
qed

lemma expire_set: "e \<in> set (expire c es) \<longleftrightarrow> e \<in> set es \<and> c \<le> ev_timestamp e"
  by (auto simp: expire_def)

lemma trim_to_set: "e \<in> set (trim_to k es) \<Longrightarrow> e \<in> set es"
  by (simp add: trim_to_def)

lemma expire_distinct: "distinct (map ev_id es) \<Longrightarrow> distinct (map ev_id (expire c es))"
  unfolding expire_def by (rule distinct_map_filter)

lemma newest_order:
  assumes "e \<in> set es" "ev_id e \<in> newest_ids keep es" "g \<in> set es" "ev_id g \<notin> newest_ids keep es"
  shows "ev_id g < ev_id e"
proof -
  let ?n = "newest_first es" and ?k = "nat keep"
  obtain x where x: "x \<in> set (take ?k ?n)" "ev_id x = ev_id e"
    using assms(2) by (auto simp: newest_ids_def)
  have g: "g \<in> set (drop ?k ?n)"
    using assms(3,4) append_take_drop_id [of ?k ?n] set_append [of "take ?k ?n" "drop ?k ?n"]
    by (auto simp: newest_ids_def)
  have "sorted_wrt (\<lambda>a b. ev_id b \<le> ev_id a) ?n"
    unfolding newest_first_def sorted_wrt_rev
    using sorted_sort_key [of ev_id es] by (simp add: sorted_map)
  then have "sorted_wrt (\<lambda>a b. ev_id b \<le> ev_id a) (take ?k ?n @ drop ?k ?n)" by simp
  then have "ev_id g \<le> ev_id x" using x(1) g unfolding sorted_wrt_append by blast
  moreover have "ev_id g \<noteq> ev_id e" using assms(2,4) by auto
  ultimately show ?thesis using x(2) by simp
qed

text \<open>The environment of the service, and its laws.\<close>

locale audit_env = event_store "ads_repo sv" evs
  for sv :: "'s audit_service" and evs :: "'s \<Rightarrow> event list" +
  fixes clock :: "'s \<Rightarrow> time"
  assumes audit_now_law: "ads_now sv s = (n, s') \<Longrightarrow> evs s' = evs s \<and> clock s \<le> n"
    and audit_new_id_evs: "leaves evs (liftE (ads_new_id sv))"
begin

lemma wp_audit_now [wp_rules]:
  assumes "\<And>n s'. evs s' = evs s \<Longrightarrow> clock s \<le> n \<Longrightarrow> Q n s'"
  shows "wp (liftE (ads_now sv)) Q E s"
  using assms by (intro wp_liftE) (auto dest: audit_now_law)

text \<open>Only a known action is recorded, once, with everything but the id and time as given.\<close>

lemma record_law: "wp (audit_record sv e)
    (\<lambda>_ s'. valid_action (ev_action e) \<and>
       (\<exists>i t. evs s' = evs s @ [e\<lparr>ev_id := i, ev_timestamp := t\<rparr>] \<and>
          (ev_id e \<noteq> [] \<longrightarrow> i = ev_id e) \<and> (ev_timestamp e \<noteq> 0 \<longrightarrow> t = ev_timestamp e)))
    (\<lambda>_ s'. evs s' = evs s) s"
  unfolding audit_record_def
  by (intro wp_rules wp_weaken [OF ev_create_law] wp_liftE_leaves [OF audit_new_id_evs]) auto

lemma prune_law:
  assumes "distinct (map ev_id (evs s))"
  shows "wp (audit_prune sv)
    (\<lambda>n s'. set (evs s') \<subseteq> set (evs s) \<and> n = int (length (evs s)) - int (length (evs s')) \<and>
       (rp_max_age (ads_retention sv) > 0 \<longrightarrow>
          (\<forall>e\<in>set (evs s'). clock s - rp_max_age (ads_retention sv) \<le> ev_timestamp e)) \<and>
       (rp_max_events (ads_retention sv) > 0 \<longrightarrow>
          int (length (evs s')) \<le> rp_max_events (ads_retention sv)))
    (\<lambda>_ s'. set (evs s') \<subseteq> set (evs s)) s"
  unfolding audit_prune_def
  by (intro wp_rules wp_weaken [OF ev_older_law] wp_weaken [OF ev_beyond_law])
    (use assms in \<open>auto simp: newest_count expire_distinct expire_set dest!: trim_to_set\<close>)

end

end
