(* ===== verification/Exec_Log.thy ===== *)
theory Exec_Log
  imports Prelude
begin

text \<open>
  The exec log (\<open>internal/exec/log.go\<close>): an append-only file of frames, one byte of
  stream, four bytes of big-endian length, the payload. The writer (\<open>NewLogWriter\<close>,
  \<open>repairTornTail\<close>, \<open>Append\<close>) and the reader (\<open>ReadRecords\<close>) on the bytes of the file.
  The disk may accept only the first bytes of a write: the outcomes of the writes to come
  are part of its state.
\<close>

section \<open>Frames\<close>

type_synonym log_stream = byte

definition log_stdout :: log_stream where "log_stdout = 1"
definition log_stderr :: log_stream where "log_stderr = 2"
definition log_gap :: log_stream where "log_gap = 3"

definition max_frame_payload :: nat where "max_frame_payload = 65536"
definition header_size :: nat where "header_size = 5"

definition be32 :: "nat \<Rightarrow> byte list" where
  "be32 n = [of_nat (n div 16777216), of_nat (n div 65536), of_nat (n div 256), of_nat n]"

fun un_be32 :: "byte list \<Rightarrow> nat" where
  "un_be32 [a, b, c, d] = unat a * 16777216 + unat b * 65536 + unat c * 256 + unat d"
| "un_be32 _ = 0"

text \<open>Lengths are evaluated as integers.\<close>

lemma byte_of_quotient: "(word_of_int (int n div numeral k) :: byte) = of_nat (n div numeral k)"
  by (metis of_int_of_nat_eq of_nat_numeral zdiv_int)

lemma frame_length_code [code]:
  "be32 n = (let i = int n in map word_of_int [i div 16777216, i div 65536, i div 256, i])"
  "un_be32 [a, b, c, d] = nat (uint a * 16777216 + uint b * 65536 + uint c * 256 + uint d)"
  "un_be32 [] = 0" "un_be32 [a] = 0" "un_be32 [a, b] = 0" "un_be32 [a, b, c] = 0" "un_be32 (a # b # c # d # e # xs) = 0"
  by (simp_all add: be32_def byte_of_quotient nat_add_distrib nat_mult_distrib)

lemma max_frame_payload_code [code_unfold]: "max_frame_payload < n \<longleftrightarrow> 65536 < int n"
  by (simp add: max_frame_payload_def)

definition encode_frame :: "log_stream \<Rightarrow> byte list \<Rightarrow> byte list" where
  "encode_frame st d = st # be32 (length d) @ d"

record log_record =
  lr_stream :: log_stream
  lr_data :: "byte list"
  lr_offset :: int

section \<open>The writer\<close>

text \<open>\<open>None\<close>: the next write takes every byte; \<open>Some k\<close>: it takes \<open>k\<close> bytes and fails.\<close>

record disk =
  dk_file :: "byte list"
  dk_writes :: "nat option list"

record log_writer =
  lw_offset :: int
  lw_max_bytes :: int
  lw_truncated :: bool
  lw_failed :: "goerr option"

text \<open>
  The walk of \<open>repairTornTail\<close>: what is left to read, and the offset reached, which is
  always the last boundary.
\<close>

function repair_scan :: "byte list \<Rightarrow> int \<Rightarrow> int \<Rightarrow> int" where
  "repair_scan rest offset len =
     (if length rest < header_size then offset
      else
        let n = un_be32 (take 4 (drop 1 rest)) in
        if n > max_frame_payload then offset
        else
          let next = offset + int header_size + int n in
          if next > len then offset
          else repair_scan (drop (header_size + n) rest) next len)"
  by pat_completeness auto
termination
  by (relation "measure (\<lambda>(rest, _, _). length rest)") (auto simp: header_size_def)

declare repair_scan.simps [simp del]

definition repair_torn_tail :: "log_writer \<Rightarrow> disk \<Rightarrow> log_writer \<times> disk" where
  "repair_torn_tail w dk =
     (let len = int (length (dk_file dk));
          boundary = repair_scan (dk_file dk) 0 len
      in if boundary < lw_offset w
         then (w\<lparr>lw_offset := boundary\<rparr>, dk\<lparr>dk_file := take (nat boundary) (dk_file dk)\<rparr>)
         else (w, dk))"

definition new_log_writer :: "int \<Rightarrow> disk \<Rightarrow> log_writer \<times> disk" where
  "new_log_writer max_bytes dk =
     (let w = \<lparr>lw_offset = int (length (dk_file dk)), lw_max_bytes = max_bytes,
               lw_truncated = False, lw_failed = None\<rparr>
      in if dk_file dk \<noteq> [] then repair_torn_tail w dk else (w, dk))"

text \<open>One \<open>write\<close> call: how many bytes it took, and whether it failed.\<close>

definition disk_write :: "byte list \<Rightarrow> disk \<Rightarrow> nat \<times> bool \<times> disk" where
  "disk_write buf dk =
     (case dk_writes dk of
        [] \<Rightarrow> (length buf, False, dk\<lparr>dk_file := dk_file dk @ buf\<rparr>)
      | None # ws \<Rightarrow> (length buf, False, dk\<lparr>dk_file := dk_file dk @ buf, dk_writes := ws\<rparr>)
      | Some k # ws \<Rightarrow>
          (min k (length buf), True, dk\<lparr>dk_file := dk_file dk @ take k buf, dk_writes := ws\<rparr>))"

definition log_append ::
    "log_writer \<Rightarrow> log_stream \<Rightarrow> byte list \<Rightarrow> disk \<Rightarrow> (goerr + int) \<times> log_writer \<times> disk" where
  "log_append w st d dk =
     (if length d > max_frame_payload then (Inl Opaque, w, dk)
      else case lw_failed w of
        Some e \<Rightarrow> (Inl e, w, dk)
      | None \<Rightarrow>
          if lw_truncated w then (Inr (lw_offset w), w, dk)
          else
            let sz = int (header_size + length d) in
            if lw_offset w + sz > lw_max_bytes w then (Inr (lw_offset w), w\<lparr>lw_truncated := True\<rparr>, dk)
            else
              (case disk_write (encode_frame st d) dk of
                 (n, bad, dk') \<Rightarrow>
                   if bad \<or> n \<noteq> length (encode_frame st d) then
                     let e = Wrapped [Sentinel Exec_writer_failed, if bad then Opaque else Sentinel Io_short_write]
                     in (Inl e, w\<lparr>lw_offset := int (length (dk_file dk')), lw_failed := Some e\<rparr>, dk')
                   else (Inr (lw_offset w + sz), w\<lparr>lw_offset := lw_offset w + sz\<rparr>, dk')))"

section \<open>The reader\<close>

function read_loop :: "byte list \<Rightarrow> int \<Rightarrow> log_record list" where
  "read_loop rest offset =
     (if length rest < header_size then []
      else
        let n = un_be32 (take 4 (drop 1 rest)) in
        if n > max_frame_payload then []
        else if length (drop header_size rest) < n then []
        else
          let offset' = offset + int header_size + int n
          in \<lparr>lr_stream = hd rest, lr_data = take n (drop header_size rest), lr_offset = offset'\<rparr> #
             read_loop (drop (header_size + n) rest) offset')"
  by pat_completeness auto
termination
  by (relation "measure (\<lambda>(rest, _). length rest)") (auto simp: header_size_def)

declare read_loop.simps [simp del]

text \<open>A missing log reads as no records; seeking before the start fails.\<close>

definition read_records :: "byte list option \<Rightarrow> int \<Rightarrow> goerr + log_record list" where
  "read_records file from =
     (case file of
        None \<Rightarrow> Inr []
      | Some bytes \<Rightarrow> if from < 0 then Inl Opaque else Inr (read_loop (drop (nat from) bytes) from))"

section \<open>Encoding\<close>

lemma un_be32_be32: "n < 4294967296 \<Longrightarrow> un_be32 (be32 n) = n"
proof -
  assume "n < 4294967296"
  then have "n div 16777216 < 256" by simp
  then have e: "un_be32 (be32 n) = n div 16777216 * 16777216 + n div 65536 mod 256 * 65536 +
      n div 256 mod 256 * 256 + n mod 256"
    by (simp add: be32_def unat_of_nat take_bit_eq_mod)
  have "n div 65536 = n div 16777216 * 256 + n div 65536 mod 256"
    by (simp add: div_mult2_eq [of n 65536 256, simplified] mult.commute)
  moreover have "n div 256 = n div 65536 * 256 + n div 256 mod 256"
    by (simp add: div_mult2_eq [of n 256 256, simplified] mult.commute)
  moreover have "n div 256 * 256 + n mod 256 = n" by simp
  ultimately show ?thesis unfolding e by linarith
qed

lemma byte_shift: "(of_nat (k * 256 + unat b) :: byte) = b"
proof -
  have z: "(256 :: byte) = 0" by simp
  have "(of_nat (k * 256 + unat b) :: byte) = of_nat k * 256 + b" by simp
  also have "\<dots> = b" by (simp only: z mult_zero_right add_0)
  finally show ?thesis .
qed

lemma be32_un_be32: "be32 (un_be32 [a, b, c, d]) = [a, b, c, d]"
proof -
  let ?A = "unat a" and ?B = "unat b" and ?C = "unat c" and ?D = "unat d"
  have u: "unat x < 256" for x :: byte
    using unsigned_less [of x] by simp
  have l: "?B < 256" "?C < 256" "?D < 256" by (rule u)+
  let ?n = "?A * 16777216 + ?B * 65536 + ?C * 256 + ?D"
  have n: "?n = ((?A * 256 + ?B) * 256 + ?C) * 256 + ?D" by simp
  have d1: "?n div 256 = (?A * 256 + ?B) * 256 + ?C" unfolding n using l by simp
  have d2: "?n div 65536 = ?A * 256 + ?B"
    using div_mult2_eq [of ?n 256 256] d1 l by simp
  have d3: "?n div 16777216 = ?A"
    using div_mult2_eq [of ?n 65536 256] d2 l by simp
  have "(of_nat (?n div 16777216) :: byte) = a" unfolding d3 by simp
  moreover have "(of_nat (?n div 65536) :: byte) = b" unfolding d2 by (rule byte_shift)
  moreover have "(of_nat (?n div 256) :: byte) = c" unfolding d1 by (rule byte_shift)
  moreover have "(of_nat ?n :: byte) = d" unfolding n by (rule byte_shift)
  ultimately show ?thesis unfolding be32_def un_be32.simps by simp
qed

lemma be32_length [simp]: "length (be32 n) = 4"
  by (simp add: be32_def)

lemma encode_frame_length [simp]: "length (encode_frame st d) = header_size + length d"
  by (simp add: encode_frame_def header_size_def)

text \<open>Frames the writer writes: the payload fits.\<close>

definition fits :: "byte list \<Rightarrow> bool" where
  "fits d \<longleftrightarrow> length d \<le> max_frame_payload"

definition encode_all :: "(log_stream \<times> byte list) list \<Rightarrow> byte list" where
  "encode_all fs = concat (map (\<lambda>(st, d). encode_frame st d) fs)"

text \<open>The records of a sequence of frames that starts at an offset.\<close>

fun records_from :: "int \<Rightarrow> (log_stream \<times> byte list) list \<Rightarrow> log_record list" where
  "records_from off [] = []"
| "records_from off ((st, d) # fs) =
     (let off' = off + int header_size + int (length d)
      in \<lparr>lr_stream = st, lr_data = d, lr_offset = off'\<rparr> # records_from off' fs)"

lemma encode_all_simps [simp]:
  "encode_all [] = []" "encode_all ((st, d) # fs) = encode_frame st d @ encode_all fs"
  "encode_all (fs @ gs) = encode_all fs @ encode_all gs"
  by (simp_all add: encode_all_def)

lemma frame_parts:
  assumes "fits d"
  shows "\<not> length (encode_frame st d @ rest) < header_size"
    and "un_be32 (take 4 (drop 1 (encode_frame st d @ rest))) = length d"
    and "hd (encode_frame st d @ rest) = st"
    and "drop header_size (encode_frame st d @ rest) = d @ rest"
    and "drop (header_size + length d) (encode_frame st d @ rest) = rest"
proof -
  have "length d < 4294967296" using assms by (simp add: fits_def max_frame_payload_def)
  then show "un_be32 (take 4 (drop 1 (encode_frame st d @ rest))) = length d"
    by (simp add: encode_frame_def un_be32_be32)
  show "drop (header_size + length d) (encode_frame st d @ rest) = rest"
    using drop_append [of "header_size + length d" "encode_frame st d" rest] by simp
qed (simp_all add: encode_frame_def header_size_def be32_def)

text \<open>A file that holds no further complete frame: the reader and the repair stop here.\<close>

definition no_frame :: "byte list \<Rightarrow> bool" where
  "no_frame rest \<longleftrightarrow>
     length rest < header_size \<or>
     un_be32 (take 4 (drop 1 rest)) > max_frame_payload \<or>
     length rest < header_size + un_be32 (take 4 (drop 1 rest))"

lemma read_stop: "no_frame rest \<Longrightarrow> read_loop rest off = []"
  by (subst read_loop.simps) (auto simp: no_frame_def Let_def)

lemma read_frames:
  assumes "\<forall>(st, d)\<in>set fs. fits d" "no_frame rest"
  shows "read_loop (encode_all fs @ rest) off = records_from off fs"
  using assms
proof (induction off fs rule: records_from.induct)
  case (2 off st d fs)
  then have d: "fits d" by simp
  have "read_loop (encode_frame st d @ encode_all fs @ rest) off =
      \<lparr>lr_stream = st, lr_data = d, lr_offset = off + int header_size + int (length d)\<rparr> #
      read_loop (encode_all fs @ rest) (off + int header_size + int (length d))"
    using d frame_parts [OF d, of st "encode_all fs @ rest"]
    by (subst read_loop.simps) (simp add: Let_def fits_def)
  then show ?case using 2 by (simp add: Let_def)
qed (simp add: read_stop)

lemma five_or_more: "5 \<le> length xs \<Longrightarrow> \<exists>a b c d e ys. xs = a # b # c # d # e # ys"
  by (auto simp: numeral_eq_Suc Suc_le_length_iff)

text \<open>Every file is its complete frames followed by something that is not one.\<close>

lemma split_frames: "\<exists>fs rest. bytes = encode_all fs @ rest \<and> (\<forall>(st, d)\<in>set fs. fits d) \<and> no_frame rest"
proof (induction bytes rule: length_induct)
  case (1 bytes)
  show ?case
  proof (cases "no_frame bytes")
    case True
    then show ?thesis by (intro exI [of _ "[]"] exI [of _ bytes]) simp
  next
    case False
    let ?n = "un_be32 (take 4 (drop 1 bytes))"
    have len: "header_size + ?n \<le> length bytes" and n: "?n \<le> max_frame_payload"
      using False by (auto simp: no_frame_def)
    have "5 \<le> length bytes" using len by (simp add: header_size_def)
    then obtain st a b c e more where b: "bytes = st # a # b # c # e # more"
      using five_or_more by blast
    let ?d = "take ?n more"
    have "?n = un_be32 [a, b, c, e]" using b by simp
    have dl: "length ?d = ?n" using len b by (simp add: header_size_def)
    have be: "be32 ?n = [a, b, c, e]" using be32_un_be32 [of a b c e] b by simp
    have fit: "fits ?d" using dl n by (simp add: fits_def)
    have e: "bytes = encode_frame st ?d @ drop ?n more"
      using b be dl by (simp add: encode_frame_def)
    have "length (drop ?n more) < length bytes" using b by simp
    then obtain fs rest where
      "drop ?n more = encode_all fs @ rest" "\<forall>(st, d)\<in>set fs. fits d" "no_frame rest"
      using 1 by blast
    then show ?thesis
      using e fit by (intro exI [of _ "(st, ?d) # fs"] exI [of _ rest]) simp
  qed
qed

section \<open>Repair and append\<close>

lemma repair_stop: "no_frame rest \<Longrightarrow> int (length rest) \<le> len - off \<Longrightarrow> len - off \<le> int (length rest) \<Longrightarrow>
    repair_scan rest off len = off"
  by (subst repair_scan.simps) (auto simp: no_frame_def Let_def)

lemma repair_frames:
  assumes "\<forall>(st, d)\<in>set fs. fits d" "no_frame rest" "len = off + int (length (encode_all fs @ rest))"
  shows "repair_scan (encode_all fs @ rest) off len = off + int (length (encode_all fs))"
  using assms
proof (induction off fs rule: records_from.induct)
  case (1 off)
  then show ?case by (simp add: repair_stop)
next
  case (2 off st d fs)
  then have d: "fits d" by simp
  have "repair_scan (encode_frame st d @ encode_all fs @ rest) off len =
      repair_scan (encode_all fs @ rest) (off + int header_size + int (length d)) len"
    using d frame_parts [OF d, of st "encode_all fs @ rest"] 2(4)
    by (subst repair_scan.simps) (simp add: Let_def fits_def)
  then show ?case using 2 by (simp add: Let_def)
qed

lemma no_frame_Nil [simp]: "no_frame []"
  by (simp add: no_frame_def header_size_def)

text \<open>The writer is in step with a file of complete frames.\<close>

definition in_step :: "log_writer \<Rightarrow> disk \<Rightarrow> (log_stream \<times> byte list) list \<Rightarrow> bool" where
  "in_step w dk fs \<longleftrightarrow>
     dk_file dk = encode_all fs \<and> lw_offset w = int (length (encode_all fs)) \<and> (\<forall>(st, d)\<in>set fs. fits d)"

lemma open_in_step:
  assumes "new_log_writer m dk = (w, dk')" "dk_file dk = encode_all fs @ rest"
    and "\<forall>(st, d)\<in>set fs. fits d" "no_frame rest"
  shows "in_step w dk' fs \<and> lw_max_bytes w = m \<and> \<not> lw_truncated w \<and> lw_failed w = None \<and>
    dk_writes dk' = dk_writes dk"
proof -
  have "repair_scan (dk_file dk) 0 (int (length (dk_file dk))) = int (length (encode_all fs))"
    using assms(2-4) repair_frames [of fs rest _ 0] by simp
  then show ?thesis
    using assms
    by (auto simp: new_log_writer_def repair_torn_tail_def in_step_def Let_def split: if_splits)
qed

text \<open>A proper prefix of a frame is not a frame, so a reader never sees a torn append.\<close>

lemma torn_no_frame:
  assumes "fits d" "k < length (encode_frame st d)"
  shows "no_frame (take k (encode_frame st d))"
proof (cases "k < header_size")
  case False
  have "take 4 (drop 1 (take k (encode_frame st d))) = be32 (length d)"
    using False by (simp add: encode_frame_def header_size_def take_Cons' drop_take)
  moreover have "length d < 4294967296" using assms(1) by (simp add: fits_def max_frame_payload_def)
  ultimately show ?thesis using assms(2) by (simp add: no_frame_def un_be32_be32)
qed (simp add: no_frame_def)

text \<open>One append: refused, dropped for the cap, whole, or failed and torn.\<close>

lemma append_cases:
  assumes "in_step w dk fs" "log_append w st d dk = (r, w', dk')"
  obtains (refused) "\<not> fits d \<or> lw_failed w \<noteq> None" "w' = w" "dk' = dk" "isl r"
    | (dropped) "fits d" "lw_failed w = None" "w' = w\<lparr>lw_truncated := True\<rparr>" "dk' = dk"
        "lw_truncated w \<or> lw_max_bytes w < lw_offset w + int (header_size + length d)" "r = Inr (lw_offset w)"
    | (whole) "fits d" "lw_failed w = None" "\<not> lw_truncated w" "in_step w' dk' (fs @ [(st, d)])"
        "lw_offset w' \<le> lw_max_bytes w" "lw_max_bytes w' = lw_max_bytes w" "\<not> lw_truncated w'"
        "lw_failed w' = None" "r = Inr (lw_offset w')"
    | (torn) k where "fits d" "lw_failed w = None" "\<not> lw_truncated w" "lw_failed w' \<noteq> None" "isl r"
        "dk_file dk' = dk_file dk @ take k (encode_frame st d)"
        "lw_offset w + int (header_size + length d) \<le> lw_max_bytes w"
        "lw_max_bytes w' = lw_max_bytes w" "lw_offset w' = int (length (dk_file dk'))"
  using assms
  by (cases "dk_writes dk"; cases "hd (dk_writes dk)")
    (auto simp: log_append_def disk_write_def in_step_def fits_def Let_def split: option.splits if_splits)

fun log_appends :: "log_writer \<Rightarrow> (log_stream \<times> byte list) list \<Rightarrow> disk \<Rightarrow> log_writer \<times> disk" where
  "log_appends w [] dk = (w, dk)"
| "log_appends w ((st, d) # fs) dk =
     (case log_append w st d dk of (r, w', dk') \<Rightarrow> log_appends w' fs dk')"

text \<open>What the cap lets through: frames up to the first that does not fit, and none after it.\<close>

fun accepted :: "int \<Rightarrow> int \<Rightarrow> (log_stream \<times> byte list) list \<Rightarrow> (log_stream \<times> byte list) list" where
  "accepted cap off [] = []"
| "accepted cap off ((st, d) # fs) =
     (let off' = off + int (header_size + length d)
      in if off' > cap then [] else (st, d) # accepted cap off' fs)"

lemma accepted_prefix: "\<exists>gs. fs = accepted cap off fs @ gs"
  by (induction cap off fs rule: accepted.induct) (auto simp: Let_def)

lemma accepted_fits: "\<forall>(st, d)\<in>set fs. fits d \<Longrightarrow> \<forall>(st, d)\<in>set (accepted cap off fs). fits d"
  by (induction cap off fs rule: accepted.induct) (auto simp: Let_def)

lemma appends_truncated:
  assumes "in_step w dk gs" "lw_truncated w" "lw_failed w = None" "log_appends w fs dk = (w', dk')"
  shows "in_step w' dk' gs"
  using assms
proof (induction fs arbitrary: w dk)
  case (Cons f fs)
  obtain st d where f: "f = (st, d)" by fastforce
  obtain r w1 dk1 where a: "log_append w st d dk = (r, w1, dk1)" using prod_cases3 by blast
  have "in_step w1 dk1 gs \<and> lw_truncated w1 \<and> lw_failed w1 = None"
    using Cons.prems by (cases rule: append_cases [OF Cons.prems(1) a]) (auto simp: in_step_def)
  moreover have "log_appends w1 fs dk1 = (w', dk')" using Cons.prems(4) f a by simp
  ultimately show ?case using Cons.IH by blast
qed simp

lemma appends_law:
  assumes "in_step w dk gs" "lw_failed w = None" "\<not> lw_truncated w" "dk_writes dk = []"
    and "\<forall>(st, d)\<in>set fs. fits d" "log_appends w fs dk = (w', dk')"
  shows "in_step w' dk' (gs @ accepted (lw_max_bytes w) (lw_offset w) fs)"
  using assms
proof (induction fs arbitrary: w dk gs)
  case (Cons f fs)
  obtain st d where f: "f = (st, d)" by fastforce
  obtain r w1 dk1 where a: "log_append w st d dk = (r, w1, dk1)" using prod_cases3 by blast
  have ok: "\<not> isl r \<and> dk_writes dk1 = []"
    using a Cons.prems f by (auto simp: log_append_def disk_write_def fits_def Let_def split: if_splits)
  have d: "fits d" using Cons.prems f by simp
  have rest: "log_appends w1 fs dk1 = (w', dk')" using Cons.prems(6) f a by simp
  from Cons.prems(1) a show ?case
  proof (cases rule: append_cases)
    case dropped
    then have e: "accepted (lw_max_bytes w) (lw_offset w) (f # fs) = []"
      using Cons.prems(3) f by (auto simp: Let_def)
    have "in_step w1 dk1 gs" "lw_truncated w1" "lw_failed w1 = None"
      using dropped Cons.prems(1) by (auto simp: in_step_def)
    then have "in_step w' dk' gs" using appends_truncated rest by blast
    then show ?thesis unfolding e by simp
  next
    case whole
    have "\<forall>(st, d)\<in>set fs. fits d" using Cons.prems(5) by simp
    then have "in_step w' dk' ((gs @ [(st, d)]) @ accepted (lw_max_bytes w1) (lw_offset w1) fs)"
      using Cons.IH [OF whole(4) whole(8,7)] ok rest by blast
    moreover have "lw_offset w1 = lw_offset w + int (header_size + length d)"
      using whole(4) Cons.prems(1) by (simp add: in_step_def)
    ultimately show ?thesis using f whole(5,6) by (simp add: Let_def)
  qed (use ok d Cons.prems(2) in auto)
qed simp

text \<open>The writer is truncated exactly when a frame did not fit.\<close>

lemma appends_stay_truncated:
  "lw_truncated w \<Longrightarrow> lw_failed w = None \<Longrightarrow> log_appends w fs dk = (w', dk') \<Longrightarrow>
     lw_truncated w' \<and> lw_offset w' = lw_offset w"
proof (induction fs arbitrary: w dk)
  case (Cons f fs)
  obtain st d where f: "f = (st, d)" by fastforce
  have "\<exists>r. log_append w st d dk = (r, w, dk)"
    using Cons.prems(1,2) by (cases "max_frame_payload < length d") (simp_all add: log_append_def)
  then obtain r where "log_append w st d dk = (r, w, dk)" by blast
  then show ?case using Cons.prems Cons.IH [of w dk] f by simp
qed simp

lemma appends_flag:
  assumes "lw_failed w = None" "\<not> lw_truncated w" "dk_writes dk = []"
    and "\<forall>(st, d)\<in>set fs. fits d" "log_appends w fs dk = (w', dk')"
  shows "lw_truncated w' \<longleftrightarrow> accepted (lw_max_bytes w) (lw_offset w) fs \<noteq> fs"
  using assms
proof (induction fs arbitrary: w dk)
  case (Cons f fs)
  obtain st d where f: "f = (st, d)" by fastforce
  obtain r w1 dk1 where a: "log_append w st d dk = (r, w1, dk1)" using prod_cases3 by blast
  have rest: "log_appends w1 fs dk1 = (w', dk')" using Cons.prems(5) f a by simp
  have d: "length d \<le> max_frame_payload" using Cons.prems(4) f by (simp add: fits_def)
  let ?n = "lw_offset w + int (header_size + length d)"
  have acc: "accepted (lw_max_bytes w) (lw_offset w) (f # fs) =
      (if ?n > lw_max_bytes w then [] else (st, d) # accepted (lw_max_bytes w) ?n fs)"
    unfolding f by (simp add: Let_def)
  have app: "log_append w st d dk =
      (if ?n > lw_max_bytes w then (Inr (lw_offset w), w\<lparr>lw_truncated := True\<rparr>, dk)
       else (Inr ?n, w\<lparr>lw_offset := ?n\<rparr>, dk\<lparr>dk_file := dk_file dk @ encode_frame st d\<rparr>))"
    using Cons.prems(1-3) d by (simp add: log_append_def disk_write_def Let_def add.assoc)
  show ?case
  proof (cases "?n > lw_max_bytes w")
    case True
    then have "w1 = w\<lparr>lw_truncated := True\<rparr>" using a app by simp
    then have "lw_truncated w'"
      using appends_stay_truncated [of w1 fs dk1 w' dk'] rest Cons.prems(1) by simp
    then show ?thesis using acc True by simp
  next
    case False
    then have w1: "w1 = w\<lparr>lw_offset := ?n\<rparr>" "dk_writes dk1 = []"
      using a app Cons.prems(3) by auto
    have "lw_truncated w' \<longleftrightarrow> accepted (lw_max_bytes w1) (lw_offset w1) fs \<noteq> fs"
      by (rule Cons.IH [OF _ _ _ _ rest]) (use w1 Cons.prems in auto)
    then show ?thesis using acc False w1 f by simp
  qed
qed simp

lemma append_size:
  assumes "in_step w dk gs" "log_append w st d dk = (r, w', dk')"
  shows "int (length (dk_file dk')) \<le> max (lw_max_bytes w) (int (length (dk_file dk))) \<and>
    lw_max_bytes w' = lw_max_bytes w \<and>
    (lw_failed w' = None \<longrightarrow> (\<exists>gs'. in_step w' dk' gs'))"
  using assms
proof (cases rule: append_cases)
  case refused
  then show ?thesis using assms(1) by auto
next
  case dropped
  then have "in_step w' dk' gs" using assms(1) by (simp add: in_step_def)
  then show ?thesis using dropped by auto
next
  case whole
  then have "int (length (dk_file dk')) \<le> lw_max_bytes w" by (simp add: in_step_def)
  then show ?thesis using whole(4,6) by auto
next
  case (torn k)
  then show ?thesis using assms(1) by (auto simp: in_step_def)
qed

lemma appends_stuck: "lw_failed w \<noteq> None \<Longrightarrow> log_appends w fs dk = (w, dk)"
  by (induction fs) (auto simp: log_append_def)

lemma appends_size:
  assumes "in_step w dk gs" "log_appends w fs dk = (w', dk')"
  shows "int (length (dk_file dk')) \<le> max (lw_max_bytes w) (int (length (dk_file dk)))"
  using assms
proof (induction fs arbitrary: w dk gs)
  case (Cons f fs)
  obtain st d where f: "f = (st, d)" by fastforce
  obtain r w1 dk1 where a: "log_append w st d dk = (r, w1, dk1)" using prod_cases3 by blast
  note one = append_size [OF Cons.prems(1) a]
  have rest: "log_appends w1 fs dk1 = (w', dk')" using Cons.prems(2) f a by simp
  show ?case
  proof (cases "lw_failed w1")
    case None
    then obtain gs' where "in_step w1 dk1 gs'" using one by blast
    then show ?thesis using Cons.IH rest one by fastforce
  next
    case (Some e)
    then show ?thesis using appends_stuck [of w1 fs dk1] rest one by simp
  qed
qed simp

section \<open>Properties\<close>

text \<open>C19 [log_roundtrip]: opening a log, whatever torn bytes a crash left at its end, appending
  frames and reading the file from the start gives back the old frames and then the new ones,
  up to the first new frame the size cap refuses, with the offset at which each one ends.\<close>

theorem log_roundtrip:
  assumes "new_log_writer cap \<lparr>dk_file = encode_all old @ torn, dk_writes = []\<rparr> = (w, dk)"
    and "list_all (\<lambda>(st, d). fits d) old" "no_frame torn"
    and "list_all (\<lambda>(st, d). fits d) fs" "log_appends w fs dk = (w', dk')"
  shows "read_records (Some (dk_file dk')) 0 =
    Inr (records_from 0 (old @ accepted cap (int (length (encode_all old))) fs))"
proof -
  have o: "in_step w dk old" "lw_max_bytes w = cap" "\<not> lw_truncated w" "lw_failed w = None" "dk_writes dk = []"
    using open_in_step [OF assms(1), of old torn] assms(2,3) by (auto simp: list_all_iff)
  have "in_step w' dk' (old @ accepted cap (lw_offset w) fs)"
    using appends_law [OF o(1,4,3,5), of fs] assms(4,5) o(2) by (simp add: list_all_iff)
  then have f: "in_step w' dk' (old @ accepted cap (int (length (encode_all old))) fs)"
    using o(1) by (simp add: in_step_def)
  then show ?thesis
    using read_frames [of "old @ accepted cap (int (length (encode_all old))) fs" "[]" 0]
    by (simp add: in_step_def read_records_def)
qed

definition sample_frames :: "(log_stream \<times> byte list) list" where
  "sample_frames = [(log_stdout, [104, 105]), (log_stderr, [33]), (log_stdout, [1, 2, 3, 4])]"

lemma sample_fits: "list_all (\<lambda>(st, d). fits d) sample_frames"
  by (simp add: sample_frames_def fits_def max_frame_payload_def)

lemma read_sample: "no_frame rest \<Longrightarrow>
    read_records (Some (encode_all sample_frames @ rest)) 0 = Inr (records_from 0 sample_frames)"
  using sample_fits by (simp add: read_records_def read_frames list_all_iff)

lemma torn_header: "no_frame [3, 0, 0, 0, 9, 1]" "no_frame [2, 0, 0]"
  by (simp_all add: no_frame_def header_size_def)

lemma log_roundtrip_witness:
  "\<exists>w dk w' dk'. new_log_writer 13 \<lparr>dk_file = [1, 0], dk_writes = []\<rparr> = (w, dk) \<and>
     log_appends w sample_frames dk = (w', dk') \<and>
     read_records (Some (dk_file dk')) 0 =
       Inr [\<lparr>lr_stream = log_stdout, lr_data = [104, 105], lr_offset = 7\<rparr>,
            \<lparr>lr_stream = log_stderr, lr_data = [33], lr_offset = 13\<rparr>]"
proof -
  have t: "no_frame [1, 0]" by (simp add: no_frame_def header_size_def)
  obtain w dk where o: "new_log_writer 13 \<lparr>dk_file = [1, 0], dk_writes = []\<rparr> = (w, dk)" by (rule prod.exhaust)
  obtain w' dk' where a: "log_appends w sample_frames dk = (w', dk')" by (rule prod.exhaust)
  have "records_from 0 ([] @ accepted 13 (int (length (encode_all []))) sample_frames) =
      [\<lparr>lr_stream = log_stdout, lr_data = [104, 105], lr_offset = 7\<rparr>,
       \<lparr>lr_stream = log_stderr, lr_data = [33], lr_offset = 13\<rparr>]"
    by (simp add: sample_frames_def header_size_def Let_def)
  then show ?thesis
    using log_roundtrip [of 13 "[]" "[1, 0]" w dk sample_frames w' dk'] o t sample_fits a by auto
qed

text \<open>The offset a record carries is a resume cursor: reading again from
  it gives exactly the records after it, whatever follows the last complete frame.\<close>

theorem log_resume_offset:
  assumes "read_records (Some bytes) 0 = Inr rs" "k < length rs"
  shows "read_records (Some bytes) (lr_offset (rs ! k)) = Inr (drop (Suc k) rs)"
proof -
  obtain fs rest where b: "bytes = encode_all fs @ rest" "\<forall>(st, d)\<in>set fs. fits d" "no_frame rest"
    using split_frames by blast
  then have rs: "rs = records_from 0 fs"
    using assms(1) read_frames [of fs rest 0] by (simp add: read_records_def)
  have general: "lr_offset (records_from (int off) gs ! k) = int (off + length (encode_all (take (Suc k) gs))) \<and>
      drop (Suc k) (records_from (int off) gs) =
        records_from (int (off + length (encode_all (take (Suc k) gs)))) (drop (Suc k) gs)"
    if "k < length gs" for off k and gs :: "(log_stream \<times> byte list) list"
    using that
  proof (induction gs arbitrary: off k)
    case (Cons g gs)
    obtain st d where "g = (st, d)" by fastforce
    then show ?case
      using Cons.IH [of "k - 1" "off + header_size + length d"] Cons.prems
      by (cases k) (auto simp: Let_def add.assoc)
  qed simp
  have len: "length (records_from off gs) = length gs" for off gs
    by (induction off gs rule: records_from.induct) (auto simp: Let_def)
  then have k: "k < length fs" using assms(2) rs by simp
  let ?n = "length (encode_all (take (Suc k) fs))"
  have "drop ?n bytes = encode_all (drop (Suc k) fs) @ rest"
    using b(1) encode_all_simps(3) [of "take (Suc k) fs" "drop (Suc k) fs"] by simp
  moreover have "\<forall>(st, d)\<in>set (drop (Suc k) fs). fits d" using b(2) set_drop_subset by fast
  ultimately show ?thesis
    using general [OF k, of 0] rs b(3) read_frames [of "drop (Suc k) fs" rest "int ?n"]
    by (simp add: read_records_def)
qed

lemma log_resume_offset_witness:
  "read_records (Some (encode_all sample_frames @ [2, 0, 0])) 7 =
     Inr (drop 1 (records_from 0 sample_frames))"
proof -
  have r: "read_records (Some (encode_all sample_frames @ [2, 0, 0])) 0 = Inr (records_from 0 sample_frames)"
    by (rule read_sample) (rule torn_header)
  have "0 < length (records_from 0 sample_frames)" "lr_offset (records_from 0 sample_frames ! 0) = 7"
    by (simp_all add: sample_frames_def header_size_def Let_def)
  then show ?thesis using log_resume_offset [OF r, of 0] by simp
qed

text \<open>C20 [repair_keeps_records]: opening a log with any content at all keeps every record a reader
  could see, only cuts bytes off the end, and leaves a file that consists of those records.\<close>

theorem repair_keeps_records:
  assumes "new_log_writer cap dk = (w, dk')"
  shows "read_records (Some (dk_file dk')) 0 = read_records (Some (dk_file dk)) 0 \<and>
    prefix (dk_file dk') (dk_file dk) \<and> (\<exists>fs. in_step w dk' fs)"
proof -
  obtain fs rest where b: "dk_file dk = encode_all fs @ rest" "\<forall>(st, d)\<in>set fs. fits d" "no_frame rest"
    using split_frames by blast
  then have s: "in_step w dk' fs" using open_in_step [OF assms] by blast
  then have "dk_file dk' = encode_all fs @ []" by (simp add: in_step_def)
  then show ?thesis
    using s b read_frames [of fs rest 0] read_frames [of fs "[]" 0]
    by (auto simp: read_records_def)
qed

lemma repair_keeps_records_witness:
  "\<exists>w dk'. new_log_writer 100 \<lparr>dk_file = encode_all sample_frames @ [3, 0, 0, 0, 9, 1], dk_writes = []\<rparr> = (w, dk') \<and>
     read_records (Some (dk_file dk')) 0 = Inr (records_from 0 sample_frames)"
proof -
  obtain w dk' where o: "new_log_writer 100
      \<lparr>dk_file = encode_all sample_frames @ [3, 0, 0, 0, 9, 1], dk_writes = []\<rparr> = (w, dk')" by (rule prod.exhaust)
  have "read_records (Some (encode_all sample_frames @ [3, 0, 0, 0, 9, 1])) 0 =
      Inr (records_from 0 sample_frames)" by (rule read_sample) (rule torn_header)
  then show ?thesis using repair_keeps_records [OF o] o by auto
qed

text \<open>C21 [log_cap]: however many frames are appended and whichever writes fail part-way, the file
  never grows past the configured size, or stays at the size it was opened with.\<close>

theorem log_cap:
  assumes "new_log_writer cap dk = (w, dk1)" "log_appends w fs dk1 = (w', dk')"
  shows "int (length (dk_file dk')) \<le> max cap (int (length (dk_file dk)))"
proof -
  obtain gs rest where b: "dk_file dk = encode_all gs @ rest" "\<forall>(st, d)\<in>set gs. fits d" "no_frame rest"
    using split_frames by blast
  have s: "in_step w dk1 gs" "lw_max_bytes w = cap" using open_in_step [OF assms(1) b] by auto
  then have "length (dk_file dk1) \<le> length (dk_file dk)" using b by (simp add: in_step_def)
  then show ?thesis using appends_size [OF s(1) assms(2)] s(2) by auto
qed

lemma log_cap_witness:
  "\<exists>w dk1 w' dk'. new_log_writer 13 \<lparr>dk_file = [], dk_writes = [None, Some 3]\<rparr> = (w, dk1) \<and>
     log_appends w sample_frames dk1 = (w', dk') \<and> length (dk_file dk') \<le> 13"
proof -
  obtain w dk1 where o: "new_log_writer 13 \<lparr>dk_file = [], dk_writes = [None, Some 3]\<rparr> = (w, dk1)" by (rule prod.exhaust)
  obtain w' dk' where a: "log_appends w sample_frames dk1 = (w', dk')" by (rule prod.exhaust)
  show ?thesis using log_cap [OF o a] o a by auto
qed

end
