(* ===== verification/Exec.thy ===== *)
theory Exec
  imports Exec_Log Runtime_Iface
begin

text \<open>
  \<open>internal/exec/service.go\<close>: the exec row, its repository and its laws, and the service:
  \<open>Create\<close>, the supervisor that copies a session into the log, \<open>Get\<close>, and the
  reconciliation at start-up with its pollers. \<open>Create\<close> starts the supervisor as a
  goroutine: here \<open>supervise\<close> is an operation of its own, run after it. It takes fuel,
  because a session may stream forever; the properties give fuel that is enough.
\<close>

section \<open>Rows\<close>

datatype exec_state = Ex_running | Ex_exited | Ex_failed

record exec_row =
  ex_id :: string
  ex_sandbox_id :: string
  ex_runtime_exec_id :: string
  ex_command :: "string list"
  ex_env :: dict
  ex_working_dir :: string
  ex_user :: string
  ex_state :: exec_state
  ex_exit_code :: "int option"
  ex_output_bytes :: int
  ex_truncated :: bool
  ex_started_at :: time
  ex_finished_at :: "time option"

record exec_filter =
  exf_limit :: int
  exf_cursor :: string

record 's exec_repo =
  exr_create :: "exec_row \<Rightarrow> ('s, unit) op"
  exr_get :: "string \<Rightarrow> ('s, exec_row) op"
  exr_list_by_sandbox :: "string \<Rightarrow> exec_filter \<Rightarrow> ('s, exec_row list) op"
  exr_list_running :: "('s, exec_row list) op"
  exr_update :: "exec_row \<Rightarrow> ('s, unit) op"

record exec_options =
  xo_sandbox_id :: string
  xo_command :: "string list"
  xo_env :: "dict option"
  xo_working_dir :: string
  xo_user :: string

section \<open>The service\<close>

text \<open>
  The files under the log directory are \<open>exs_logs\<close>, written with \<open>exs_put_log\<close>; opening
  one creates it and may fail. \<open>exs_notify\<close> is the broadcaster's \<open>Notify\<close>.
\<close>

record 's exec_service =
  exs_repo :: "'s exec_repo"
  exs_sandboxes :: "string \<Rightarrow> ('s, string) op"
  exs_rt :: "'s runtime"
  exs_max_bytes :: int
  exs_now :: "('s, time) act"
  exs_new_id :: "('s, string) act"
  exs_open :: "string \<Rightarrow> ('s, unit) op"
  exs_logs :: "'s \<Rightarrow> string \<Rightarrow> disk option"
  exs_put_log :: "string \<Rightarrow> disk \<Rightarrow> 's \<Rightarrow> 's"
  exs_notify :: "string \<Rightarrow> 's \<Rightarrow> 's"

definition exec_mark_failed :: "'s exec_service \<Rightarrow> exec_row \<Rightarrow> goerr \<Rightarrow> ('s, exec_row) op" where
  "exec_mark_failed sv e cause =
     bindE (liftE (exs_now sv)) (\<lambda>finished.
     bindE (attempt (exr_update (exs_repo sv) (e\<lparr>ex_state := Ex_failed, ex_finished_at := Some finished\<rparr>))) (\<lambda>r.
     case r of Inl err \<Rightarrow> throwE (errors_join cause err) | Inr _ \<Rightarrow> throwE cause))"

definition new_exec :: "exec_options \<Rightarrow> string \<Rightarrow> time \<Rightarrow> exec_row" where
  "new_exec opts i now =
     \<lparr>ex_id = i, ex_sandbox_id = xo_sandbox_id opts, ex_runtime_exec_id = [],
      ex_command = xo_command opts,
      ex_env = (case xo_env opts of None \<Rightarrow> Map.empty | Some d \<Rightarrow> d),
      ex_working_dir = xo_working_dir opts, ex_user = xo_user opts, ex_state = Ex_running,
      ex_exit_code = None, ex_output_bytes = 0, ex_truncated = False, ex_started_at = now,
      ex_finished_at = None\<rparr>"

definition exec_create :: "'s exec_service \<Rightarrow> exec_options \<Rightarrow> ('s, exec_row) op" where
  "exec_create sv opts =
     (if xo_command opts = [] then throwE Opaque
      else
        bindE (exs_sandboxes sv (xo_sandbox_id opts)) (\<lambda>rid.
        bindE (liftE (exs_new_id sv)) (\<lambda>i.
        bindE (liftE (exs_now sv)) (\<lambda>now.
        let e = new_exec opts i now
        in bindE (exr_create (exs_repo sv) e) (\<lambda>_.
           bindE (attempt (rt_exec (exs_rt sv) rid
              \<lparr>xs_command = xo_command opts, xs_env = xo_env opts,
               xs_working_dir = xo_working_dir opts, xs_user = xo_user opts\<rparr>)) (\<lambda>r.
           case r of
             Inl err \<Rightarrow> exec_mark_failed sv e err
           | Inr sess \<Rightarrow>
               let e1 = e\<lparr>ex_runtime_exec_id := sess\<rparr>
               in bindE (attempt (exr_update (exs_repo sv) e1)) (\<lambda>u.
                  case u of
                    Inl err \<Rightarrow> bindE (attempt (rt_close (exs_rt sv) sess)) (\<lambda>_. exec_mark_failed sv e1 err)
                  | Inr _ \<Rightarrow> returnE e1)))))))"

subsection \<open>The supervisor\<close>

definition to_log_stream :: "std_stream \<Rightarrow> log_stream" where
  "to_log_stream st = (if st = Stream_stderr then log_stderr else log_stdout)"

definition exec_finish ::
    "'s exec_service \<Rightarrow> string \<Rightarrow> int option \<Rightarrow> int \<Rightarrow> bool \<Rightarrow> exec_state \<Rightarrow> ('s, unit) op" where
  "exec_finish sv i code n trunc st =
     bindE (attempt (exr_get (exs_repo sv) i)) (\<lambda>r.
     case r of
       Inl _ \<Rightarrow> returnE ()
     | Inr e \<Rightarrow>
         bindE (liftE (exs_now sv)) (\<lambda>finished.
         bindE (attempt (exr_update (exs_repo sv)
            (e\<lparr>ex_state := st, ex_exit_code := code, ex_output_bytes := n, ex_truncated := trunc,
               ex_finished_at := Some finished\<rparr>))) (\<lambda>_. returnE ())))"

definition outcome_for :: "bool \<Rightarrow> goerr + int \<Rightarrow> exec_state \<times> int option" where
  "outcome_for append_failed waited =
     (case waited of
        Inl _ \<Rightarrow> (Ex_failed, None)
      | Inr code \<Rightarrow> if append_failed then (Ex_failed, None) else (Ex_exited, Some code))"

definition log_file :: "'s exec_service \<Rightarrow> string \<Rightarrow> 's \<Rightarrow> disk" where
  "log_file sv i s = (case exs_logs sv s i of None \<Rightarrow> \<lparr>dk_file = [], dk_writes = []\<rparr> | Some dk \<Rightarrow> dk)"

text \<open>\<open>NewLogWriter\<close> and \<open>Append\<close> on the file of an exec.\<close>

definition open_writer :: "'s exec_service \<Rightarrow> string \<Rightarrow> ('s, log_writer) op" where
  "open_writer sv i =
     bindE (exs_open sv i) (\<lambda>_ s.
       case new_log_writer (exs_max_bytes sv) (log_file sv i s) of
         (w, dk) \<Rightarrow> (Inr w, exs_put_log sv i dk s))"

definition write_log ::
    "'s exec_service \<Rightarrow> string \<Rightarrow> log_writer \<Rightarrow> log_stream \<Rightarrow> byte list \<Rightarrow>
     ('s, (goerr + int) \<times> log_writer) op" where
  "write_log sv i w st d s =
     (case log_append w st d (log_file sv i s) of
        (r, w', dk) \<Rightarrow> (Inr (r, w'), exs_put_log sv i dk s))"

text \<open>The copying loop: the writer as it ends and whether an append failed, unless the fuel ran out.\<close>

fun pump ::
    "nat \<Rightarrow> 's exec_service \<Rightarrow> string \<Rightarrow> string \<Rightarrow> log_writer \<Rightarrow> ('s, (log_writer \<times> bool) option) op" where
  "pump 0 sv i sess w = returnE None"
| "pump (Suc n) sv i sess w =
     bindE (attempt (rt_recv (exs_rt sv) sess)) (\<lambda>r.
     case r of
       Inl err \<Rightarrow>
         if errors_is err Io_eof then returnE (Some (w, False))
         else bindE (write_log sv i w log_gap []) (\<lambda>(g, w').
              bindE (modE (exs_notify sv i)) (\<lambda>_. returnE (Some (w', isl g))))
     | Inr fr \<Rightarrow>
         bindE (write_log sv i w (to_log_stream (fr_stream fr)) (fr_data fr)) (\<lambda>(g, w').
         if isl g then returnE (Some (w', True))
         else bindE (modE (exs_notify sv i)) (\<lambda>_. pump n sv i sess w')))"

text \<open>After the loop: wait for the exit code, record the outcome, wake the readers.\<close>

definition wind_up :: "'s exec_service \<Rightarrow> string \<Rightarrow> string \<Rightarrow> log_writer \<Rightarrow> bool \<Rightarrow> ('s, bool) op" where
  "wind_up sv i sess w append_failed =
     bindE (attempt (rt_wait (exs_rt sv) sess)) (\<lambda>c.
     let (st, code) = outcome_for append_failed c
     in bindE (exec_finish sv i code (lw_offset w) (lw_truncated w) st) (\<lambda>_.
        bindE (modE (exs_notify sv i)) (\<lambda>_.
        bindE (attempt (rt_close (exs_rt sv) sess)) (\<lambda>_. returnE True))))"

definition supervise :: "nat \<Rightarrow> 's exec_service \<Rightarrow> string \<Rightarrow> string \<Rightarrow> ('s, bool) op" where
  "supervise fuel sv i sess =
     bindE (attempt (open_writer sv i)) (\<lambda>opened.
     case opened of
       Inl _ \<Rightarrow>
         bindE (exec_finish sv i None 0 False Ex_failed) (\<lambda>_.
         bindE (modE (exs_notify sv i)) (\<lambda>_.
         bindE (attempt (rt_close (exs_rt sv) sess)) (\<lambda>_. returnE True)))
     | Inr w \<Rightarrow>
         bindE (pump fuel sv i sess w) (\<lambda>p.
         case p of None \<Rightarrow> returnE False | Some wb \<Rightarrow> wind_up sv i sess (fst wb) (snd wb)))"

subsection \<open>Reading and reconciling\<close>

definition exec_get :: "'s exec_service \<Rightarrow> string \<Rightarrow> ('s, exec_row) op" where
  "exec_get sv i =
     bindE (exr_get (exs_repo sv) i) (\<lambda>e s.
       (Inr (if ex_state e = Ex_running then
               (case exs_logs sv s i of
                  None \<Rightarrow> e | Some dk \<Rightarrow> e\<lparr>ex_output_bytes := int (length (dk_file dk))\<rparr>)
             else e), s))"

definition exec_list :: "'s exec_service \<Rightarrow> string \<Rightarrow> exec_filter \<Rightarrow> ('s, exec_row list) op" where
  "exec_list sv sandbox f = exr_list_by_sandbox (exs_repo sv) sandbox f"

definition log_size :: "'s exec_service \<Rightarrow> string \<Rightarrow> 's \<Rightarrow> int" where
  "log_size sv i s = (case exs_logs sv s i of None \<Rightarrow> 0 | Some dk \<Rightarrow> int (length (dk_file dk)))"

definition append_gap :: "'s exec_service \<Rightarrow> string \<Rightarrow> ('s, unit) op" where
  "append_gap sv i =
     bindE (attempt (open_writer sv i)) (\<lambda>opened.
     case opened of
       Inl _ \<Rightarrow> returnE ()
     | Inr w \<Rightarrow> bindE (write_log sv i w log_gap []) (\<lambda>_. modE (exs_notify sv i)))"

definition settle :: "'s exec_service \<Rightarrow> string \<Rightarrow> int option \<Rightarrow> bool \<Rightarrow> exec_state \<Rightarrow> ('s, unit) op" where
  "settle sv i code trunc st =
     bindE (readE (\<lambda>s. Inr (log_size sv i s))) (\<lambda>n.
     bindE (exec_finish sv i code n trunc st) (\<lambda>_. modE (exs_notify sv i)))"

definition reconcile_handle_gone :: "'s exec_service \<Rightarrow> string \<Rightarrow> bool \<Rightarrow> ('s, unit) op" where
  "reconcile_handle_gone sv i trunc =
     bindE (append_gap sv i) (\<lambda>_. settle sv i None trunc Ex_failed)"

text \<open>The pollers \<open>Reconcile\<close> leaves running: exec id, runtime exec id, truncated.\<close>

type_synonym poller = "string \<times> string \<times> bool"

definition reconcile_one :: "'s exec_service \<Rightarrow> exec_row \<Rightarrow> ('s, poller option) op" where
  "reconcile_one sv e =
     (if ex_runtime_exec_id e = [] then
        bindE (reconcile_handle_gone sv (ex_id e) (ex_truncated e)) (\<lambda>_. returnE None)
      else
        bindE (attempt (rt_inspect_exec (exs_rt sv) (ex_runtime_exec_id e))) (\<lambda>r.
        case r of
          Inl _ \<Rightarrow> bindE (reconcile_handle_gone sv (ex_id e) (ex_truncated e)) (\<lambda>_. returnE None)
        | Inr status \<Rightarrow>
            bindE (append_gap sv (ex_id e)) (\<lambda>_.
            if \<not> xst_running status then
              bindE (settle sv (ex_id e) (xst_exit_code status) (ex_truncated e) Ex_exited) (\<lambda>_. returnE None)
            else returnE (Some (ex_id e, ex_runtime_exec_id e, ex_truncated e)))))"

primrec reconcile_all :: "'s exec_service \<Rightarrow> exec_row list \<Rightarrow> ('s, poller list) op" where
  "reconcile_all sv [] = returnE []"
| "reconcile_all sv (e # es) =
     bindE (reconcile_one sv e) (\<lambda>p.
     bindE (reconcile_all sv es) (\<lambda>ps. returnE (case p of None \<Rightarrow> ps | Some q \<Rightarrow> q # ps)))"

definition exec_reconcile :: "'s exec_service \<Rightarrow> ('s, poller list) op" where
  "exec_reconcile sv =
     bindE (attempt (exr_list_running (exs_repo sv))) (\<lambda>r.
     case r of Inl err \<Rightarrow> throwE (Wrapped [err]) | Inr running \<Rightarrow> reconcile_all sv running)"

text \<open>One tick of a poller: whether it is done.\<close>

definition poll_tick :: "'s exec_service \<Rightarrow> poller \<Rightarrow> ('s, bool) op" where
  "poll_tick sv p =
     (case p of (i, x, trunc) \<Rightarrow>
        bindE (attempt (rt_inspect_exec (exs_rt sv) x)) (\<lambda>r.
        case r of
          Inl _ \<Rightarrow> bindE (settle sv i None trunc Ex_failed) (\<lambda>_. returnE True)
        | Inr status \<Rightarrow>
            if \<not> xst_running status then
              bindE (settle sv i (xst_exit_code status) trunc Ex_exited) (\<lambda>_. returnE True)
            else returnE False))"

section \<open>Laws of the repository\<close>

definition exec_entry :: "exec_row list \<Rightarrow> string \<Rightarrow> exec_row option" where
  "exec_entry rs i = find (\<lambda>x. ex_id x = i) rs"

text \<open>\<open>UPDATE\<close> writes the columns an exec gains while it runs.\<close>

definition progressed :: "exec_row \<Rightarrow> exec_row \<Rightarrow> exec_row" where
  "progressed x y =
     y\<lparr>ex_runtime_exec_id := ex_runtime_exec_id x, ex_state := ex_state x,
       ex_exit_code := ex_exit_code x, ex_output_bytes := ex_output_bytes x,
       ex_truncated := ex_truncated x, ex_finished_at := ex_finished_at x\<rparr>"

definition put_exec :: "exec_row \<Rightarrow> exec_row list \<Rightarrow> exec_row list" where
  "put_exec x rs = map (\<lambda>y. if ex_id y = ex_id x then progressed x y else y) rs"

lemma progressed_id [simp]: "ex_id (progressed x y) = ex_id y"
  by (simp add: progressed_def)

lemma exec_entry_id: "exec_entry rs i = Some x \<Longrightarrow> ex_id x = i \<and> x \<in> set rs"
  unfolding exec_entry_def by (auto dest: find_SomeD)

lemma exec_entry_put [simp]:
  "exec_entry (put_exec x rs) i =
     (if i = ex_id x then map_option (progressed x) (exec_entry rs i) else exec_entry rs i)"
  by (induction rs) (auto simp: exec_entry_def put_exec_def)

lemma exec_entry_append [simp]:
  "exec_entry (rs @ [x]) i =
     (case exec_entry rs i of Some y \<Rightarrow> Some y | None \<Rightarrow> if ex_id x = i then Some x else None)"
  by (induction rs) (auto simp: exec_entry_def split: option.splits)

lemma exec_ids_put [simp]: "map ex_id (put_exec x rs) = map ex_id rs"
  by (simp add: put_exec_def)

locale exec_store =
  fixes repo :: "'s exec_repo"
    and execs :: "'s \<Rightarrow> exec_row list"
    and calm :: "'s \<Rightarrow> bool"
  assumes ex_create_law: "wp (exr_create repo x)
      (\<lambda>_ s'. execs s' = execs s @ [x] \<and> exec_entry (execs s) (ex_id x) = None)
      (\<lambda>_ s'. execs s' = execs s) s"
    and ex_get_law: "wp (exr_get repo i)
      (\<lambda>x s'. execs s' = execs s \<and> exec_entry (execs s) i = Some x \<and> ex_id x = i)
      (\<lambda>_ s'. execs s' = execs s \<and> entails (calm s) (exec_entry (execs s) i = None)) s"
    and ex_list_law: "wp (exr_list_running repo)
      (\<lambda>xs s'. execs s' = execs s \<and> set xs = {x \<in> set (execs s). ex_state x = Ex_running} \<and>
         (distinct (map ex_id (execs s)) \<longrightarrow> distinct (map ex_id xs)))
      (\<lambda>_ s'. execs s' = execs s) s"
    and ex_update_law: "wp (exr_update repo x)
      (\<lambda>_ s'. execs s' = put_exec x (execs s) \<and> exec_entry (execs s) (ex_id x) \<noteq> None)
      (\<lambda>_ s'. execs s' = execs s \<and> entails (calm s) (exec_entry (execs s) (ex_id x) = None)) s"
    and ex_create_calm: "keeps calm (exr_create repo x)"
    and ex_get_calm: "keeps calm (exr_get repo i)"
    and ex_list_calm: "keeps calm (exr_list_running repo)"
    and ex_update_calm: "keeps calm (exr_update repo x)"

section \<open>The service over its store, its runtime and its files\<close>

text \<open>Everything but the rows: the calls of the runtime and the files leave the rows alone.\<close>

locale exec_env = exec_store "exs_repo sv" execs calm
  for sv :: "'s exec_service" and execs :: "'s \<Rightarrow> exec_row list" and calm :: "'s \<Rightarrow> bool" +
  assumes lookup_execs: "leaves execs (exs_sandboxes sv i)"
    and lookup_calm: "keeps calm (exs_sandboxes sv i)"
    and exec_execs: "leaves execs (rt_exec (exs_rt sv) i spec)"
    and exec_calm: "keeps calm (rt_exec (exs_rt sv) i spec)"
    and inspect_execs: "leaves execs (rt_inspect_exec (exs_rt sv) x)"
    and inspect_calm: "keeps calm (rt_inspect_exec (exs_rt sv) x)"
    and recv_execs: "leaves execs (rt_recv (exs_rt sv) x)"
    and recv_calm: "keeps calm (rt_recv (exs_rt sv) x)"
    and wait_execs: "leaves execs (rt_wait (exs_rt sv) x)"
    and wait_calm: "keeps calm (rt_wait (exs_rt sv) x)"
    and close_execs: "leaves execs (rt_close (exs_rt sv) x)"
    and close_calm: "keeps calm (rt_close (exs_rt sv) x)"
    and now_execs: "leaves execs (liftE (exs_now sv))"
    and now_calm: "keeps calm (liftE (exs_now sv))"
    and new_id_execs: "leaves execs (liftE (exs_new_id sv))"
    and new_id_calm: "keeps calm (liftE (exs_new_id sv))"
    and open_execs: "leaves execs (exs_open sv i)"
    and open_calm: "keeps calm (exs_open sv i)"
    and put_log_execs: "execs (exs_put_log sv i dk s) = execs s"
    and put_log_calm: "calm (exs_put_log sv i dk s) = calm s"
    and notify_execs: "execs (exs_notify sv i s) = execs s"
    and notify_calm: "calm (exs_notify sv i s) = calm s"
begin

text \<open>What a call that does not write rows leaves: they, and the calm of the store.\<close>

definition aside :: "'s \<Rightarrow> 's \<Rightarrow> bool" where
  "aside s s' \<longleftrightarrow> execs s' = execs s \<and> entails (calm s) (calm s')"

lemma aside_refl [simp]: "aside s s"
  by (simp add: aside_def entails_def)

lemma aside_trans: "aside s t \<Longrightarrow> aside t u \<Longrightarrow> aside s u"
  by (simp add: aside_def entails_def)

lemma aside_put_log [simp]: "aside s (exs_put_log sv i dk t) = aside s t"
  by (simp add: aside_def put_log_execs put_log_calm)

lemma aside_notify [simp]: "aside s (exs_notify sv i t) = aside s t"
  by (simp add: aside_def notify_execs notify_calm)

lemma aside_after [simp]: "aside (exs_put_log sv i dk s) t = aside s t" "aside (exs_notify sv i s) t = aside s t"
  by (simp_all add: aside_def put_log_execs put_log_calm notify_execs notify_calm)

lemma wp_aside:
  assumes "leaves execs m" "keeps calm m" "\<And>a s'. aside s s' \<Longrightarrow> Q a s'" "\<And>e s'. aside s s' \<Longrightarrow> E e s'"
  shows "wp m Q E s"
proof -
  have "aside s s'" if "m s = (r, s')" for r s'
    using leavesD [OF assms(1) that] keepsD [OF assms(2) _ that] by (simp add: aside_def entails_def)
  then show ?thesis by (intro wpI) (auto intro: assms(3,4))
qed

lemma wp_liftE_aside:
  assumes "leaves execs (liftE m)" "keeps calm (liftE m)" "\<And>a s'. aside s s' \<Longrightarrow> Q a s'"
  shows "wp (liftE m) Q E s"
  by (rule wp_liftE_kept [OF assms(1,2)]) (auto intro: assms(3) simp: aside_def)

lemmas exec_rules =
  wp_aside [OF lookup_execs lookup_calm] wp_aside [OF exec_execs exec_calm]
  wp_aside [OF inspect_execs inspect_calm] wp_aside [OF recv_execs recv_calm]
  wp_aside [OF wait_execs wait_calm] wp_aside [OF close_execs close_calm]
  wp_liftE_aside [OF now_execs now_calm] wp_liftE_aside [OF new_id_execs new_id_calm]
  wp_kept [OF ex_create_law leaves_unit ex_create_calm]
  wp_kept [OF ex_get_law leaves_unit ex_get_calm]
  wp_kept [OF ex_list_law leaves_unit ex_list_calm]
  wp_kept [OF ex_update_law leaves_unit ex_update_calm]

text \<open>The row of \<open>i\<close> was given an outcome; or nothing was written, which a calm store
  excludes for a row that exists.\<close>

definition completes ::
    "string \<Rightarrow> int option \<Rightarrow> int \<Rightarrow> bool \<Rightarrow> exec_state \<Rightarrow> 's \<Rightarrow> 's \<Rightarrow> bool" where
  "completes i code n trunc st s s' \<longleftrightarrow> entails (calm s) (calm s') \<and>
     (execs s' = execs s \<and> entails (calm s) (exec_entry (execs s) i = None) \<or>
      (\<exists>e t. exec_entry (execs s) i = Some e \<and>
         execs s' = put_exec (e\<lparr>ex_state := st, ex_exit_code := code, ex_output_bytes := n,
           ex_truncated := trunc, ex_finished_at := Some t\<rparr>) (execs s)))"

lemma completes_aside: "aside s t \<Longrightarrow> completes i code n trunc st t u \<Longrightarrow> completes i code n trunc st s u"
  by (auto simp: aside_def completes_def entails_def)

lemma completes_then [simp]:
  "completes i code n trunc st s (exs_notify sv j u) = completes i code n trunc st s u"
  by (simp add: completes_def notify_execs notify_calm)

lemma completes_over: "completes i code n trunc st s u \<Longrightarrow> aside u v \<Longrightarrow> completes i code n trunc st s v"
  by (auto simp: aside_def completes_def entails_def)

lemma finish_law: "wp (exec_finish sv i code n trunc st)
    (\<lambda>_ s'. completes i code n trunc st s s') (\<lambda>_ _. False) s"
  unfolding exec_finish_def
  by (intro wp_rules exec_rules) (auto simp: completes_def aside_def entails_def)

lemma open_aside: "wp (open_writer sv i) (\<lambda>_ s'. aside s s') (\<lambda>_ s'. aside s s') s"
  unfolding open_writer_def
  by (intro wp_bind wp_aside [OF open_execs open_calm]) (auto simp: wp_def split: prod.splits)

lemma write_log_aside: "wp (write_log sv i w st d) (\<lambda>_ s'. aside s s') (\<lambda>_ _. False) s"
  by (auto simp: wp_def write_log_def split: prod.splits)

lemma append_gap_aside: "wp (append_gap sv i) (\<lambda>_ s'. aside s s') (\<lambda>_ _. False) s"
  unfolding append_gap_def
  by (intro wp_rules wp_weaken [OF open_aside] wp_weaken [OF write_log_aside]) (auto intro: aside_trans)

lemma settle_law: "wp (settle sv i code trunc st)
    (\<lambda>_ s'. completes i code (log_size sv i s) trunc st s s') (\<lambda>_ _. False) s"
  unfolding settle_def
  by (intro wp_rules wp_weaken [OF finish_law]) auto

end

section \<open>What the operations do to the rows\<close>

lemma put_exec_new:
  "exec_entry R (ex_id x) = None \<Longrightarrow> ex_id y = ex_id x \<Longrightarrow> put_exec y (R @ [x]) = R @ [progressed y x]"
  unfolding put_exec_def exec_entry_def by (auto simp: find_None_iff intro: map_idI)

lemma progressed_self [simp]:
  "progressed (e\<lparr>ex_runtime_exec_id := r\<rparr>) e = e\<lparr>ex_runtime_exec_id := r\<rparr>"
  "progressed (e\<lparr>ex_state := st, ex_finished_at := t\<rparr>) e = e\<lparr>ex_state := st, ex_finished_at := t\<rparr>"
  "progressed (e\<lparr>ex_runtime_exec_id := r, ex_state := st, ex_finished_at := t\<rparr>)
     (e\<lparr>ex_runtime_exec_id := r\<rparr>) = e\<lparr>ex_runtime_exec_id := r, ex_state := st, ex_finished_at := t\<rparr>"
  "progressed (e\<lparr>ex_state := st, ex_exit_code := c, ex_output_bytes := n, ex_truncated := b,
     ex_finished_at := t\<rparr>) e =
   e\<lparr>ex_state := st, ex_exit_code := c, ex_output_bytes := n, ex_truncated := b, ex_finished_at := t\<rparr>"
  by (simp_all add: progressed_def)

lemma new_exec_simps [simp]:
  "ex_id (new_exec opts i now) = i" "ex_state (new_exec opts i now) = Ex_running"
  "ex_sandbox_id (new_exec opts i now) = xo_sandbox_id opts"
  "ex_command (new_exec opts i now) = xo_command opts"
  by (simp_all add: new_exec_def)

text \<open>What became of a row: the outcome it was given, with its exit code when it has one.\<close>

definition concluded :: "exec_row \<Rightarrow> exec_row \<Rightarrow> bool" where
  "concluded e y \<longleftrightarrow>
     (\<exists>st code n trunc t. st \<noteq> Ex_running \<and> (st = Ex_failed \<longrightarrow> code = None) \<and>
        y = e\<lparr>ex_state := st, ex_exit_code := code, ex_output_bytes := n, ex_truncated := trunc,
              ex_finished_at := Some t\<rparr>)"

lemma concludedI:
  "st \<noteq> Ex_running \<Longrightarrow> (st = Ex_failed \<Longrightarrow> code = None) \<Longrightarrow>
     concluded e (e\<lparr>ex_state := st, ex_exit_code := code, ex_output_bytes := n, ex_truncated := trunc,
       ex_finished_at := Some t\<rparr>)"
  unfolding concluded_def by blast

context exec_env
begin

text \<open>A calm \<open>Create\<close> that fails leaves no running row behind.\<close>

lemma create_law:
  assumes "calm s"
  shows "wp (exec_create sv opts)
    (\<lambda>e s'. calm s' \<and> execs s' = execs s @ [e] \<and> ex_state e = Ex_running \<and>
       ex_sandbox_id e = xo_sandbox_id opts \<and> ex_command e = xo_command opts)
    (\<lambda>_ s'. calm s' \<and> (execs s' = execs s \<or>
       (\<exists>x. execs s' = execs s @ [x] \<and> ex_state x = Ex_failed \<and> ex_finished_at x \<noteq> None))) s"
  unfolding exec_create_def exec_mark_failed_def
  by (intro wp_rules exec_rules)
    (use assms in \<open>auto simp: aside_def entails_def put_exec_new\<close>)

lemma completes_concludes:
  assumes "completes i code n trunc st s s'" "calm s" "exec_entry (execs s) i = Some e"
    and "st \<noteq> Ex_running" "st = Ex_failed \<Longrightarrow> code = None"
  shows "calm s'" "\<And>j. j \<noteq> i \<Longrightarrow> exec_entry (execs s') j = exec_entry (execs s) j"
    and "\<exists>y. exec_entry (execs s') i = Some y \<and> concluded e y \<and> ex_truncated y = trunc \<and>
       ex_state y = st \<and> ex_exit_code y = code \<and> ex_output_bytes y = n"
    and "map ex_id (execs s') = map ex_id (execs s)"
proof -
  have i: "ex_id e = i" using exec_entry_id [OF assms(3)] by simp
  obtain t where p: "execs s' = put_exec (e\<lparr>ex_state := st, ex_exit_code := code,
      ex_output_bytes := n, ex_truncated := trunc, ex_finished_at := Some t\<rparr>) (execs s)" and c: "calm s'"
    using assms(1-3) by (auto simp: completes_def entails_def)
  then show "map ex_id (execs s') = map ex_id (execs s)" "calm s'" by simp_all
  show "exec_entry (execs s') j = exec_entry (execs s) j" if "j \<noteq> i" for j
    using that i unfolding p by simp
  have "exec_entry (execs s') i = Some (e\<lparr>ex_state := st, ex_exit_code := code,
      ex_output_bytes := n, ex_truncated := trunc, ex_finished_at := Some t\<rparr>)"
    unfolding p using i assms(3) by simp
  then show "\<exists>y. exec_entry (execs s') i = Some y \<and> concluded e y \<and> ex_truncated y = trunc \<and>
      ex_state y = st \<and> ex_exit_code y = code \<and> ex_output_bytes y = n"
    using assms(4,5) by (auto intro!: concludedI)
qed

lemma pump_aside: "wp (pump n sv i x w) (\<lambda>_ s'. aside s s') (\<lambda>_ _. False) s"
proof (induction n arbitrary: s w)
  case (Suc n)
  show ?case
    unfolding pump.simps
    by (intro wp_rules exec_rules wp_weaken [OF write_log_aside] wp_weaken [OF Suc.IH])
      (auto intro: aside_trans)
qed (simp add: wp_return)

lemma outcome_for_final:
  "outcome_for b c = (st, code) \<Longrightarrow> st \<noteq> Ex_running \<and> (st = Ex_failed \<longrightarrow> code = None) \<and>
     (st = Ex_failed \<longleftrightarrow> code = None) \<and> (st = Ex_exited \<longrightarrow> \<not> b)"
  by (auto simp: outcome_for_def split: sum.splits if_splits)

text \<open>A supervisor ends by giving its row an outcome: an exit code, or a failure without one.\<close>

definition supervised :: "string \<Rightarrow> 's \<Rightarrow> 's \<Rightarrow> bool" where
  "supervised i s s' \<longleftrightarrow>
     (\<exists>code n trunc st. completes i code n trunc st s s' \<and> st \<noteq> Ex_running \<and>
        (st = Ex_failed \<longleftrightarrow> code = None))"

lemma supervisedI:
  "completes i code n trunc st s s' \<Longrightarrow> st \<noteq> Ex_running \<Longrightarrow> (st = Ex_failed \<longleftrightarrow> code = None) \<Longrightarrow>
     supervised i s s'"
  unfolding supervised_def by blast

lemma supervised_frame:
  "supervised i s u \<Longrightarrow> aside u v \<Longrightarrow> supervised i s v"
  "aside r s \<Longrightarrow> supervised i s u \<Longrightarrow> supervised i r u"
  unfolding supervised_def using completes_over completes_aside by blast+

lemma supervised_outcome:
  "completes i code n trunc st s u \<Longrightarrow> outcome_for b c = (st, code) \<Longrightarrow> supervised i s u"
  "completes i None 0 False Ex_failed s u \<Longrightarrow> supervised i s u"
  by (auto dest!: outcome_for_final intro: supervisedI)

lemma wind_up_law: "wp (wind_up sv i x w bad) (\<lambda>over s'. over \<and> supervised i s s') (\<lambda>_ _. False) s"
  unfolding wind_up_def
  by (intro wp_rules wp_weaken [OF finish_law] exec_rules)
    (auto, (blast intro: supervised_frame supervised_outcome)+)

lemma supervise_law: "wp (supervise n sv i x)
    (\<lambda>over s'. if over then supervised i s s' else aside s s') (\<lambda>_ _. False) s"
  unfolding supervise_def
  by (intro wp_rules wp_weaken [OF open_aside] wp_weaken [OF finish_law] wp_weaken [OF pump_aside]
      wp_weaken [OF wind_up_law] exec_rules)
    (auto, (blast intro: supervised_frame supervised_outcome aside_trans)+)

end

section \<open>Reconciliation\<close>

text \<open>What a start-up makes of a row that was running: an outcome, or a poller that will give it one.\<close>

definition recovered :: "exec_row \<Rightarrow> poller option \<Rightarrow> exec_row \<Rightarrow> bool" where
  "recovered e p y \<longleftrightarrow>
     (case p of
        None \<Rightarrow> concluded e y \<and> ex_truncated y = ex_truncated e
      | Some q \<Rightarrow> y = e \<and> q = (ex_id e, ex_runtime_exec_id e, ex_truncated e) \<and> ex_runtime_exec_id e \<noteq> [])"

context exec_env
begin

lemma gone_law: "wp (reconcile_handle_gone sv i trunc)
    (\<lambda>_ s'. \<exists>n. completes i None n trunc Ex_failed s s') (\<lambda>_ _. False) s"
  unfolding reconcile_handle_gone_def
  by (intro wp_rules wp_weaken [OF append_gap_aside] wp_weaken [OF settle_law])
    (auto intro: completes_aside)

definition row_step :: "'s \<Rightarrow> 's \<Rightarrow> exec_row \<Rightarrow> poller option \<Rightarrow> bool" where
  "row_step s s' e p \<longleftrightarrow> calm s' \<and> map ex_id (execs s') = map ex_id (execs s) \<and>
     (\<forall>j. j \<noteq> ex_id e \<longrightarrow> exec_entry (execs s') j = exec_entry (execs s) j) \<and>
     (\<exists>y. exec_entry (execs s') (ex_id e) = Some y \<and> recovered e p y)"

lemma row_step_gave:
  assumes "completes (ex_id e) code n (ex_truncated e) st s s'" "calm s"
    and "exec_entry (execs s) (ex_id e) = Some e" "st \<noteq> Ex_running" "st = Ex_failed \<Longrightarrow> code = None"
  shows "row_step s s' e None"
  using completes_concludes [OF assms] by (auto simp: row_step_def recovered_def)

lemma row_step_waits:
  "aside s s' \<Longrightarrow> calm s \<Longrightarrow> exec_entry (execs s) (ex_id e) = Some e \<Longrightarrow> ex_runtime_exec_id e \<noteq> [] \<Longrightarrow>
     row_step s s' e (Some (ex_id e, ex_runtime_exec_id e, ex_truncated e))"
  by (simp add: row_step_def recovered_def aside_def entails_def)

lemma reconcile_one_law:
  assumes "calm s" "exec_entry (execs s) (ex_id e) = Some e"
  shows "wp (reconcile_one sv e) (\<lambda>p s'. row_step s s' e p) (\<lambda>_ _. False) s"
  unfolding reconcile_one_def
  by (intro wp_rules exec_rules wp_weaken [OF gone_law] wp_weaken [OF append_gap_aside]
      wp_weaken [OF settle_law])
    (auto intro: row_step_waits [OF _ assms] aside_trans row_step_gave [OF _ assms]
      completes_aside)

lemma reconcile_all_law:
  assumes "calm s" "distinct (map ex_id es)" "\<forall>e\<in>set es. exec_entry (execs s) (ex_id e) = Some e"
  shows "wp (reconcile_all sv es)
    (\<lambda>ps s'. calm s' \<and> map ex_id (execs s') = map ex_id (execs s) \<and>
       (\<forall>j. j \<notin> ex_id ` set es \<longrightarrow> exec_entry (execs s') j = exec_entry (execs s) j) \<and>
       (\<forall>e\<in>set es. \<exists>y p. exec_entry (execs s') (ex_id e) = Some y \<and> recovered e p y \<and> set_option p \<subseteq> set ps))
    (\<lambda>_ _. False) s"
  using assms
proof (induction es arbitrary: s)
  case (Cons e es)
  have one: "wp (reconcile_all sv es)
      (\<lambda>ps t. calm t \<and> map ex_id (execs t) = map ex_id (execs s) \<and>
       (\<forall>j. j \<notin> ex_id ` set (e # es) \<longrightarrow> exec_entry (execs t) j = exec_entry (execs s) j) \<and>
       (\<exists>y. exec_entry (execs t) (ex_id e) = Some y \<and> recovered e p y) \<and>
       (\<forall>e\<in>set es. \<exists>y p. exec_entry (execs t) (ex_id e) = Some y \<and> recovered e p y \<and> set_option p \<subseteq> set ps))
      (\<lambda>_ _. False) s'" if st: "row_step s s' e p" for s' p
  proof (rule wp_weaken [OF Cons.IH])
    show "calm s'" "distinct (map ex_id es)" using st Cons.prems by (auto simp: row_step_def)
    show "\<forall>e\<in>set es. exec_entry (execs s') (ex_id e) = Some e"
    proof
      fix f assume f: "f \<in> set es"
      then have "ex_id f \<noteq> ex_id e" using Cons.prems(2) by (metis distinct.simps(2) image_eqI list.map(2) set_map)
      then show "exec_entry (execs s') (ex_id f) = Some f"
        using f st Cons.prems(3) by (simp add: row_step_def)
    qed
  qed (use st Cons.prems(2) in \<open>auto simp: row_step_def\<close>)
  have "wp (reconcile_one sv e) (\<lambda>p s'. row_step s s' e p) (\<lambda>_ _. False) s"
    using Cons.prems by (intro reconcile_one_law) auto
  then show ?case
    unfolding reconcile_all.simps
    by (intro wp_bind wp_weaken [OF \<open>wp (reconcile_one sv e) _ _ s\<close>] wp_weaken [OF one] wp_return)
      (auto split: option.splits, (fastforce dest: subsetD)+)
qed (simp add: wp_return)

text \<open>After a calm start-up every row that was running has an outcome or a poller, and no
  other row has changed.\<close>

lemma reconcile_law:
  assumes "calm s" "distinct (map ex_id (execs s))"
  shows "wp (exec_reconcile sv)
    (\<lambda>ps s'. calm s' \<and> map ex_id (execs s') = map ex_id (execs s) \<and>
       (\<forall>e\<in>set (execs s). \<exists>y. exec_entry (execs s') (ex_id e) = Some y \<and>
          (if ex_state e = Ex_running then \<exists>p. recovered e p y \<and> set_option p \<subseteq> set ps else y = e)))
    (\<lambda>_ s'. aside s s') s"
proof -
  have row: "exec_entry (execs s) (ex_id e) = Some e" if "e \<in> set (execs s)" for e
    unfolding exec_entry_def using find_key_distinct [OF assms(2) that] .
  have all: "wp (reconcile_all sv xs)
      (\<lambda>ps t. calm t \<and> map ex_id (execs t) = map ex_id (execs s) \<and>
       (\<forall>e\<in>set (execs s). \<exists>y. exec_entry (execs t) (ex_id e) = Some y \<and>
          (if ex_state e = Ex_running then \<exists>p. recovered e p y \<and> set_option p \<subseteq> set ps else y = e)))
      (\<lambda>_ _. False) u"
    if u: "execs u = execs s" "calm u" and xs: "set xs = {x \<in> set (execs s). ex_state x = Ex_running}"
      "distinct (map ex_id xs)" for xs u
  proof (rule wp_weaken [OF reconcile_all_law [OF u(2) xs(2)]])
    show "\<forall>e\<in>set xs. exec_entry (execs u) (ex_id e) = Some e" using row xs(1) u(1) by simp
  next
    fix ps t
    assume *: "calm t \<and> map ex_id (execs t) = map ex_id (execs u) \<and>
      (\<forall>j. j \<notin> ex_id ` set xs \<longrightarrow> exec_entry (execs t) j = exec_entry (execs u) j) \<and>
      (\<forall>e\<in>set xs. \<exists>y p. exec_entry (execs t) (ex_id e) = Some y \<and> recovered e p y \<and> set_option p \<subseteq> set ps)"
    have "ex_id e \<notin> ex_id ` set xs" if "e \<in> set (execs s)" "ex_state e \<noteq> Ex_running" for e
    proof
      assume "ex_id e \<in> ex_id ` set xs"
      then obtain x where "x \<in> set (execs s)" "ex_id x = ex_id e" "ex_state x = Ex_running"
        using xs(1) by auto
      then show False using row that by (metis option.inject)
    qed
    then show "calm t \<and> map ex_id (execs t) = map ex_id (execs s) \<and>
      (\<forall>e\<in>set (execs s). \<exists>y. exec_entry (execs t) (ex_id e) = Some y \<and>
         (if ex_state e = Ex_running then \<exists>p. recovered e p y \<and> set_option p \<subseteq> set ps else y = e))"
      using * row u(1) xs(1) by (auto simp: conj_assoc) blast
  qed simp
  show ?thesis
    unfolding exec_reconcile_def
    by (intro wp_rules exec_rules wp_weaken [OF all])
      (use assms in \<open>auto simp: aside_def entails_def\<close>)
qed

end

section \<open>A session copied to its end\<close>

text \<open>
  What a runtime promises of a session it plays: the frames in order, then the end of the
  stream (or an error, after which nothing more is read), then the exit code. \<open>sessions\<close>
  gives the rest of the steps and the code.
\<close>

locale exec_session = exec_env sv execs calm
  for sv :: "'s exec_service" and execs :: "'s \<Rightarrow> exec_row list" and calm :: "'s \<Rightarrow> bool" +
  fixes sessions :: "'s \<Rightarrow> string \<Rightarrow> ((goerr + frame) list \<times> int) option"
  assumes recv_law: "sessions s x = Some (steps, c) \<Longrightarrow> wp (rt_recv (exs_rt sv) x)
      (\<lambda>fr s'. \<exists>xs. steps = Inr fr # xs \<and> sessions s' x = Some (xs, c) \<and> exs_logs sv s' = exs_logs sv s)
      (\<lambda>e s'. (steps = [] \<and> e = Sentinel Io_eof \<or> (\<exists>xs. steps = Inl e # xs)) \<and>
         (\<exists>xs. sessions s' x = Some (xs, c)) \<and> exs_logs sv s' = exs_logs sv s) s"
    and wait_law: "sessions s x = Some (steps, c) \<Longrightarrow> wp (rt_wait (exs_rt sv) x)
      (\<lambda>c' s'. c' = c \<and> exs_logs sv s' = exs_logs sv s) (\<lambda>_ _. False) s"
    and open_law: "wp (exs_open sv i)
      (\<lambda>_ s'. sessions s' = sessions s \<and> exs_logs sv s' = (exs_logs sv s)(i \<mapsto> log_file sv i s))
      (\<lambda>_ _. \<not> calm s) s"
    and logs_put: "exs_logs sv (exs_put_log sv i dk s) = (exs_logs sv s)(i \<mapsto> dk)"
    and logs_notify: "exs_logs sv (exs_notify sv i s) = exs_logs sv s"
    and sessions_put: "sessions (exs_put_log sv i dk s) = sessions s"
    and sessions_notify: "sessions (exs_notify sv i s) = sessions s"
    and get_logs: "leaves (exs_logs sv) (exr_get (exs_repo sv) i)"
    and update_logs: "leaves (exs_logs sv) (exr_update (exs_repo sv) e)"
    and now_logs: "leaves (exs_logs sv) (liftE (exs_now sv))"
    and close_logs: "leaves (exs_logs sv) (rt_close (exs_rt sv) x)"

text \<open>The log entries of a session: one per frame, and a gap when it broke off.\<close>

definition entries_of :: "frame list \<Rightarrow> bool \<Rightarrow> (log_stream \<times> byte list) list" where
  "entries_of frs broken =
     map (\<lambda>f. (to_log_stream (fr_stream f), fr_data f)) frs @ (if broken then [(log_gap, [])] else [])"

text \<open>How a script ends: at the end of the stream, or with some other error.\<close>

definition ends_with :: "(goerr + frame) list \<Rightarrow> bool \<Rightarrow> bool" where
  "ends_with tail broken \<longleftrightarrow>
     (if broken then \<exists>e ts. tail = Inl e # ts \<and> \<not> errors_is e Io_eof else tail = [])"

definition sound_writer :: "log_writer \<Rightarrow> disk \<Rightarrow> bool" where
  "sound_writer w dk \<longleftrightarrow> lw_failed w = None \<and> dk_writes dk = []"

lemma append_sound:
  assumes "sound_writer w dk" "fits d" "log_append w st d dk = (r, w', dk')"
  shows "\<not> isl r \<and> sound_writer w' dk'"
  using assms
  by (auto simp: log_append_def disk_write_def sound_writer_def fits_def Let_def split: if_splits)

context exec_session
begin

lemma log_file_put [simp]: "log_file sv i (exs_put_log sv i dk s) = dk"
  by (simp add: log_file_def logs_put)

lemma log_file_same: "exs_logs sv s' = exs_logs sv s \<Longrightarrow> log_file sv i s' = log_file sv i s"
  by (simp add: log_file_def)

lemma log_file_notify [simp]: "log_file sv i (exs_notify sv j s) = log_file sv i s"
  by (simp add: log_file_def logs_notify)

lemma write_law: "wp (write_log sv i w st d)
    (\<lambda>(r, w') s'. log_append w st d (log_file sv i s) = (r, w', log_file sv i s') \<and>
       sessions s' = sessions s) (\<lambda>_ _. False) s"
  by (auto simp: wp_def write_log_def sessions_put split: prod.splits)

lemma recv_files:
  assumes "sessions s x = Some (steps, c)"
  shows "wp (rt_recv (exs_rt sv) x)
      (\<lambda>fr s'. (\<exists>xs. steps = Inr fr # xs \<and> sessions s' x = Some (xs, c)) \<and> log_file sv i s' = log_file sv i s)
      (\<lambda>e s'. (steps = [] \<and> e = Sentinel Io_eof \<or> (\<exists>xs. steps = Inl e # xs)) \<and>
         (\<exists>xs. sessions s' x = Some (xs, c)) \<and> log_file sv i s' = log_file sv i s) s"
  by (rule wp_weaken [OF recv_law [OF assms]]) (auto simp: log_file_def)

text \<open>With more fuel than frames, the pump writes exactly the entries of the session.\<close>

lemma pump_law:
  assumes "sessions s x = Some (map Inr frs @ tail, c)" "ends_with tail broken" "length frs < n"
    and "sound_writer w (log_file sv i s)" "\<forall>f\<in>set frs. fits (fr_data f)"
  shows "wp (pump n sv i x w)
    (\<lambda>p s'. \<exists>w'. p = Some (w', False) \<and> (\<exists>xs. sessions s' x = Some (xs, c)) \<and>
       log_appends w (entries_of frs broken) (log_file sv i s) = (w', log_file sv i s'))
    (\<lambda>_ _. False) s"
  using assms
proof (induction n arbitrary: s w frs)
  case (Suc n)
  note recv = wp_weaken [OF recv_files [OF Suc.prems(1), of i]]
  show ?case
  proof (cases frs)
    case Nil
    have fit: "fits []" by (simp add: fits_def)
    show ?thesis
      unfolding pump.simps
      by (intro wp_rules recv wp_weaken [OF write_law])
        (use Suc.prems(2,4) Nil in \<open>auto simp: ends_with_def entries_of_def sessions_notify
           split: if_splits dest: append_sound [OF _ fit]\<close>)
  next
    case (Cons f fs)
    have step: "wp (pump n sv i x w')
        (\<lambda>p s'. \<exists>w''. p = Some (w'', False) \<and> (\<exists>xs. sessions s' x = Some (xs, c)) \<and>
           log_appends w (entries_of frs broken) (log_file sv i s) = (w'', log_file sv i s'))
        (\<lambda>_ _. False) (exs_notify sv i t)"
      if "log_append w (to_log_stream (fr_stream f)) (fr_data f) (log_file sv i s) = (r, w', log_file sv i t)"
        "sessions t x = Some (map Inr fs @ tail, c)" for r w' t
    proof -
      have "sound_writer w' (log_file sv i t)"
        using append_sound [OF Suc.prems(4) _ that(1)] Suc.prems(5) Cons by simp
      then show ?thesis
        using that Suc.prems Cons
        by (intro wp_weaken [OF Suc.IH [of "exs_notify sv i t" fs w']]) (auto simp: sessions_notify entries_of_def)
    qed
    have ok: "\<not> isl r" if "log_append w (to_log_stream (fr_stream f)) (fr_data f) (log_file sv i s) = (r, w', dk)" for r w' dk
      using append_sound [OF Suc.prems(4) _ that] Suc.prems(5) Cons by simp
    show ?thesis
      unfolding pump.simps
      by (intro wp_rules recv wp_weaken [OF write_law])
        (use Cons ok in \<open>auto intro!: step [unfolded Cons]\<close>)
  qed
qed simp

end

context exec_session
begin

lemma finish_logs: "leaves (exs_logs sv) (exec_finish sv i code n trunc st)"
  unfolding exec_finish_def
  by (intro leaves_by_keeps keeps_bind keeps_attempt keeps_return keeps_case_sum
      keeps_by_leaves [OF get_logs] keeps_by_leaves [OF update_logs] keeps_by_leaves [OF now_logs])

lemma finish_both: "wp (exec_finish sv i code n trunc st)
    (\<lambda>_ s'. completes i code n trunc st s s' \<and> exs_logs sv s' = exs_logs sv s) (\<lambda>_ _. False) s"
  by (rule wp_framed [OF finish_law finish_logs]) auto

lemma close_both: "wp (rt_close (exs_rt sv) x)
    (\<lambda>_ t. aside s t \<and> exs_logs sv t = exs_logs sv s) (\<lambda>_ t. aside s t \<and> exs_logs sv t = exs_logs sv s) s"
proof -
  have "aside s t \<and> exs_logs sv t = exs_logs sv s" if "rt_close (exs_rt sv) x s = (r, t)" for r t
    using leavesD [OF close_execs that] leavesD [OF close_logs that] keepsD [OF close_calm _ that]
    by (simp add: aside_def entails_def)
  then show ?thesis by (intro wpI) auto
qed

lemma wait_both:
  assumes "sessions s x = Some (steps, c)"
  shows "wp (rt_wait (exs_rt sv) x) (\<lambda>c' t. c' = c \<and> aside s t \<and> exs_logs sv t = exs_logs sv s) (\<lambda>_ _. False) s"
proof -
  have "wp (rt_wait (exs_rt sv) x) (\<lambda>_ t. aside s t) (\<lambda>_ t. aside s t) s"
    by (rule wp_aside [OF wait_execs wait_calm])
  from wp_conj [OF wait_law [OF assms] this] show ?thesis by (rule wp_weaken) auto
qed

lemma open_new:
  assumes "calm s" "exs_logs sv s i = None"
  shows "wp (open_writer sv i)
    (\<lambda>w s'. w = \<lparr>lw_offset = 0, lw_max_bytes = exs_max_bytes sv, lw_truncated = False, lw_failed = None\<rparr> \<and>
       log_file sv i s' = \<lparr>dk_file = [], dk_writes = []\<rparr> \<and> sessions s' = sessions s) (\<lambda>_ _. False) s"
proof -
  have f: "log_file sv i t = \<lparr>dk_file = [], dk_writes = []\<rparr>"
    if "exs_logs sv t = (exs_logs sv s)(i \<mapsto> log_file sv i s)" for t
    using assms(2) that by (simp add: log_file_def)
  show ?thesis
    unfolding open_writer_def
    by (intro wp_bind wp_weaken [OF open_law])
      (use assms(1) in \<open>auto simp: wp_def new_log_writer_def f sessions_put\<close>)
qed

text \<open>A writer that failed nothing, on a session that is over: the outcome is the exit code.\<close>

lemma wind_up_exit:
  assumes "sessions s x = Some (steps, c)"
  shows "wp (wind_up sv i x w False)
    (\<lambda>over s'. over \<and> exs_logs sv s' = exs_logs sv s \<and>
       completes i (Some c) (lw_offset w) (lw_truncated w) Ex_exited s s') (\<lambda>_ _. False) s"
  unfolding wind_up_def
  by (intro wp_rules wp_weaken [OF wait_both [OF assms]] wp_weaken [OF finish_both] wp_weaken [OF close_both])
    (auto simp: outcome_for_def logs_notify intro: completes_aside completes_over)

text \<open>
  The whole life of a supervised exec: its log holds the session's frames up to the cap, and
  its row the exit code, the size of that log, and whether anything was cut.
\<close>

definition copied :: "string \<Rightarrow> int \<Rightarrow> (log_stream \<times> byte list) list \<Rightarrow> exec_row \<Rightarrow> 's \<Rightarrow> bool" where
  "copied i c es e s' \<longleftrightarrow> calm s' \<and> (\<exists>kept y. kept = accepted (exs_max_bytes sv) 0 es \<and>
       dk_file (log_file sv i s') = encode_all kept \<and> exec_entry (execs s') i = Some y \<and>
       concluded e y \<and> ex_state y = Ex_exited \<and> ex_exit_code y = Some c \<and>
       ex_output_bytes y = int (length (encode_all kept)) \<and> ex_truncated y = (kept \<noteq> es))"

lemma copiedI:
  assumes "calm s" "exec_entry (execs s) i = Some e" "\<forall>(st, d)\<in>set es. fits d"
    and "log_appends \<lparr>lw_offset = 0, lw_max_bytes = exs_max_bytes sv, lw_truncated = False, lw_failed = None\<rparr>
           es \<lparr>dk_file = [], dk_writes = []\<rparr> = (w, log_file sv i u)"
    and "aside s u" "exs_logs sv s' = exs_logs sv u"
    and "completes i (Some c) (lw_offset w) (lw_truncated w) Ex_exited u s'"
  shows "copied i c es e s'"
proof -
  have "completes i (Some c) (lw_offset w) (lw_truncated w) Ex_exited s s'"
    using completes_aside [OF assms(5,7)] .
  note row = completes_concludes [OF this assms(1,2)]
  have "log_file sv i s' = log_file sv i u" using assms(6) by (simp add: log_file_def)
  moreover have "in_step w (log_file sv i u) ([] @ accepted (exs_max_bytes sv) 0 es)"
    using appends_law [OF _ _ _ _ assms(3,4), of "[]"] by (simp add: in_step_def)
  moreover have "lw_truncated w = (accepted (exs_max_bytes sv) 0 es \<noteq> es)"
    using appends_flag [OF _ _ _ assms(3,4)] by simp
  ultimately show ?thesis
    using row unfolding copied_def in_step_def by auto
qed

lemma supervise_copies:
  assumes "calm s" "exec_entry (execs s) i = Some e" "exs_logs sv s i = None"
    and "sessions s x = Some (map Inr frs @ tail, c)" "ends_with tail broken" "length frs < n"
    and "\<forall>f\<in>set frs. fits (fr_data f)"
  shows "wp (supervise n sv i x)
    (\<lambda>over s'. over \<and> copied i c (entries_of frs broken) e s') (\<lambda>_ _. False) s"
proof -
  let ?w = "\<lparr>lw_offset = 0, lw_max_bytes = exs_max_bytes sv, lw_truncated = False, lw_failed = None\<rparr>"
  let ?es = "entries_of frs broken" and ?d = "\<lparr>dk_file = [], dk_writes = []\<rparr>"
  have fit: "\<forall>(st, d)\<in>set ?es. fits d"
    using assms(7) by (auto simp: entries_of_def fits_def)
  have opened: "wp (open_writer sv i)
      (\<lambda>w t. (w = ?w \<and> log_file sv i t = ?d \<and> sessions t = sessions s) \<and> aside s t) (\<lambda>_ _. False) s"
    using wp_conj [OF open_new [OF assms(1,3)] open_aside] by (rule wp_weaken) auto
  have pumped: "wp (pump n sv i x ?w)
      (\<lambda>p u. (\<exists>w'. p = Some (w', False) \<and> (\<exists>xs. sessions u x = Some (xs, c)) \<and>
         log_appends ?w ?es ?d = (w', log_file sv i u)) \<and> aside s u) (\<lambda>_ _. False) t"
    if "log_file sv i t = ?d" "sessions t = sessions s" "aside s t" for t
    using that assms(4-7)
    by (intro wp_weaken [OF wp_conj [OF pump_law pump_aside]])
      (auto simp: sound_writer_def intro: aside_trans)
  have wound: "wp (wind_up sv i x w' False) (\<lambda>over s'. over \<and> copied i c ?es e s') (\<lambda>_ _. False) u"
    if "sessions u x = Some (xs, c)" "log_appends ?w ?es ?d = (w', log_file sv i u)" "aside s u" for u xs w'
    by (rule wp_weaken [OF wind_up_exit [OF that(1)]])
      (use copiedI [OF assms(1,2) fit that(2,3)] in auto)
  have rest: "wp (pump n sv i x ?w) (\<lambda>p. wp (case p of None \<Rightarrow> returnE False
        | Some wb \<Rightarrow> wind_up sv i x (fst wb) (snd wb)) (\<lambda>over s'. over \<and> copied i c ?es e s') (\<lambda>_ _. False))
      (\<lambda>_ _. False) t"
    if "log_file sv i t = ?d" "sessions t = sessions s" "aside s t" for t
    by (rule wp_weaken [OF pumped [OF that]]) (auto intro: wound)
  show ?thesis
    unfolding supervise_def
    by (intro wp_bind wp_attempt wp_case_sum_Inr wp_weaken [OF opened]) (auto intro: rest)
qed

end

end
