(* ===== verification/Store.thy ===== *)
theory Store
  imports Sandbox_Outcomes Auth Audit_Log Exec "HOL-Library.AList"
begin

text \<open>
  \<open>internal/store/sqlite\<close>: the tables as lists of rows in insertion order, one definition per
  repository method, and the five repositories as records, each interpreted as the store
  its service relies on. A statement is atomic; \<open>db_faults\<close> says which of the coming
  statements the driver fails without executing them. What SQLite checks is written out
  from the migrations: primary keys, the partial unique indexes on live names, the unique
  token hash, and the foreign keys (switched on by \<open>Open\<close>). Columns are stored
  and read back unchanged: times in the fixed-width format, maps and lists as JSON.
\<close>

record db =
  db_sandboxes :: "sandbox list"
  db_snapshots :: "snapshot list"
  db_execs :: "exec_row list"
  db_tokens :: "token list"
  db_events :: "event list"
  db_settings :: "(string \<times> string) list"
  db_faults :: "bool list"

definition db_empty :: db where
  "db_empty = \<lparr>db_sandboxes = [], db_snapshots = [], db_execs = [], db_tokens = [], db_events = [],
     db_settings = [], db_faults = []\<rparr>"

text \<open>One statement: the driver fails it, or it runs.\<close>

definition statement :: "(db \<Rightarrow> (goerr + 'a) \<times> db) \<Rightarrow> (db, 'a) op" where
  "statement f d =
     (case db_faults d of
        [] \<Rightarrow> f d
      | b # bs \<Rightarrow> if b then (Inl Opaque, d\<lparr>db_faults := bs\<rparr>) else f (d\<lparr>db_faults := bs\<rparr>))"

text \<open>\<open>SELECT ... ORDER BY id\<close>, with the optional cursor and limit.\<close>

definition page :: "('a \<Rightarrow> string) \<Rightarrow> string \<Rightarrow> int \<Rightarrow> ('a \<Rightarrow> bool) \<Rightarrow> 'a list \<Rightarrow> 'a list" where
  "page key cursor limit P rs =
     limit_to limit (sort_key key (filter (\<lambda>r. P r \<and> (cursor \<noteq> [] \<longrightarrow> cursor < key r)) rs))"

text \<open>The messages of violated constraints, and the test the repositories make of them.\<close>

definition unique_message :: "string \<Rightarrow> string" where
  "unique_message column = ''UNIQUE constraint failed: '' @ column"

definition foreign_key_message :: string where
  "foreign_key_message = ''FOREIGN KEY constraint failed''"

fun strings_contains :: "string \<Rightarrow> string \<Rightarrow> bool" where
  "strings_contains [] p = (p = [])"
| "strings_contains (c # cs) p = (take (length p) (c # cs) = p \<or> strings_contains cs p)"

definition name_error :: "string \<Rightarrow> sentinel \<Rightarrow> string \<Rightarrow> goerr" where
  "name_error column taken msg = (if strings_contains msg column then wrapf taken else Opaque)"

section \<open>Sandboxes\<close>

definition sandbox_live_named :: "string \<Rightarrow> sandbox \<Rightarrow> bool" where
  "sandbox_live_named n y \<longleftrightarrow> n \<noteq> [] \<and> sb_name y = n \<and> sb_state y \<noteq> St_destroyed"

definition sandbox_clash :: "sandbox \<Rightarrow> sandbox list \<Rightarrow> bool" where
  "sandbox_clash x rs \<longleftrightarrow>
     sb_state x \<noteq> St_destroyed \<and> list_ex (sandbox_live_named (sb_name x)) rs"

definition other_sandboxes :: "sandbox \<Rightarrow> sandbox list \<Rightarrow> sandbox list" where
  "other_sandboxes x rs = filter (\<lambda>y. sb_id y \<noteq> sb_id x) rs"

definition sandbox_violation :: "sandbox \<Rightarrow> sandbox list \<Rightarrow> string option" where
  "sandbox_violation x rs =
     (if sandbox_clash x rs then Some (unique_message ''sandboxes.name'')
      else if sandbox_row rs (sb_id x) \<noteq> None then Some (unique_message ''sandboxes.id'')
      else None)"

definition sq_sandbox_create :: "sandbox \<Rightarrow> (db, unit) op" where
  "sq_sandbox_create x =
     statement (\<lambda>d. case sandbox_violation x (db_sandboxes d) of
        Some msg \<Rightarrow> (Inl (name_error ''sandboxes.name'' Sb_name_taken msg), d)
      | None \<Rightarrow> (Inr (), d\<lparr>db_sandboxes := db_sandboxes d @ [x]\<rparr>))"

definition sq_sandbox_get :: "string \<Rightarrow> (db, sandbox) op" where
  "sq_sandbox_get i =
     statement (\<lambda>d. (case sandbox_row (db_sandboxes d) i of
        None \<Rightarrow> Inl (Sentinel Sb_not_found) | Some x \<Rightarrow> Inr x, d))"

definition sq_sandbox_get_by_name :: "string \<Rightarrow> (db, sandbox) op" where
  "sq_sandbox_get_by_name n =
     statement (\<lambda>d. (case find (\<lambda>x. sb_name x = n \<and> sb_state x \<noteq> St_destroyed) (db_sandboxes d) of
        None \<Rightarrow> Inl (Sentinel Sb_not_found) | Some x \<Rightarrow> Inr x, d))"

definition sandbox_selected :: "sandbox_filter \<Rightarrow> sandbox \<Rightarrow> bool" where
  "sandbox_selected f x \<longleftrightarrow>
     (if sf_states f \<noteq> [] then state_string (sb_state x) \<in> set (sf_states f) else sb_state x \<noteq> St_destroyed) \<and>
     list_all (\<lambda>(k, v). sb_labels x k = Some v) (sf_labels f)"

definition sq_sandbox_list :: "sandbox_filter \<Rightarrow> (db, sandbox list) op" where
  "sq_sandbox_list f =
     statement (\<lambda>d. (Inr (page sb_id (sf_cursor f) (sf_limit f) (sandbox_selected f) (db_sandboxes d)), d))"

definition sq_sandbox_update :: "sandbox \<Rightarrow> (db, unit) op" where
  "sq_sandbox_update x =
     statement (\<lambda>d.
       if sandbox_row (db_sandboxes d) (sb_id x) = None then (Inl (wrapf Sb_not_found), d)
       else if sandbox_clash x (other_sandboxes x (db_sandboxes d))
       then (Inl (name_error ''sandboxes.name'' Sb_name_taken (unique_message ''sandboxes.name'')), d)
       else (Inr (), d\<lparr>db_sandboxes := put_row x (db_sandboxes d)\<rparr>))"

definition sq_sandboxes :: "db sandbox_repo" where
  "sq_sandboxes =
     \<lparr>sbr_create = sq_sandbox_create, sbr_get = sq_sandbox_get, sbr_get_by_name = sq_sandbox_get_by_name,
      sbr_list = sq_sandbox_list, sbr_update = sq_sandbox_update\<rparr>"

section \<open>Snapshots\<close>

definition snapshot_violation :: "snapshot \<Rightarrow> db \<Rightarrow> string option" where
  "snapshot_violation x d =
     (if sn_name x \<noteq> [] \<and> list_ex (\<lambda>y. sn_name y = sn_name x) (db_snapshots d)
      then Some (unique_message ''snapshots.name'')
      else if snapshot_row (db_snapshots d) (sn_id x) \<noteq> None then Some (unique_message ''snapshots.id'')
      else if sandbox_row (db_sandboxes d) (sn_sandbox_id x) = None then Some foreign_key_message
      else case sn_parent_id x of
        None \<Rightarrow> None
      | Some p \<Rightarrow> if snapshot_row (db_snapshots d) p = None \<and> p \<noteq> sn_id x then Some foreign_key_message else None)"

definition sq_snapshot_create :: "snapshot \<Rightarrow> (db, unit) op" where
  "sq_snapshot_create x =
     statement (\<lambda>d. case snapshot_violation x d of
        Some msg \<Rightarrow> (Inl (name_error ''snapshots.name'' Snap_name_taken msg), d)
      | None \<Rightarrow> (Inr (), d\<lparr>db_snapshots := db_snapshots d @ [x]\<rparr>))"

definition sq_snapshot_get :: "string \<Rightarrow> (db, snapshot) op" where
  "sq_snapshot_get i =
     statement (\<lambda>d. (case snapshot_row (db_snapshots d) i of
        None \<Rightarrow> Inl (Sentinel Snap_not_found) | Some x \<Rightarrow> Inr x, d))"

definition sq_snapshot_get_by_name :: "string \<Rightarrow> (db, snapshot) op" where
  "sq_snapshot_get_by_name n =
     statement (\<lambda>d. (case find (\<lambda>x. sn_name x = n) (db_snapshots d) of
        None \<Rightarrow> Inl (Sentinel Snap_not_found) | Some x \<Rightarrow> Inr x, d))"

definition snapshot_selected :: "snapshot_filter \<Rightarrow> snapshot \<Rightarrow> bool" where
  "snapshot_selected f x \<longleftrightarrow> (snf_sandbox_id f \<noteq> [] \<longrightarrow> sn_sandbox_id x = snf_sandbox_id f)"

definition sq_snapshot_list :: "snapshot_filter \<Rightarrow> (db, snapshot list) op" where
  "sq_snapshot_list f =
     statement (\<lambda>d. (Inr (page sn_id (snf_cursor f) (snf_limit f) (snapshot_selected f) (db_snapshots d)), d))"

definition sq_count_children :: "string \<Rightarrow> (db, int) op" where
  "sq_count_children i = statement (\<lambda>d. (Inr (int (length (children (db_snapshots d) i))), d))"

text \<open>\<open>DELETE\<close> is refused while another row's \<open>parent_id\<close> refers to this one.\<close>

definition sq_snapshot_delete :: "string \<Rightarrow> (db, unit) op" where
  "sq_snapshot_delete i =
     statement (\<lambda>d.
       if snapshot_row (db_snapshots d) i = None then (Inl (wrapf Snap_not_found), d)
       else if list_ex (\<lambda>y. sn_parent_id y = Some i \<and> sn_id y \<noteq> i) (db_snapshots d) then (Inl Opaque, d)
       else (Inr (), d\<lparr>db_snapshots := filter (\<lambda>x. sn_id x \<noteq> i) (db_snapshots d)\<rparr>))"

definition sq_snapshots :: "db snapshot_repo" where
  "sq_snapshots =
     \<lparr>snr_create = sq_snapshot_create, snr_get = sq_snapshot_get, snr_get_by_name = sq_snapshot_get_by_name,
      snr_list = sq_snapshot_list, snr_count_children = sq_count_children, snr_delete = sq_snapshot_delete\<rparr>"

section \<open>Execs\<close>

definition sq_exec_create :: "exec_row \<Rightarrow> (db, unit) op" where
  "sq_exec_create x =
     statement (\<lambda>d.
       if exec_entry (db_execs d) (ex_id x) \<noteq> None then (Inl Opaque, d)
       else if sandbox_row (db_sandboxes d) (ex_sandbox_id x) = None then (Inl Opaque, d)
       else (Inr (), d\<lparr>db_execs := db_execs d @ [x]\<rparr>))"

definition sq_exec_get :: "string \<Rightarrow> (db, exec_row) op" where
  "sq_exec_get i =
     statement (\<lambda>d. (case exec_entry (db_execs d) i of
        None \<Rightarrow> Inl (Sentinel Exec_not_found) | Some x \<Rightarrow> Inr x, d))"

definition sq_exec_list_by_sandbox :: "string \<Rightarrow> exec_filter \<Rightarrow> (db, exec_row list) op" where
  "sq_exec_list_by_sandbox sandbox f =
     statement (\<lambda>d. (Inr (page ex_id (exf_cursor f) (exf_limit f) (\<lambda>x. ex_sandbox_id x = sandbox) (db_execs d)), d))"

definition sq_exec_list_running :: "(db, exec_row list) op" where
  "sq_exec_list_running =
     statement (\<lambda>d. (Inr (sort_key ex_id (filter (\<lambda>x. ex_state x = Ex_running) (db_execs d))), d))"

definition sq_exec_update :: "exec_row \<Rightarrow> (db, unit) op" where
  "sq_exec_update x =
     statement (\<lambda>d.
       if exec_entry (db_execs d) (ex_id x) = None then (Inl (wrapf Exec_not_found), d)
       else (Inr (), d\<lparr>db_execs := put_exec x (db_execs d)\<rparr>))"

definition sq_execs :: "db exec_repo" where
  "sq_execs =
     \<lparr>exr_create = sq_exec_create, exr_get = sq_exec_get, exr_list_by_sandbox = sq_exec_list_by_sandbox,
      exr_list_running = sq_exec_list_running, exr_update = sq_exec_update\<rparr>"

section \<open>Tokens\<close>

text \<open>SQLite checks the newest index first: the live name, then the hash, then the id.\<close>

definition token_clash :: "token \<Rightarrow> token list \<Rightarrow> bool" where
  "token_clash t ts \<longleftrightarrow>
     tk_revoked_at t = None \<and> list_ex (\<lambda>y. tk_name y = tk_name t \<and> tk_revoked_at y = None) ts"

definition token_hash_clash :: "token \<Rightarrow> token list \<Rightarrow> bool" where
  "token_hash_clash t ts \<longleftrightarrow> list_ex (\<lambda>y. tk_hash y = tk_hash t) ts"

definition other_tokens :: "token \<Rightarrow> token list \<Rightarrow> token list" where
  "other_tokens t ts = filter (\<lambda>y. tk_id y \<noteq> tk_id t) ts"

definition token_violation :: "token \<Rightarrow> token list \<Rightarrow> string option" where
  "token_violation t ts =
     (if token_clash t ts then Some (unique_message ''tokens.name'')
      else if token_hash_clash t ts then Some (unique_message ''tokens.hash'')
      else if token_row ts (tk_id t) \<noteq> None then Some (unique_message ''tokens.id'')
      else None)"

definition sq_token_create :: "token \<Rightarrow> (db, unit) op" where
  "sq_token_create t =
     statement (\<lambda>d. case token_violation t (db_tokens d) of
        Some msg \<Rightarrow> (Inl (name_error ''tokens.name'' Auth_name_taken msg), d)
      | None \<Rightarrow> (Inr (), d\<lparr>db_tokens := db_tokens d @ [t]\<rparr>))"

definition sq_token_find :: "(token \<Rightarrow> bool) \<Rightarrow> (db, token) op" where
  "sq_token_find P =
     statement (\<lambda>d. (case find P (db_tokens d) of
        None \<Rightarrow> Inl (Sentinel Auth_not_found) | Some t \<Rightarrow> Inr t, d))"

definition sq_token_get :: "string \<Rightarrow> (db, token) op" where
  "sq_token_get i = sq_token_find (\<lambda>t. tk_id t = i)"

definition sq_token_get_by_hash :: "string \<Rightarrow> (db, token) op" where
  "sq_token_get_by_hash h = sq_token_find (\<lambda>t. tk_hash t = h)"

definition sq_token_get_by_name :: "string \<Rightarrow> (db, token) op" where
  "sq_token_get_by_name n = sq_token_find (\<lambda>t. tk_name t = n \<and> tk_revoked_at t = None)"

definition sq_token_list :: "(db, token list) op" where
  "sq_token_list = statement (\<lambda>d. (Inr (sort_key tk_id (db_tokens d)), d))"

definition put_token :: "token \<Rightarrow> token list \<Rightarrow> token list" where
  "put_token t ts = map (\<lambda>y. if tk_id y = tk_id t then t\<lparr>tk_created_at := tk_created_at y\<rparr> else y) ts"

definition sq_token_update :: "token \<Rightarrow> (db, unit) op" where
  "sq_token_update t =
     statement (\<lambda>d.
       if token_row (db_tokens d) (tk_id t) = None then (Inl (Sentinel Auth_not_found), d)
       else if token_clash t (other_tokens t (db_tokens d)) \<or> token_hash_clash t (other_tokens t (db_tokens d))
       then (Inl Opaque, d)
       else (Inr (), d\<lparr>db_tokens := put_token t (db_tokens d)\<rparr>))"

definition sq_token_touch :: "string \<Rightarrow> time \<Rightarrow> (db, unit) op" where
  "sq_token_touch i at =
     statement (\<lambda>d. (Inr (), d\<lparr>db_tokens :=
       map (\<lambda>t. if tk_id t = i then t\<lparr>tk_last_used_at := Some at\<rparr> else t) (db_tokens d)\<rparr>))"

definition sq_tokens :: "db token_repo" where
  "sq_tokens =
     \<lparr>tkr_create = sq_token_create, tkr_get = sq_token_get, tkr_get_by_hash = sq_token_get_by_hash,
      tkr_get_by_name = sq_token_get_by_name, tkr_list = sq_token_list, tkr_update = sq_token_update,
      tkr_touch = sq_token_touch\<rparr>"

section \<open>Events\<close>

definition sq_event_create :: "event \<Rightarrow> (db, unit) op" where
  "sq_event_create e =
     statement (\<lambda>d.
       if ev_id e \<in> ev_id ` set (db_events d) then (Inl Opaque, d)
       else (Inr (), d\<lparr>db_events := db_events d @ [e]\<rparr>))"

definition sq_event_list :: "event_filter \<Rightarrow> (db, event list) op" where
  "sq_event_list f =
     statement (\<lambda>d. (Inr (limit_to (ef_limit f) (newest_first (filter (event_matches f) (db_events d)))), d))"

definition sq_event_delete_older :: "time \<Rightarrow> (db, int) op" where
  "sq_event_delete_older cutoff =
     statement (\<lambda>d.
       (Inr (int (length (filter (\<lambda>e. ev_timestamp e < cutoff) (db_events d)))),
        d\<lparr>db_events := filter (\<lambda>e. \<not> ev_timestamp e < cutoff) (db_events d)\<rparr>))"

text \<open>A negative \<open>LIMIT\<close> is no limit in SQLite; the service only passes a positive one.\<close>

definition sq_event_delete_beyond :: "int \<Rightarrow> (db, int) op" where
  "sq_event_delete_beyond keep =
     statement (\<lambda>d.
       let ids = map ev_id (if keep < 0 then newest_first (db_events d)
                            else take (nat keep) (newest_first (db_events d)))
       in (Inr (int (length (filter (\<lambda>e. ev_id e \<notin> set ids) (db_events d)))),
           d\<lparr>db_events := filter (\<lambda>e. ev_id e \<in> set ids) (db_events d)\<rparr>))"

definition sq_events :: "db event_repo" where
  "sq_events =
     \<lparr>evr_create = sq_event_create, evr_list = sq_event_list, evr_delete_older = sq_event_delete_older,
      evr_delete_beyond = sq_event_delete_beyond\<rparr>"

section \<open>Settings\<close>

definition sq_setting_get :: "string \<Rightarrow> (db, string option) op" where
  "sq_setting_get k = statement (\<lambda>d. (Inr (map_of (db_settings d) k), d))"

definition sq_setting_set :: "string \<Rightarrow> string \<Rightarrow> (db, unit) op" where
  "sq_setting_set k v = statement (\<lambda>d. (Inr (), d\<lparr>db_settings := AList.update k v (db_settings d)\<rparr>))"

definition sq_setting_delete :: "string \<Rightarrow> (db, unit) op" where
  "sq_setting_delete k = statement (\<lambda>d. (Inr (), d\<lparr>db_settings := AList.delete k (db_settings d)\<rparr>))"

definition sq_settings :: "db settings_store" where
  "sq_settings = \<lparr>set_get = sq_setting_get, set_set = sq_setting_set, set_delete = sq_setting_delete\<rparr>"

section \<open>What the schema keeps\<close>

definition live_names_unique :: "sandbox list \<Rightarrow> bool" where
  "live_names_unique rs \<longleftrightarrow>
     (\<forall>x\<in>set rs. \<forall>y\<in>set rs. sandbox_live_named (sb_name x) x \<and> sandbox_live_named (sb_name x) y \<longrightarrow>
        sb_id x = sb_id y)"

definition snapshots_linked :: "db \<Rightarrow> bool" where
  "snapshots_linked d \<longleftrightarrow>
     (\<forall>x\<in>set (db_snapshots d).
        sn_sandbox_id x \<in> sb_id ` set (db_sandboxes d) \<and>
        (\<forall>p. sn_parent_id x = Some p \<longrightarrow> p \<in> sn_id ` set (db_snapshots d)))"

definition tokens_unique :: "token list \<Rightarrow> bool" where
  "tokens_unique ts \<longleftrightarrow> distinct (map tk_id ts) \<and>
     (\<forall>x\<in>set ts. \<forall>y\<in>set ts. tk_hash x = tk_hash y \<or>
        tk_name x = tk_name y \<and> tk_revoked_at x = None \<and> tk_revoked_at y = None \<longrightarrow> tk_id x = tk_id y)"

definition db_ok :: "db \<Rightarrow> bool" where
  "db_ok d \<longleftrightarrow>
     distinct (map sb_id (db_sandboxes d)) \<and> live_names_unique (db_sandboxes d) \<and>
     distinct (map sn_id (db_snapshots d)) \<and>
     distinct (filter (\<lambda>n. n \<noteq> []) (map sn_name (db_snapshots d))) \<and> snapshots_linked d \<and>
     distinct (map ex_id (db_execs d)) \<and>
     (\<forall>x\<in>set (db_execs d). ex_sandbox_id x \<in> sb_id ` set (db_sandboxes d)) \<and>
     distinct (map ev_id (db_events d)) \<and> tokens_unique (db_tokens d)"

text \<open>A store that is well-formed and will not fail.\<close>

definition db_calm :: "db \<Rightarrow> bool" where
  "db_calm d \<longleftrightarrow> db_ok d \<and> True \<notin> set (db_faults d)"

lemma db_ok_faults [simp]: "db_ok (d\<lparr>db_faults := bs\<rparr>) = db_ok d"
  by (simp add: db_ok_def snapshots_linked_def)

text \<open>Running one statement: what it needs, and that nothing but its own rows changes.\<close>

lemma wp_statement:
  assumes "wp f Q E (d\<lparr>db_faults := tl (db_faults d)\<rparr>)"
    and "True \<in> set (db_faults d) \<Longrightarrow> E Opaque (d\<lparr>db_faults := tl (db_faults d)\<rparr>)"
  shows "wp (statement f) Q E d"
proof (cases "db_faults d")
  case Nil
  then have same: "d\<lparr>db_faults := tl (db_faults d)\<rparr> = d" by (cases d) simp
  show ?thesis using assms(1) [unfolded same] Nil by (simp add: wp_def statement_def)
qed (use assms in \<open>auto simp: wp_def statement_def\<close>)

lemma leaves_statement:
  assumes "\<And>d. v (snd (f d)) = v d" "\<And>d bs. v (d\<lparr>db_faults := bs\<rparr>) = v d"
  shows "leaves v (statement f)"
  using assms by (auto simp: leaves_def statement_def split: list.splits)

lemma keeps_statement:
  assumes "\<And>d. db_ok d \<Longrightarrow> db_ok (snd (f d))" "\<And>d. db_faults (snd (f d)) = db_faults d"
  shows "keeps db_calm (statement f)" "keeps db_ok (statement f)"
  using assms by (auto simp: keeps_def statement_def db_calm_def split: list.splits)

section \<open>Every statement keeps the schema\<close>

lemma sandbox_row_mem: "sandbox_row rs i \<noteq> None \<longleftrightarrow> i \<in> sb_id ` set rs"
  by (auto simp: sandbox_row_none)

lemma sandbox_row_fresh: "sandbox_row rs i = None \<longleftrightarrow> i \<notin> sb_id ` set rs"
  by (auto simp: sandbox_row_none)

lemma snapshot_row_mem: "snapshot_row rs i \<noteq> None \<longleftrightarrow> i \<in> sn_id ` set rs"
  by (auto simp: snapshot_row_def find_None_iff)

lemma exec_entry_mem: "exec_entry rs i \<noteq> None \<longleftrightarrow> i \<in> ex_id ` set rs"
  by (auto simp: exec_entry_def find_None_iff)

lemma token_row_mem: "token_row rs i \<noteq> None \<longleftrightarrow> i \<in> tk_id ` set rs"
  by (auto simp: token_row_def find_None_iff)

lemma live_named_sym:
  "sandbox_live_named (sb_name x) y \<Longrightarrow> sb_state x \<noteq> St_destroyed \<Longrightarrow> sandbox_live_named (sb_name y) x"
  by (simp add: sandbox_live_named_def)

lemma live_names_uniqueD:
  "live_names_unique rs \<Longrightarrow> x \<in> set rs \<Longrightarrow> y \<in> set rs \<Longrightarrow> sandbox_live_named (sb_name x) x \<Longrightarrow>
     sandbox_live_named (sb_name x) y \<Longrightarrow> sb_id x = sb_id y"
  unfolding live_names_unique_def by blast

lemma no_clash:
  "\<not> sandbox_clash x rs \<Longrightarrow> y \<in> set rs \<Longrightarrow> sandbox_live_named (sb_name x) y \<Longrightarrow> sb_state x = St_destroyed"
  by (auto simp: sandbox_clash_def list_ex_iff)

lemma live_names_append:
  assumes "live_names_unique rs" "\<not> sandbox_clash x rs"
  shows "live_names_unique (rs @ [x])"
proof -
  have "\<not> (sandbox_live_named (sb_name x) y \<and> sb_state x \<noteq> St_destroyed)" if "y \<in> set rs" for y
    using no_clash [OF assms(2) that] by blast
  note free = this
  show ?thesis
    unfolding live_names_unique_def
  proof (intro ballI impI)
    fix a b
    assume ab: "a \<in> set (rs @ [x])" "b \<in> set (rs @ [x])"
      and live: "sandbox_live_named (sb_name a) a \<and> sandbox_live_named (sb_name a) b"
    show "sb_id a = sb_id b"
    proof (cases "a \<in> set rs \<and> b \<in> set rs")
      case True
      then show ?thesis using assms(1) live unfolding live_names_unique_def by blast
    next
      case False
      then show ?thesis using ab live free [of a] free [of b] by (auto simp: sandbox_live_named_def)
    qed
  qed
qed

lemma live_names_put:
  assumes "live_names_unique rs" "\<not> sandbox_clash x (other_sandboxes x rs)"
  shows "live_names_unique (put_row x rs)"
  unfolding live_names_unique_def
proof (intro ballI impI)
  fix a b
  assume ab: "a \<in> set (put_row x rs)" "b \<in> set (put_row x rs)"
    and live: "sandbox_live_named (sb_name a) a \<and> sandbox_live_named (sb_name a) b"
  have free: "\<not> (sandbox_live_named (sb_name x) y \<and> sb_state x \<noteq> St_destroyed)"
    if "y \<in> set rs" "sb_id y \<noteq> sb_id x" for y
    using no_clash [OF assms(2), of y] that by (auto simp: other_sandboxes_def)
  show "sb_id a = sb_id b"
    using set_put_row [OF ab(1)] set_put_row [OF ab(2)]
  proof (elim disjE bexE conjE)
    assume "a \<in> set rs" "b \<in> set rs"
    then show ?thesis using assms(1) live unfolding live_names_unique_def by blast
  next
    fix y assume "a \<in> set rs" "sb_id a \<noteq> sb_id x" "b = x\<lparr>sb_created_at := sb_created_at y\<rparr>"
    then show ?thesis using free [of a] live by (auto simp: sandbox_live_named_def)
  next
    fix y assume "b \<in> set rs" "sb_id b \<noteq> sb_id x" "a = x\<lparr>sb_created_at := sb_created_at y\<rparr>"
    then show ?thesis using free [of b] live by (auto simp: sandbox_live_named_def)
  qed simp
qed

lemma sandbox_ids_put: "sb_id ` set (put_row x rs) = sb_id ` set rs"
  by (metis ids_put_row set_map)

lemma db_ok_sandbox_rows:
  assumes "db_ok d" "distinct (map sb_id rs)" "live_names_unique rs"
    and "sb_id ` set (db_sandboxes d) \<subseteq> sb_id ` set rs"
  shows "db_ok (d\<lparr>db_sandboxes := rs\<rparr>)"
  using assms by (auto simp: db_ok_def snapshots_linked_def subset_eq)

lemma db_ok_ids:
  "db_ok d \<Longrightarrow> distinct (map sb_id (db_sandboxes d))" "db_ok d \<Longrightarrow> live_names_unique (db_sandboxes d)"
  "db_ok d \<Longrightarrow> distinct (map sn_id (db_snapshots d))" "db_ok d \<Longrightarrow> distinct (map ex_id (db_execs d))"
  "db_ok d \<Longrightarrow> distinct (map ev_id (db_events d))" "db_ok d \<Longrightarrow> tokens_unique (db_tokens d)"
  "db_ok d \<Longrightarrow> snapshots_linked d"
  by (simp_all add: db_ok_def)

lemma sandbox_create_calm: "keeps db_calm (sq_sandbox_create x)"
  unfolding sq_sandbox_create_def
  by (rule keeps_statement)
    (auto simp: sandbox_violation_def sandbox_row_fresh db_ok_ids split: option.splits if_splits
      intro!: db_ok_sandbox_rows live_names_append)

lemma sandbox_update_calm: "keeps db_calm (sq_sandbox_update x)"
  unfolding sq_sandbox_update_def
  by (rule keeps_statement)
    (auto simp: sandbox_ids_put db_ok_ids intro!: db_ok_sandbox_rows live_names_put)

lemma sandbox_reads_calm:
  "keeps db_calm (sq_sandbox_get i)" "keeps db_calm (sq_sandbox_get_by_name i)"
  "keeps db_calm (sq_sandbox_list f)"
  unfolding sq_sandbox_get_def sq_sandbox_get_by_name_def sq_sandbox_list_def
  by (rule keeps_statement; simp)+

lemma snapshot_row_fresh: "snapshot_row rs i = None \<longleftrightarrow> i \<notin> sn_id ` set rs"
  by (auto simp: snapshot_row_def find_None_iff)

lemma exec_entry_fresh: "exec_entry rs i = None \<longleftrightarrow> i \<notin> ex_id ` set rs"
  by (auto simp: exec_entry_def find_None_iff)

lemma token_row_fresh: "token_row rs i = None \<longleftrightarrow> i \<notin> tk_id ` set rs"
  by (auto simp: token_row_def find_None_iff)

lemma snapshot_create_calm: "keeps db_calm (sq_snapshot_create x)"
  unfolding sq_snapshot_create_def
  by (rule keeps_statement)
    (auto simp: snapshot_violation_def snapshot_row_fresh sandbox_row_fresh db_ok_def snapshots_linked_def list_ex_iff
      split: option.splits if_splits)

lemma filter_names: "distinct (filter (\<lambda>n. n \<noteq> []) (map f xs)) \<Longrightarrow>
    distinct (filter (\<lambda>n. n \<noteq> []) (map f (filter P xs)))"
  by (induction xs) auto

lemma snapshot_delete_calm: "keeps db_calm (sq_snapshot_delete i)"
  unfolding sq_snapshot_delete_def
proof (rule keeps_statement)
  fix d assume ok: "db_ok d"
  have "db_ok (d\<lparr>db_snapshots := filter (\<lambda>x. sn_id x \<noteq> i) (db_snapshots d)\<rparr>)"
    if "\<not> list_ex (\<lambda>y. sn_parent_id y = Some i \<and> sn_id y \<noteq> i) (db_snapshots d)"
  proof -
    have "snapshots_linked (d\<lparr>db_snapshots := filter (\<lambda>x. sn_id x \<noteq> i) (db_snapshots d)\<rparr>)"
      using ok that by (fastforce simp: db_ok_def snapshots_linked_def list_ex_iff)
    then show ?thesis
      using ok by (simp add: db_ok_def distinct_map_filter filter_names)
  qed
  then show "db_ok (snd (if snapshot_row (db_snapshots d) i = None then (Inl (wrapf Snap_not_found), d)
       else if list_ex (\<lambda>y. sn_parent_id y = Some i \<and> sn_id y \<noteq> i) (db_snapshots d) then (Inl Opaque, d)
       else (Inr (), d\<lparr>db_snapshots := filter (\<lambda>x. sn_id x \<noteq> i) (db_snapshots d)\<rparr>)))"
    using ok by simp
qed simp

lemma snapshot_reads_calm:
  "keeps db_calm (sq_snapshot_get i)" "keeps db_calm (sq_snapshot_get_by_name i)"
  "keeps db_calm (sq_snapshot_list f)" "keeps db_calm (sq_count_children i)"
  unfolding sq_snapshot_get_def sq_snapshot_get_by_name_def sq_snapshot_list_def sq_count_children_def
  by (rule keeps_statement; simp)+

lemma exec_create_calm: "keeps db_calm (sq_exec_create x)"
  unfolding sq_exec_create_def
  by (rule keeps_statement)
    (auto simp: exec_entry_fresh sandbox_row_fresh db_ok_def snapshots_linked_def)

lemma exec_update_calm: "keeps db_calm (sq_exec_update x)"
  unfolding sq_exec_update_def
  by (rule keeps_statement)
    (auto simp: db_ok_def snapshots_linked_def, auto simp: put_exec_def progressed_def)

lemma exec_reads_calm:
  "keeps db_calm (sq_exec_get i)" "keeps db_calm (sq_exec_list_by_sandbox i f)"
  "keeps db_calm sq_exec_list_running"
  unfolding sq_exec_get_def sq_exec_list_by_sandbox_def sq_exec_list_running_def
  by (rule keeps_statement; simp)+

lemma event_calm:
  "keeps db_calm (sq_event_create e)" "keeps db_calm (sq_event_list f)"
  "keeps db_calm (sq_event_delete_older t)" "keeps db_calm (sq_event_delete_beyond n)"
  unfolding sq_event_create_def sq_event_list_def sq_event_delete_older_def sq_event_delete_beyond_def
  by (rule keeps_statement; auto simp: db_ok_def snapshots_linked_def distinct_map_filter Let_def)+

lemma setting_calm:
  "keeps db_calm (sq_setting_get k)" "keeps db_calm (sq_setting_set k v)" "keeps db_calm (sq_setting_delete k)"
  unfolding sq_setting_get_def sq_setting_set_def sq_setting_delete_def
  by (rule keeps_statement; simp add: db_ok_def snapshots_linked_def)+

lemma tokens_unique_ids: "tokens_unique ts \<Longrightarrow> distinct (map tk_id ts)"
  and tokens_uniqueD: "tokens_unique ts \<Longrightarrow> x \<in> set ts \<Longrightarrow> y \<in> set ts \<Longrightarrow>
    tk_hash x = tk_hash y \<or> tk_name x = tk_name y \<and> tk_revoked_at x = None \<and> tk_revoked_at y = None \<Longrightarrow>
    tk_id x = tk_id y"
  unfolding tokens_unique_def by blast+

lemma tokens_unique_append:
  assumes "tokens_unique ts" "\<not> token_clash t ts" "\<not> token_hash_clash t ts" "tk_id t \<notin> tk_id ` set ts"
  shows "tokens_unique (ts @ [t])"
proof -
  have "\<not> (tk_hash t = tk_hash y \<or> tk_name t = tk_name y \<and> tk_revoked_at t = None \<and> tk_revoked_at y = None)"
    if "y \<in> set ts" for y
    using assms(2,3) that by (auto simp: token_clash_def token_hash_clash_def list_ex_iff)
  note free = this
  show ?thesis
    unfolding tokens_unique_def
  proof (intro conjI ballI impI)
    fix x y
    assume xy: "x \<in> set (ts @ [t])" "y \<in> set (ts @ [t])"
      and same: "tk_hash x = tk_hash y \<or>
        tk_name x = tk_name y \<and> tk_revoked_at x = None \<and> tk_revoked_at y = None"
    show "tk_id x = tk_id y"
    proof (cases "x \<in> set ts \<and> y \<in> set ts")
      case True
      then show ?thesis using assms(1) same unfolding tokens_unique_def by blast
    next
      case False
      then show ?thesis using xy same free [of x] free [of y] by auto
    qed
  qed (use tokens_unique_ids [OF assms(1)] assms(4) in simp)
qed

lemma set_put_token:
  "z \<in> set (put_token t ts) \<Longrightarrow> (z \<in> set ts \<and> tk_id z \<noteq> tk_id t) \<or>
     (\<exists>y\<in>set ts. tk_id y = tk_id t \<and> z = t\<lparr>tk_created_at := tk_created_at y\<rparr>)"
  by (auto simp: put_token_def)

lemma put_token_ids [simp]: "map tk_id (put_token t ts) = map tk_id ts"
  by (simp add: put_token_def)

lemma tokens_unique_put:
  assumes "tokens_unique ts" "\<not> token_clash t (other_tokens t ts)" "\<not> token_hash_clash t (other_tokens t ts)"
  shows "tokens_unique (put_token t ts)"
proof -
  have free: "\<not> (tk_hash t = tk_hash y \<or> tk_name t = tk_name y \<and> tk_revoked_at t = None \<and> tk_revoked_at y = None)"
    if "y \<in> set ts" "tk_id y \<noteq> tk_id t" for y
    using assms(2,3) that by (auto simp: token_clash_def token_hash_clash_def other_tokens_def list_ex_iff)
  show ?thesis
    unfolding tokens_unique_def
  proof (intro conjI ballI impI)
    fix x y
    assume xy: "x \<in> set (put_token t ts)" "y \<in> set (put_token t ts)"
      and same: "tk_hash x = tk_hash y \<or>
        tk_name x = tk_name y \<and> tk_revoked_at x = None \<and> tk_revoked_at y = None"
    show "tk_id x = tk_id y"
      using set_put_token [OF xy(1)] set_put_token [OF xy(2)]
    proof (elim disjE bexE conjE)
      assume "x \<in> set ts" "y \<in> set ts"
      then show ?thesis using assms(1) same unfolding tokens_unique_def by blast
    next
      fix z assume "x \<in> set ts" "tk_id x \<noteq> tk_id t" "y = t\<lparr>tk_created_at := tk_created_at z\<rparr>"
      then show ?thesis using free [of x] same by auto
    next
      fix z assume "y \<in> set ts" "tk_id y \<noteq> tk_id t" "x = t\<lparr>tk_created_at := tk_created_at z\<rparr>"
      then show ?thesis using free [of y] same by auto
    qed simp
  qed (use tokens_unique_ids [OF assms(1)] in simp)
qed

lemma db_ok_tokens: "db_ok d \<Longrightarrow> tokens_unique ts \<Longrightarrow> db_ok (d\<lparr>db_tokens := ts\<rparr>)"
  by (simp add: db_ok_def snapshots_linked_def)

lemma tokens_unique_touch:
  assumes "tokens_unique ts"
  shows "tokens_unique (map (\<lambda>t. if tk_id t = i then t\<lparr>tk_last_used_at := at\<rparr> else t) ts)"
    (is "tokens_unique (map ?f ts)")
proof -
  have f: "tk_id (?f t) = tk_id t" "tk_hash (?f t) = tk_hash t" "tk_name (?f t) = tk_name t"
    "tk_revoked_at (?f t) = tk_revoked_at t" for t
    by simp_all
  have "tk_id (?f x) = tk_id (?f y)"
    if "x \<in> set ts" "y \<in> set ts" "tk_hash (?f x) = tk_hash (?f y) \<or>
      tk_name (?f x) = tk_name (?f y) \<and> tk_revoked_at (?f x) = None \<and> tk_revoked_at (?f y) = None" for x y
    using tokens_uniqueD [OF assms that(1,2)] that(3) unfolding f by blast
  moreover have "distinct (map tk_id (map ?f ts))"
    using tokens_unique_ids [OF assms] by (simp add: map_key_update [of ts tk_id ?f, unfolded map_map])
  ultimately show ?thesis unfolding tokens_unique_def set_map by blast
qed

lemma token_calm:
  "keeps db_calm (sq_token_create t)" "keeps db_calm (sq_token_find P)" "keeps db_calm sq_token_list"
  "keeps db_calm (sq_token_update t)" "keeps db_calm (sq_token_touch i at)"
  unfolding sq_token_create_def sq_token_find_def sq_token_list_def sq_token_update_def sq_token_touch_def
  by (rule keeps_statement;
      auto simp: token_violation_def token_row_fresh db_ok_ids split: option.splits if_splits
        intro!: db_ok_tokens tokens_unique_append tokens_unique_put tokens_unique_touch)+

section \<open>The repositories keep their contracts\<close>

lemma sq_ops [simp]:
  "sbr_create sq_sandboxes = sq_sandbox_create" "sbr_get sq_sandboxes = sq_sandbox_get"
  "sbr_get_by_name sq_sandboxes = sq_sandbox_get_by_name" "sbr_list sq_sandboxes = sq_sandbox_list"
  "sbr_update sq_sandboxes = sq_sandbox_update"
  "snr_create sq_snapshots = sq_snapshot_create" "snr_get sq_snapshots = sq_snapshot_get"
  "snr_get_by_name sq_snapshots = sq_snapshot_get_by_name" "snr_list sq_snapshots = sq_snapshot_list"
  "snr_count_children sq_snapshots = sq_count_children" "snr_delete sq_snapshots = sq_snapshot_delete"
  "exr_create sq_execs = sq_exec_create" "exr_get sq_execs = sq_exec_get"
  "exr_list_by_sandbox sq_execs = sq_exec_list_by_sandbox"
  "exr_list_running sq_execs = sq_exec_list_running" "exr_update sq_execs = sq_exec_update"
  "tkr_create sq_tokens = sq_token_create" "tkr_get sq_tokens = sq_token_get"
  "tkr_get_by_hash sq_tokens = sq_token_get_by_hash" "tkr_get_by_name sq_tokens = sq_token_get_by_name"
  "tkr_list sq_tokens = sq_token_list" "tkr_update sq_tokens = sq_token_update"
  "tkr_touch sq_tokens = sq_token_touch"
  "evr_create sq_events = sq_event_create" "evr_list sq_events = sq_event_list"
  "evr_delete_older sq_events = sq_event_delete_older" "evr_delete_beyond sq_events = sq_event_delete_beyond"
  "set_get sq_settings = sq_setting_get" "set_set sq_settings = sq_setting_set"
  "set_delete sq_settings = sq_setting_delete"
  by (simp_all add: sq_sandboxes_def sq_snapshots_def sq_execs_def sq_tokens_def sq_events_def sq_settings_def)

lemma set_page: "set (page key c n P rs) \<subseteq> set rs"
  by (auto simp: page_def limit_to_def dest: in_set_takeD)

lemma find_row: "find P rs = Some x \<Longrightarrow> x \<in> set rs \<and> P x"
  by (rule find_SomeD)

lemma calm_clash:
  assumes "live_names_unique rs" "sandbox_clash x (other_sandboxes x rs)" "sandbox_row rs (sb_id x) \<noteq> None"
  shows "may_refuse rs x"
proof -
  obtain y where y: "sandbox_row rs (sb_id x) = Some y" using assms(3) by blast
  obtain z where z: "z \<in> set rs" "sb_id z \<noteq> sb_id x" "sandbox_live_named (sb_name x) z" "sb_state x \<noteq> St_destroyed"
    using assms(2) by (auto simp: sandbox_clash_def other_sandboxes_def list_ex_iff)
  have "sb_id y = sb_id z" if "sb_name y = sb_name x" "sb_state y \<noteq> St_destroyed"
  proof -
    have "sandbox_live_named (sb_name z) z \<and> sandbox_live_named (sb_name z) y"
      using that z(3) by (auto simp: sandbox_live_named_def)
    then show ?thesis
      using assms(1) z(1) sandbox_row_id [OF y] unfolding live_names_unique_def by metis
  qed
  then show ?thesis
    using y z(2) sandbox_row_id [OF y] by (auto simp: may_refuse_def)
qed

lemmas sq_defs =
  sq_sandbox_create_def sq_sandbox_get_def sq_sandbox_get_by_name_def sq_sandbox_list_def
  sq_snapshot_create_def sq_snapshot_get_def sq_snapshot_get_by_name_def sq_snapshot_list_def
  sq_count_children_def sq_snapshot_delete_def sq_exec_create_def sq_exec_get_def sq_exec_update_def
  sq_exec_list_by_sandbox_def sq_exec_list_running_def sq_token_create_def sq_token_find_def
  sq_token_get_def sq_token_get_by_hash_def sq_token_get_by_name_def sq_token_list_def
  sq_token_update_def sq_token_touch_def sq_event_create_def sq_event_list_def
  sq_event_delete_older_def sq_event_delete_beyond_def sq_setting_get_def sq_setting_set_def
  sq_setting_delete_def

lemmas sq_calm =
  sandbox_create_calm sandbox_update_calm sandbox_reads_calm snapshot_create_calm snapshot_delete_calm
  snapshot_reads_calm exec_create_calm exec_update_calm exec_reads_calm event_calm setting_calm token_calm

interpretation sq_sandbox: sandbox_store sq_sandboxes db_sandboxes db_calm
proof unfold_locales
  fix x d
  show "wp (sbr_create sq_sandboxes x)
      (\<lambda>_ s'. db_sandboxes s' = db_sandboxes d @ [x] \<and> sandbox_row (db_sandboxes d) (sb_id x) = None)
      (\<lambda>_ s'. db_sandboxes s' = db_sandboxes d) d"
    unfolding sq_ops sq_sandbox_create_def
    by (rule wp_statement)
      (auto simp: wp_def sandbox_violation_def split: option.splits prod.splits if_splits)
  show "wp (sbr_update sq_sandboxes x)
      (\<lambda>_ s'. db_sandboxes s' = put_row x (db_sandboxes d) \<and> sandbox_row (db_sandboxes d) (sb_id x) \<noteq> None)
      (\<lambda>_ s'. db_sandboxes s' = db_sandboxes d \<and> entails (db_calm d) (may_refuse (db_sandboxes d) x)) d"
    unfolding sq_ops sq_sandbox_update_def
    by (rule wp_statement)
      (auto simp: wp_def entails_def db_calm_def db_ok_ids calm_clash,
        auto simp: may_refuse_def split: option.splits)
  fix i
  show "wp (sbr_get sq_sandboxes i)
      (\<lambda>x s'. db_sandboxes s' = db_sandboxes d \<and> sandbox_row (db_sandboxes d) i = Some x \<and> sb_id x = i)
      (\<lambda>_ s'. db_sandboxes s' = db_sandboxes d \<and> entails (db_calm d) (sandbox_row (db_sandboxes d) i = None)) d"
    unfolding sq_ops sq_sandbox_get_def
    by (rule wp_statement) (auto simp: wp_def entails_def db_calm_def sandbox_row_id split: option.splits)
  fix n
  show "wp (sbr_get_by_name sq_sandboxes n)
      (\<lambda>x s'. db_sandboxes s' = db_sandboxes d \<and> x \<in> set (db_sandboxes d) \<and> sb_name x = n \<and>
         sb_state x \<noteq> St_destroyed) (\<lambda>_ s'. db_sandboxes s' = db_sandboxes d) d"
    unfolding sq_ops sq_sandbox_get_by_name_def
    by (rule wp_statement) (auto simp: wp_def split: option.splits dest: find_row)
  fix f
  show "wp (sbr_list sq_sandboxes f)
      (\<lambda>xs s'. db_sandboxes s' = db_sandboxes d \<and> set xs \<subseteq> set (db_sandboxes d))
      (\<lambda>_ s'. db_sandboxes s' = db_sandboxes d) d"
    unfolding sq_ops sq_sandbox_list_def
    by (rule wp_statement) (auto simp: wp_def dest: set_page [THEN subsetD])
qed (simp_all add: sq_calm)

interpretation sq_snapshot: snapshot_store sq_snapshots db_snapshots
proof unfold_locales
  fix f
  show "leaves db_snapshots (snr_list sq_snapshots f)"
    unfolding sq_ops sq_snapshot_list_def by (rule leaves_statement) simp_all
qed (unfold sq_ops, unfold sq_defs, (rule wp_statement;
     auto simp: wp_def snapshot_violation_def split: option.splits if_splits dest: find_row)+)

interpretation sq_exec: exec_store sq_execs db_execs db_calm
proof unfold_locales
  fix d i x
  show "wp (exr_list_running sq_execs)
      (\<lambda>xs s'. db_execs s' = db_execs d \<and> set xs = {x \<in> set (db_execs d). ex_state x = Ex_running} \<and>
         (distinct (map ex_id (db_execs d)) \<longrightarrow> distinct (map ex_id xs)))
      (\<lambda>_ s'. db_execs s' = db_execs d) d"
    unfolding sq_ops sq_exec_list_running_def
    by (rule wp_statement) (auto simp: wp_def distinct_map inj_on_def)
  show "wp (exr_create sq_execs x)
      (\<lambda>_ s'. db_execs s' = db_execs d @ [x] \<and> exec_entry (db_execs d) (ex_id x) = None)
      (\<lambda>_ s'. db_execs s' = db_execs d) d"
    unfolding sq_ops sq_exec_create_def by (rule wp_statement) (auto simp: wp_def)
  show "wp (exr_get sq_execs i)
      (\<lambda>x s'. db_execs s' = db_execs d \<and> exec_entry (db_execs d) i = Some x \<and> ex_id x = i)
      (\<lambda>_ s'. db_execs s' = db_execs d \<and> entails (db_calm d) (exec_entry (db_execs d) i = None)) d"
    unfolding sq_ops sq_exec_get_def
    by (rule wp_statement)
      (auto simp: wp_def entails_def db_calm_def exec_entry_id split: option.splits)
  show "wp (exr_update sq_execs x)
      (\<lambda>_ s'. db_execs s' = put_exec x (db_execs d) \<and> exec_entry (db_execs d) (ex_id x) \<noteq> None)
      (\<lambda>_ s'. db_execs s' = db_execs d \<and> entails (db_calm d) (exec_entry (db_execs d) (ex_id x) = None)) d"
    unfolding sq_ops sq_exec_update_def
    by (rule wp_statement) (auto simp: wp_def entails_def db_calm_def)
qed (simp_all add: sq_calm)

lemma put_token_wrote:
  assumes "token_row ts (tk_id t) \<noteq> None"
  shows "wrote_token t ts (put_token t ts)"
proof -
  obtain y where y: "y \<in> set ts" "tk_id y = tk_id t"
    using assms unfolding token_row_mem by auto
  then have "t\<lparr>tk_created_at := tk_created_at y\<rparr> \<in> set (put_token t ts)"
    by (force simp: put_token_def)
  then show ?thesis
    by (auto simp: wrote_token_def updated_token_def dest!: set_put_token)
      (auto simp: put_token_def)
qed

interpretation sq_token: token_store sq_tokens db_tokens
proof unfold_locales
  fix t d
  show "wp (tkr_update sq_tokens t)
      (\<lambda>_ s'. wrote_token t (db_tokens d) (db_tokens s')) (\<lambda>_ s'. db_tokens s' = db_tokens d) d"
    unfolding sq_ops sq_token_update_def
    by (rule wp_statement) (auto simp: wp_def intro!: put_token_wrote)
  fix i at
  show "wp (tkr_touch sq_tokens i at)
      (\<lambda>_ s'. map unused (db_tokens s') = map unused (db_tokens d)) (\<lambda>_ s'. db_tokens s' = db_tokens d) d"
    unfolding sq_ops sq_token_touch_def
    by (rule wp_statement) (auto simp: wp_def unused_def)
qed (unfold sq_ops, unfold sq_defs, (rule wp_statement;
     auto simp: wp_def token_violation_def split: option.splits if_splits dest: find_row)+)

interpretation sq_log: event_store sq_events db_events
proof unfold_locales
  fix cutoff d
  show "wp (evr_delete_older sq_events cutoff)
      (\<lambda>n s'. db_events s' = expire cutoff (db_events d) \<and>
         n = int (length (db_events d)) - int (length (db_events s')))
      (\<lambda>_ s'. db_events s' = db_events d) d"
    unfolding sq_ops sq_event_delete_older_def
    using sum_length_filter_compl [of "\<lambda>e. ev_timestamp e < cutoff" "db_events d"]
    by (intro wp_statement) (auto simp: wp_def expire_def)
  fix keep :: int
  assume "0 < keep"
  then show "wp (evr_delete_beyond sq_events keep)
      (\<lambda>n s'. db_events s' = trim_to keep (db_events d) \<and>
         n = int (length (db_events d)) - int (length (db_events s')))
      (\<lambda>_ s'. db_events s' = db_events d) d"
    unfolding sq_ops sq_event_delete_beyond_def
    using sum_length_filter_compl [of "\<lambda>e. ev_id e \<in> newest_ids keep (db_events d)" "db_events d"]
    by (intro wp_statement) (auto simp: wp_def trim_to_def newest_ids_def Let_def)
qed (unfold sq_ops, unfold sq_defs, (rule wp_statement;
     auto simp: wp_def audit_query_def split: option.splits if_splits)+)

end
