(* ===== verification/Paths.thy ===== *)
theory Paths
  imports Prelude
begin

text \<open>
  The Go string and path functions the program calls (\<open>strings.Split\<close>,
  \<open>strings.Cut\<close>, \<open>strings.HasPrefix\<close>, \<open>path.Clean\<close>, \<open>path.Join\<close>, \<open>path.Dir\<close>,
  \<open>path.Base\<close>), with their laws: cleaning is idempotent, a cleaned relative path
  escapes exactly when its first element is \<open>..\<close>, and joining a path that does not
  escape stays under the directory it is joined to.
\<close>

section \<open>Strings\<close>

abbreviation slash :: char where
  "slash \<equiv> CHR ''/''"

fun split_on :: "char \<Rightarrow> string \<Rightarrow> string list" where
  "split_on c [] = [[]]"
| "split_on c (x # xs) =
     (if x = c then [] # split_on c xs
      else (case split_on c xs of [] \<Rightarrow> [[x]] | y # ys \<Rightarrow> (x # y) # ys))"

fun join_with :: "char \<Rightarrow> string list \<Rightarrow> string" where
  "join_with c [] = []"
| "join_with c [x] = x"
| "join_with c (x # y # ys) = x @ c # join_with c (y # ys)"

definition has_prefix :: "string \<Rightarrow> string \<Rightarrow> bool" where
  "has_prefix s p \<longleftrightarrow> take (length p) s = p"

definition trim_suffix :: "string \<Rightarrow> string \<Rightarrow> string" where
  "trim_suffix s p =
     (if length p \<le> length s \<and> drop (length s - length p) s = p
      then take (length s - length p) s else s)"

text \<open>\<open>strings.Cut(s, sep)\<close> with a one-character separator.\<close>

fun cut :: "char \<Rightarrow> string \<Rightarrow> string \<times> string \<times> bool" where
  "cut c [] = ([], [], False)"
| "cut c (x # xs) =
     (if x = c then ([], xs, True)
      else (case cut c xs of (a, b, found) \<Rightarrow> (x # a, b, found)))"

lemma split_on_not_Nil [simp]: "split_on c s \<noteq> []"
  by (induction s) (auto split: list.splits)

lemma split_on_no_sep: "e \<in> set (split_on c s) \<Longrightarrow> c \<notin> set e"
proof (induction s arbitrary: e)
  case (Cons x xs)
  then show ?case
    by (cases "split_on c xs") (auto split: if_splits)
qed simp

lemma split_on_plain: "c \<notin> set s \<Longrightarrow> split_on c s = [s]"
  by (induction s) auto

lemma split_on_append_sep:
  "split_on c (s @ c # t) = split_on c s @ split_on c t"
  by (induction s) (auto split: list.splits)

lemma split_on_join:
  assumes "xs \<noteq> []" "\<And>x. x \<in> set xs \<Longrightarrow> c \<notin> set x"
  shows "split_on c (join_with c xs) = xs"
  using assms
  by (induction c xs rule: join_with.induct) (auto simp: split_on_plain split_on_append_sep)

lemma join_split [simp]: "join_with c (split_on c s) = s"
proof (induction s)
  case (Cons x xs)
  then show ?case
    by (cases "split_on c xs"; cases "tl (split_on c xs)") auto
qed simp

lemma cut_spec:
  "cut c s = (a, b, found) \<Longrightarrow>
     (found \<longrightarrow> s = a @ c # b \<and> c \<notin> set a) \<and> (\<not> found \<longrightarrow> a = s \<and> b = [] \<and> c \<notin> set s)"
  by (induction s arbitrary: a b found) (auto split: if_splits prod.splits)

lemma has_prefix_iff: "has_prefix s p \<longleftrightarrow> (\<exists>t. s = p @ t)"
  by (auto simp: has_prefix_def) (metis append_take_drop_id)

section \<open>Lexical path cleaning\<close>

text \<open>
  \<open>path.Clean\<close> walks the elements keeping a stack: empty elements and \<open>.\<close> vanish,
  \<open>..\<close> removes the element before it, is dropped at the root of a rooted path and is
  kept at the front of a relative one. The stack is kept top first.
\<close>

fun clean_stack :: "bool \<Rightarrow> string list \<Rightarrow> string list \<Rightarrow> string list" where
  "clean_stack rooted st [] = st"
| "clean_stack rooted st (e # es) =
     (if e = '''' \<or> e = ''.'' then clean_stack rooted st es
      else if e = ''..'' then
        (case st of
           [] \<Rightarrow> clean_stack rooted (if rooted then [] else [''..'']) es
         | t # ts \<Rightarrow>
             if t = ''..'' then clean_stack rooted (''..'' # st) es
             else clean_stack rooted ts es)
      else clean_stack rooted (e # st) es)"

definition is_abs :: "string \<Rightarrow> bool" where
  "is_abs p \<longleftrightarrow> has_prefix p ''/''"

definition path_elems :: "string \<Rightarrow> string list" where
  "path_elems p = rev (clean_stack (is_abs p) [] (split_on slash p))"

definition render_path :: "bool \<Rightarrow> string list \<Rightarrow> string" where
  "render_path rooted es =
     (if rooted then slash # join_with slash es
      else if es = [] then ''.'' else join_with slash es)"

definition path_clean :: "string \<Rightarrow> string" where
  "path_clean p = render_path (is_abs p) (path_elems p)"

definition path_join :: "string list \<Rightarrow> string" where
  "path_join es =
     (let ne = filter (\<lambda>e. e \<noteq> []) es
      in if ne = [] then [] else path_clean (join_with slash ne))"

text \<open>\<open>path.Split\<close> keeps everything up to and including the last slash.\<close>

definition path_split_dir :: "string \<Rightarrow> string" where
  "path_split_dir p = rev (dropWhile (\<lambda>c. c \<noteq> slash) (rev p))"

definition path_dir :: "string \<Rightarrow> string" where
  "path_dir p = path_clean (path_split_dir p)"

definition path_base :: "string \<Rightarrow> string" where
  "path_base p =
     (if p = [] then ''.''
      else let q = rev (dropWhile (\<lambda>c. c = slash) (rev p));
               b = rev (takeWhile (\<lambda>c. c \<noteq> slash) (rev q))
           in if b = [] then ''/'' else b)"

subsection \<open>The stack\<close>

lemma clean_stack_append:
  "clean_stack r st (xs @ ys) = clean_stack r (clean_stack r st xs) ys"
  by (induction r st xs rule: clean_stack.induct) (auto split: list.splits)

text \<open>A plain element is one cleaning keeps as it is.\<close>

definition plain_elem :: "string \<Rightarrow> bool" where
  "plain_elem e \<longleftrightarrow> e \<noteq> '''' \<and> e \<noteq> ''.'' \<and> e \<noteq> ''..'' \<and> slash \<notin> set e"

text \<open>A cleaned stack: plain elements over, at most, a bottom of \<open>..\<close>.\<close>

fun clean_form :: "bool \<Rightarrow> string list \<Rightarrow> bool" where
  "clean_form rooted [] = True"
| "clean_form rooted (e # st) =
     ((plain_elem e \<or> (\<not> rooted \<and> e = ''..'' \<and> set st \<subseteq> {''..''})) \<and> clean_form rooted st)"

lemma clean_form_dotdots: "set st \<subseteq> {''..''} \<Longrightarrow> \<not> rooted \<Longrightarrow> clean_form rooted st"
  by (induction st) auto

lemma clean_form_below: "clean_form r (''..'' # st) \<Longrightarrow> set st \<subseteq> {''..''}"
  by (simp add: plain_elem_def)

lemma clean_stack_form:
  "clean_form r st \<Longrightarrow> (\<forall>e\<in>set es. slash \<notin> set e) \<Longrightarrow> clean_form r (clean_stack r st es)"
  by (induction r st es rule: clean_stack.induct)
    (auto simp: plain_elem_def split: list.splits)

lemma clean_form_elems: "clean_form r st \<Longrightarrow> e \<in> set st \<Longrightarrow> plain_elem e \<or> e = ''..''"
  by (induction st) auto

lemma clean_form_rooted: "clean_form True st \<Longrightarrow> e \<in> set st \<Longrightarrow> plain_elem e"
  by (induction st) auto

lemma clean_form_last:
  "clean_form r st \<Longrightarrow> ''..'' \<in> set st \<Longrightarrow> last st = ''..''"
  by (induction st) (auto simp: plain_elem_def split: if_splits dest: subsetD [OF _ last_in_set])

lemma clean_form_append2: "clean_form r (xs @ ys) \<Longrightarrow> clean_form r ys"
  by (induction xs) auto

lemma clean_form_elem:
  assumes "clean_form r st" "e \<in> set st"
  shows "e \<noteq> '''' \<and> slash \<notin> set e"
  using clean_form_elems [OF assms] by (auto simp: plain_elem_def)

lemma path_elems_form: "clean_form (is_abs p) (rev (path_elems p))"
  unfolding path_elems_def rev_rev_ident
  by (rule clean_stack_form) (auto dest: split_on_no_sep)

lemma path_elems_no_slash: "e \<in> set (path_elems p) \<Longrightarrow> slash \<notin> set e"
  using clean_form_elem [OF path_elems_form, of e p] by simp

lemma path_elems_nonempty: "e \<in> set (path_elems p) \<Longrightarrow> e \<noteq> ''''"
  using clean_form_elem [OF path_elems_form, of e p] by simp

lemma path_elems_abs_plain: "is_abs p \<Longrightarrow> e \<in> set (path_elems p) \<Longrightarrow> plain_elem e"
  using clean_form_rooted [of "rev (path_elems p)" e] path_elems_form [of p] by simp

lemma path_elems_dotdot_first:
  assumes "''..'' \<in> set (path_elems p)"
  shows "path_elems p \<noteq> [] \<and> hd (path_elems p) = ''..''"
  using clean_form_last [OF path_elems_form, of p] assms
  by (cases "path_elems p") (auto simp: last_rev hd_rev)

text \<open>Cleaning a stack that is already clean changes nothing.\<close>

lemma clean_stack_clean:
  "clean_form r (rev es @ st) \<Longrightarrow> clean_stack r st es = rev es @ st"
proof (induction es arbitrary: st)
  case (Cons e es)
  have f: "clean_form r (e # st)"
    using clean_form_append2 [of r "rev es" "e # st"] Cons.prems by simp
  then have "clean_stack r st (e # es) = clean_stack r (e # st) es"
    by (cases st) (auto simp: plain_elem_def)
  then show ?case using Cons by simp
qed simp

subsection \<open>Clean, join, split\<close>

lemma render_path_abs [simp]: "is_abs (render_path True es)"
  by (simp add: render_path_def is_abs_def has_prefix_def)

lemma join_with_hd:
  "xs \<noteq> [] \<Longrightarrow> hd xs \<noteq> [] \<Longrightarrow> join_with c xs \<noteq> [] \<and> hd (join_with c xs) = hd (hd xs)"
  by (induction c xs rule: join_with.induct) auto

lemma is_abs_hd: "is_abs p \<longleftrightarrow> p \<noteq> [] \<and> hd p = slash"
  by (cases p) (auto simp: is_abs_def has_prefix_def)

lemma render_path_rel:
  assumes "\<forall>e\<in>set es. e \<noteq> '''' \<and> slash \<notin> set e"
  shows "\<not> is_abs (render_path False es)"
proof (cases es)
  case (Cons e es')
  with assms have "hd (join_with slash es) = hd e" "e \<noteq> []" "slash \<notin> set e"
    using join_with_hd [of es slash] by auto
  then show ?thesis
    using Cons by (auto simp: render_path_def is_abs_hd) (metis hd_in_set)
qed (simp add: render_path_def is_abs_hd)

lemma split_render:
  assumes "\<forall>e\<in>set es. e \<noteq> '''' \<and> slash \<notin> set e"
  shows "clean_stack r st (split_on slash (render_path r es)) = clean_stack r st es"
proof (cases "es = []")
  case True
  then show ?thesis by (cases r) (auto simp: render_path_def)
next
  case False
  then have "split_on slash (join_with slash es) = es"
    using assms by (intro split_on_join) auto
  then show ?thesis using False by (auto simp: render_path_def)
qed

lemma path_elems_render:
  assumes "clean_form r (rev es)"
  shows "path_elems (render_path r es) = es"
proof -
  have ne: "\<forall>e\<in>set es. e \<noteq> '''' \<and> slash \<notin> set e"
    using clean_form_elem [OF assms] by simp
  have "is_abs (render_path r es) = r"
    using render_path_rel [OF ne] by (cases r) auto
  then have "path_elems (render_path r es) = rev (clean_stack r [] es)"
    using split_render [OF ne, of r "[]"] by (simp add: path_elems_def)
  also have "clean_stack r [] es = rev es"
    using clean_stack_clean [of r es "[]"] assms by simp
  finally show ?thesis by simp
qed

lemma path_elems_clean [simp]: "path_elems (path_clean p) = path_elems p"
  unfolding path_clean_def by (rule path_elems_render) (rule path_elems_form)

lemma is_abs_clean [simp]: "is_abs (path_clean p) = is_abs p"
proof (cases "is_abs p")
  case False
  then show ?thesis
    unfolding path_clean_def
    using render_path_rel path_elems_no_slash path_elems_nonempty by metis
qed (simp add: path_clean_def)

lemma path_clean_idem: "path_clean (path_clean p) = path_clean p"
  by (simp add: path_clean_def [of "path_clean p"] path_clean_def [of p, symmetric])

text \<open>A clean path that escapes shows it in its first characters.\<close>

lemma dotdot_prefix_iff:
  assumes "\<not> is_abs p"
  shows "path_clean p = ''..'' \<or> has_prefix (path_clean p) ''../'' \<longleftrightarrow> ''..'' \<in> set (path_elems p)"
    (is "?esc \<longleftrightarrow> ?dd")
proof
  assume ?dd
  then obtain es where es: "path_elems p = ''..'' # es"
    using path_elems_dotdot_first [of p] by (cases "path_elems p") auto
  then show ?esc
    using assms by (cases es) (auto simp: path_clean_def render_path_def has_prefix_def)
next
  assume ?esc
  then have "''..'' \<in> set (split_on slash (path_clean p))"
  proof
    assume "has_prefix (path_clean p) ''../''"
    then obtain t where "path_clean p = ''..'' @ slash # t"
      by (auto simp: has_prefix_iff)
    then show ?thesis by (simp only: split_on_append_sep) (simp add: split_on_plain)
  qed (simp add: split_on_plain)
  moreover have "set (split_on slash (path_clean p)) \<subseteq> set (path_elems p) \<union> {''.''}"
  proof (cases "path_elems p = []")
    case False
    then have "split_on slash (join_with slash (path_elems p)) = path_elems p"
      using path_elems_no_slash by (intro split_on_join) auto
    then show ?thesis using False assms by (auto simp: path_clean_def render_path_def)
  qed (simp add: path_clean_def render_path_def assms split_on_plain)
  ultimately show ?dd by auto
qed

text \<open>Following elements that never escape from a stack leaves the stack in place.\<close>

lemma clean_stack_keeps_dotdot:
  "''..'' \<in> set st \<Longrightarrow> ''..'' \<in> set (clean_stack False st es)"
  by (induction False st es rule: clean_stack.induct) (auto split: list.splits)

lemma clean_stack_over:
  "''..'' \<notin> set (clean_stack False s es) \<Longrightarrow>
     clean_stack r (s @ st) es = clean_stack False s es @ st"
proof (induction es arbitrary: s)
  case (Cons e es)
  show ?case
  proof (cases "e = ''..''")
    case True
    then show ?thesis
      using Cons clean_stack_keeps_dotdot [of "[''..'']" es]
        clean_stack_keeps_dotdot [of "''..'' # s" es]
      by (cases s) auto
  next
    case False
    then show ?thesis using Cons.IH [of s] Cons.IH [of "e # s"] Cons.prems by auto
  qed
qed simp

lemma path_elems_append_rel:
  assumes "d \<noteq> []" and "''..'' \<notin> set (clean_stack False [] (split_on slash p))"
  shows "path_elems (d @ slash # p) =
           path_elems d @ rev (clean_stack False [] (split_on slash p))"
proof -
  have "is_abs (d @ slash # p) = is_abs d"
    using assms(1) by (simp add: is_abs_hd)
  then show ?thesis
    using clean_stack_over [OF assms(2), of "is_abs d" "clean_stack (is_abs d) [] (split_on slash d)"]
    by (simp add: path_elems_def split_on_append_sep clean_stack_append)
qed

lemma path_elems_join2:
  assumes "d \<noteq> []" "p \<noteq> []" "\<not> is_abs p" "''..'' \<notin> set (path_elems p)"
  shows "path_elems (path_join [d, p]) = path_elems d @ path_elems p"
proof -
  have "path_join [d, p] = path_clean (d @ slash # p)"
    using assms by (simp add: path_join_def)
  then show ?thesis
    using assms path_elems_append_rel [of d p] by (simp add: path_elems_def [of p])
qed

lemma path_join_single: "p \<noteq> [] \<Longrightarrow> path_join [p] = path_clean p"
  by (simp add: path_join_def)

end
