(* ===== verification/Fake_Runtime.thy ===== *)
theory Fake_Runtime
  imports Paths Runtime_Iface "HOL-Library.AList" "HOL-Library.Product_Lexorder"
begin

text \<open>
  \<open>internal/runtime/fake\<close>: the in-memory runtime the services are tested against, and its
  interpretation as a \<open>container_runtime\<close>. \<open>uuid.NewString\<close> is third-party: its \<open>n\<close>-th
  result is the field \<open>fk_uuids\<close>.
\<close>

section \<open>Numbers in image references\<close>

fun decimal :: "nat \<Rightarrow> string" where
  "decimal n =
     (if n < 10 then [char_of (48 + n)] else decimal (n div 10) @ [char_of (48 + n mod 10)])"

declare decimal.simps [simp del]

definition undecimal :: "string \<Rightarrow> nat" where
  "undecimal s = foldl (\<lambda>a c. 10 * a + (of_char c - 48)) 0 s"

lemma undecimal_decimal [simp]: "undecimal (decimal n) = n"
proof (induction n rule: decimal.induct)
  case (1 n)
  then show ?case
    by (cases "n < 10") (simp_all add: decimal.simps [of n] undecimal_def)
qed

lemma decimal_inj: "decimal m = decimal n \<longleftrightarrow> m = n"
  by (metis undecimal_decimal)

section \<open>State\<close>

record fake_node =
  fn_mode :: file_mode
  fn_data :: "byte list"
  fn_is_dir :: bool
  fn_mod_time :: time

record fake_container =
  fc_spec :: create_spec
  fc_state :: container_state
  fc_files :: "(string \<times> fake_node) list"

record fake_session =
  fs_steps :: "(goerr + frame) list"
  fs_pos :: nat
  fs_exit_code :: int
  fs_done :: bool

record fake =
  fk_containers :: "(string \<times> fake_container) list"
  fk_sessions :: "(string \<times> fake_session) list"
  fk_script :: "(goerr + frame) list"
  fk_exit_code :: int
  fk_create_err :: "goerr option"
  fk_exec_err :: "goerr option"
  fk_exit_after_start :: bool
  fk_last_spec :: "create_spec option"
  fk_snapshots :: "(string \<times> int) list"
  fk_snapshot_err :: "goerr option"
  fk_snapshot_seq :: nat
  fk_uuids :: "nat \<Rightarrow> string"
  fk_next :: nat

definition fake_new :: "(nat \<Rightarrow> string) \<Rightarrow> fake" where
  "fake_new uuids =
     \<lparr>fk_containers = [], fk_sessions = [], fk_script = [], fk_exit_code = 0,
      fk_create_err = None, fk_exec_err = None, fk_exit_after_start = False, fk_last_spec = None,
      fk_snapshots = [], fk_snapshot_err = None, fk_snapshot_seq = 0, fk_uuids = uuids, fk_next = 0\<rparr>"

definition put_container :: "string \<Rightarrow> fake_container \<Rightarrow> fake \<Rightarrow> fake" where
  "put_container i c f = f\<lparr>fk_containers := AList.update i c (fk_containers f)\<rparr>"

definition set_container_state :: "string \<Rightarrow> container_state \<Rightarrow> fake_container \<Rightarrow> fake \<Rightarrow> fake" where
  "set_container_state i st c f = put_container i (c\<lparr>fc_state := st\<rparr>) f"

section \<open>Containers\<close>

definition fake_create :: "create_spec \<Rightarrow> (fake, string) op" where
  "fake_create spec f =
     (case fk_create_err f of
        Some e \<Rightarrow> (Inl e, f)
      | None \<Rightarrow>
          (let i = fk_uuids f (fk_next f);
               f' = f\<lparr>fk_last_spec := Some spec, fk_next := Suc (fk_next f)\<rparr>
           in (Inr i, put_container i \<lparr>fc_spec = spec, fc_state = C_stopped, fc_files = []\<rparr> f')))"

definition fake_transition :: "string \<Rightarrow> container_state \<Rightarrow> (fake, unit) op" where
  "fake_transition i st f =
     (case map_of (fk_containers f) i of
        None \<Rightarrow> (Inl (wrapf Rt_not_found), f)
      | Some c \<Rightarrow>
          if fc_state c = C_gone then (Inl (wrapf Rt_not_found), f)
          else (Inr (), set_container_state i st c f))"

definition fake_start :: "string \<Rightarrow> (fake, unit) op" where
  "fake_start i f = fake_transition i (if fk_exit_after_start f then C_stopped else C_running) f"

definition fake_stop :: "string \<Rightarrow> time \<Rightarrow> (fake, unit) op" where
  "fake_stop i timeout = fake_transition i C_stopped"

definition fake_destroy :: "string \<Rightarrow> (fake, unit) op" where
  "fake_destroy i f =
     (case map_of (fk_containers f) i of
        None \<Rightarrow> (Inr (), f)
      | Some c \<Rightarrow> (Inr (), set_container_state i C_gone c f))"

definition fake_inspect :: "string \<Rightarrow> (fake, container_status) op" where
  "fake_inspect i f =
     (case map_of (fk_containers f) i of
        None \<Rightarrow> (Inr \<lparr>cst_state = C_gone, cst_exit_code = None\<rparr>, f)
      | Some c \<Rightarrow> (Inr \<lparr>cst_state = fc_state c, cst_exit_code = None\<rparr>, f))"

definition fake_snapshot :: "string \<Rightarrow> (fake, snapshot_info) op" where
  "fake_snapshot i f =
     (case map_of (fk_containers f) i of
        None \<Rightarrow> (Inl (wrapf Rt_not_found), f)
      | Some c \<Rightarrow>
          if fc_state c = C_gone then (Inl (wrapf Rt_not_found), f)
          else
            let restore = fc_state c;
                paused = (if fc_state c = C_running then set_container_state i C_paused c f else f);
                back = (\<lambda>g. set_container_state i restore c g)
            in (case fk_snapshot_err f of
                  Some e \<Rightarrow> (Inl e, back paused)
                | None \<Rightarrow>
                    let seq = Suc (fk_snapshot_seq f);
                        ref = ''sha256:fake'' @ decimal seq
                    in (Inr \<lparr>si_ref = ref, si_size_bytes = 1024\<rparr>,
                        back (paused\<lparr>fk_snapshot_seq := seq,
                                     fk_snapshots := AList.update ref 1024 (fk_snapshots f)\<rparr>))))"

definition fake_delete_snapshot :: "string \<Rightarrow> (fake, unit) op" where
  "fake_delete_snapshot ref f =
     (if map_of (fk_snapshots f) ref = None then (Inl (wrapf Rt_not_found), f)
      else if list_ex (\<lambda>(i, c). cs_image (fc_spec c) = ref \<and> fc_state c \<noteq> C_gone) (fk_containers f)
      then (Inl (wrapf Rt_conflict), f)
      else (Inr (), f\<lparr>fk_snapshots := AList.delete ref (fk_snapshots f)\<rparr>))"

definition fake_unpause :: "string \<Rightarrow> (fake, unit) op" where
  "fake_unpause i f =
     (case map_of (fk_containers f) i of
        None \<Rightarrow> (Inl (wrapf Rt_not_found), f)
      | Some c \<Rightarrow>
          if fc_state c = C_gone then (Inl (wrapf Rt_not_found), f)
          else if fc_state c = C_paused then (Inr (), set_container_state i C_running c f)
          else (Inr (), f))"

definition force_paused :: "string \<Rightarrow> fake \<Rightarrow> fake" where
  "force_paused i f =
     (case map_of (fk_containers f) i of None \<Rightarrow> f | Some c \<Rightarrow> set_container_state i C_paused c f)"

section \<open>Execs\<close>

definition fake_exec :: "string \<Rightarrow> exec_spec \<Rightarrow> (fake, string) op" where
  "fake_exec i spec f =
     (case fk_exec_err f of
        Some e \<Rightarrow> (Inl e, f)
      | None \<Rightarrow>
        (case map_of (fk_containers f) i of
           None \<Rightarrow> (Inl (wrapf Rt_not_found), f)
         | Some c \<Rightarrow>
             if fc_state c \<noteq> C_running then (Inl (wrapf Rt_conflict), f)
             else
               let x = fk_uuids f (fk_next f);
                   sess = \<lparr>fs_steps = fk_script f, fs_pos = 0, fs_exit_code = fk_exit_code f, fs_done = False\<rparr>
               in (Inr x, f\<lparr>fk_next := Suc (fk_next f),
                             fk_sessions := AList.update x sess (fk_sessions f)\<rparr>)))"

definition fake_inspect_exec :: "string \<Rightarrow> (fake, exec_status) op" where
  "fake_inspect_exec x f =
     (case map_of (fk_sessions f) x of
        None \<Rightarrow> (Inl (wrapf Rt_not_found), f)
      | Some sess \<Rightarrow>
          (if \<not> fs_done sess then (Inr \<lparr>xst_running = True, xst_exit_code = None\<rparr>, f)
           else (Inr \<lparr>xst_running = False, xst_exit_code = Some (fs_exit_code sess)\<rparr>, f)))"

text \<open>A session handle always names a registered session; another id has no handle.\<close>

definition fake_recv :: "string \<Rightarrow> (fake, frame) op" where
  "fake_recv x f =
     (case map_of (fk_sessions f) x of
        None \<Rightarrow> (Inl Opaque, f)
      | Some sess \<Rightarrow>
          if length (fs_steps sess) \<le> fs_pos sess then (Inl (Sentinel Io_eof), f)
          else (fs_steps sess ! fs_pos sess,
                f\<lparr>fk_sessions := AList.update x (sess\<lparr>fs_pos := Suc (fs_pos sess)\<rparr>) (fk_sessions f)\<rparr>))"

definition fake_wait :: "string \<Rightarrow> (fake, int) op" where
  "fake_wait x f =
     (case map_of (fk_sessions f) x of
        None \<Rightarrow> (Inl Opaque, f)
      | Some sess \<Rightarrow>
          (Inr (fs_exit_code sess),
           f\<lparr>fk_sessions := AList.update x (sess\<lparr>fs_done := True\<rparr>) (fk_sessions f)\<rparr>))"

definition fake_close :: "string \<Rightarrow> (fake, unit) op" where
  "fake_close x f = (Inr (), f)"

section \<open>The file system\<close>

definition fake_mod_time :: time where "fake_mod_time = 1767225600000000000"

definition dir_node :: "file_mode \<Rightarrow> time \<Rightarrow> fake_node" where
  "dir_node m t = \<lparr>fn_mode = m, fn_data = [], fn_is_dir = True, fn_mod_time = t\<rparr>"

text \<open>
  \<open>ancestors\<close> walks \<open>path.Dir\<close> up to the root; the fuel is the number of elements of the
  path, each of which one step removes.
\<close>

primrec dirs_up :: "nat \<Rightarrow> string \<Rightarrow> string list \<Rightarrow> string list" where
  "dirs_up 0 d acc = acc"
| "dirs_up (Suc n) d acc =
     (if d = ''/'' \<or> d = ''.'' then acc else dirs_up n (path_dir d) (d # acc))"

definition ancestors :: "string \<Rightarrow> string list" where
  "ancestors p =
     ''/'' # dirs_up (Suc (length (path_elems p))) (path_dir (path_clean p)) []"

text \<open>An empty list of files is the nil map; a map in use always holds the root.\<close>

definition files_of :: "fake_container \<Rightarrow> (string \<times> fake_node) list" where
  "files_of c = (if fc_files c = [] then [(''/'', dir_node 0x1ed fake_mod_time)] else fc_files c)"

definition fs_for :: "string \<Rightarrow> (fake, fake_container) op" where
  "fs_for i f =
     (case map_of (fk_containers f) i of
        None \<Rightarrow> (Inl (wrapf Rt_not_found), f)
      | Some c \<Rightarrow>
          if fc_state c = C_gone then (Inl (wrapf Rt_not_found), f)
          else let c' = c\<lparr>fc_files := files_of c\<rparr> in (Inr c', put_container i c' f))"

definition add_dirs ::
    "string list \<Rightarrow> time \<Rightarrow> (string \<times> fake_node) list \<Rightarrow> (string \<times> fake_node) list" where
  "add_dirs ds t fs =
     foldl (\<lambda>fs d. if map_of fs d = None then AList.update d (dir_node 0x1ed t) fs else fs) fs ds"

definition seed_file ::
    "string \<Rightarrow> string \<Rightarrow> file_mode \<Rightarrow> byte list \<Rightarrow> fake \<Rightarrow> fake" where
  "seed_file i p m data f =
     (case map_of (fk_containers f) i of
        None \<Rightarrow> f
      | Some c \<Rightarrow>
          let fs0 = (if fc_files c = [] then [(''/'', dir_node 0x1ed 0)] else fc_files c);
              q = path_clean p;
              fs = AList.update q \<lparr>fn_mode = m, fn_data = data, fn_is_dir = False, fn_mod_time = fake_mod_time\<rparr>
                     (add_dirs (ancestors q) fake_mod_time fs0)
          in put_container i (c\<lparr>fc_files := fs\<rparr>) f)"

definition seed_dir :: "string \<Rightarrow> string \<Rightarrow> file_mode \<Rightarrow> fake \<Rightarrow> fake" where
  "seed_dir i p m f =
     (case map_of (fk_containers f) i of
        None \<Rightarrow> f
      | Some c \<Rightarrow>
          let q = path_clean p;
              fs = AList.update q (dir_node m fake_mod_time)
                     (add_dirs (ancestors q) fake_mod_time (files_of c))
          in put_container i (c\<lparr>fc_files := fs\<rparr>) f)"

definition fake_stat_path :: "string \<Rightarrow> string \<Rightarrow> (fake, file_info) op" where
  "fake_stat_path i p =
     bindE (fs_for i) (\<lambda>c.
     case map_of (fc_files c) (path_clean p) of
       None \<Rightarrow> throwE (wrapf Rt_path_not_found)
     | Some n \<Rightarrow>
         returnE \<lparr>fi_name = path_base (path_clean p), fi_link_target = [],
                  fi_size = int (length (fn_data n)), fi_mode = fn_mode n,
                  fi_mod_time = fn_mod_time n, fi_is_dir = fn_is_dir n\<rparr>)"

definition node_entry :: "string \<Rightarrow> fake_node \<Rightarrow> tar_entry" where
  "node_entry name n =
     \<lparr>te_header =
        \<lparr>th_typeflag = (if fn_is_dir n then Type_dir else Type_reg),
         th_name = (if fn_is_dir n then name @ ''/'' else name), th_linkname = [],
         th_size = (if fn_is_dir n then 0 else int (length (fn_data n))),
         th_mode = ucast (fn_mode n), th_uid = 0, th_gid = 0, th_uname = [], th_gname = [],
         th_mod_time = fn_mod_time n\<rparr>,
      te_body = (if fn_is_dir n then [] else fn_data n)\<rparr>"

definition trim_prefix :: "string \<Rightarrow> string \<Rightarrow> string" where
  "trim_prefix s p = (if has_prefix s p then drop (length p) s else s)"

definition fake_read_archive :: "string \<Rightarrow> string \<Rightarrow> (fake, tar_stream) op" where
  "fake_read_archive i p0 =
     bindE (fs_for i) (\<lambda>c.
     let p = path_clean p0; fs = fc_files c; base = path_base p in
     case map_of fs p of
       None \<Rightarrow> throwE (wrapf Rt_path_not_found)
     | Some root \<Rightarrow>
         if \<not> fn_is_dir root then returnE \<lparr>ts_entries = [node_entry base root], ts_error = None\<rparr>
         else
           let ks = sort (filter (\<lambda>k. k = p \<or> has_prefix k (trim_suffix p ''/'' @ ''/'')) (map fst fs));
               entry = (\<lambda>k. let rel = trim_prefix (trim_prefix k p) ''/''
                            in node_entry (if rel = [] then base else base @ ''/'' @ rel) (the (map_of fs k)))
           in returnE \<lparr>ts_entries = map entry ks, ts_error = None\<rparr>)"

text \<open>What a \<open>WriteArchive\<close> has written stays written when a later entry fails.\<close>

fun write_entries ::
    "string \<Rightarrow> tar_entry list \<Rightarrow> goerr option \<Rightarrow> (string \<times> fake_node) list \<Rightarrow>
     (goerr + unit) \<times> (string \<times> fake_node) list" where
  "write_entries dest [] err fs =
     ((case err of None \<Rightarrow> Inr () | Some e \<Rightarrow> Inl (Wrapped [e])), fs)"
| "write_entries dest (e # es) err fs =
     (let h = te_header e; target = path_join [dest, path_clean (th_name h)] in
      case th_typeflag h of
        Type_dir \<Rightarrow>
          write_entries dest es err (AList.update target (dir_node (ucast (th_mode h)) (th_mod_time h)) fs)
      | Type_reg \<Rightarrow>
          write_entries dest es err
            (AList.update target
               \<lparr>fn_mode = ucast (th_mode h), fn_data = te_body e, fn_is_dir = False, fn_mod_time = th_mod_time h\<rparr>
               (add_dirs (ancestors target) (th_mod_time h) fs))
      | _ \<Rightarrow> (Inl Opaque, fs))"

definition fake_write_archive :: "string \<Rightarrow> string \<Rightarrow> tar_stream \<Rightarrow> (fake, unit) op" where
  "fake_write_archive i dest0 ts =
     bindE (fs_for i) (\<lambda>c f.
     let dest = path_clean dest0 in
     case map_of (fc_files c) dest of
       None \<Rightarrow> (Inl (wrapf Rt_path_not_found), f)
     | Some d \<Rightarrow>
         if \<not> fn_is_dir d then (Inl (wrapf Rt_path_not_found), f)
         else (case write_entries dest (ts_entries ts) (ts_error ts) (fc_files c) of
                 (r, fs) \<Rightarrow> (r, put_container i (c\<lparr>fc_files := fs\<rparr>) f)))"

definition fake_runtime :: "fake runtime" where
  "fake_runtime =
     \<lparr>rt_create = fake_create, rt_start = fake_start, rt_stop = fake_stop, rt_destroy = fake_destroy,
      rt_inspect = fake_inspect, rt_exec = fake_exec, rt_inspect_exec = fake_inspect_exec,
      rt_snapshot = fake_snapshot, rt_delete_snapshot = fake_delete_snapshot, rt_unpause = fake_unpause,
      rt_stat_path = fake_stat_path, rt_read_archive = fake_read_archive,
      rt_write_archive = fake_write_archive, rt_recv = fake_recv, rt_wait = fake_wait,
      rt_close = fake_close\<rparr>"

section \<open>The container laws\<close>

definition fake_ctr :: "fake \<Rightarrow> string \<Rightarrow> container_state" where
  "fake_ctr f i = (case map_of (fk_containers f) i of None \<Rightarrow> C_gone | Some c \<Rightarrow> fc_state c)"

definition fake_known :: "fake \<Rightarrow> string set" where
  "fake_known f = fst ` set (fk_containers f)"

definition fake_images :: "fake \<Rightarrow> string set" where
  "fake_images f = fst ` set (fk_snapshots f)"

definition fake_calm :: "fake \<Rightarrow> bool" where
  "fake_calm f \<longleftrightarrow>
     inj (fk_uuids f) \<and> (\<forall>n. fk_uuids f n \<noteq> []) \<and>
     fake_known f \<subseteq> fk_uuids f ` {..<fk_next f} \<and>
     fake_images f \<subseteq> (\<lambda>n. ''sha256:fake'' @ decimal n) ` {..fk_snapshot_seq f}"

lemma keys_update: "fst ` set (AList.update k v al) = insert k (fst ` set al)"
  by (induction al) auto

lemma keys_delete: "fst ` set (AList.delete k al) = fst ` set al - {k}"
  by (simp add: AList.delete_eq) force

lemma fake_ctr_put [simp]: "fake_ctr (put_container i c f) = (fake_ctr f)(i := fc_state c)"
  by (rule ext) (simp add: fake_ctr_def put_container_def update_conv')

lemma fake_known_put [simp]: "fake_known (put_container i c f) = insert i (fake_known f)"
  by (simp add: fake_known_def put_container_def keys_update)

lemma fake_images_put [simp]: "fake_images (put_container i c f) = fake_images f"
  by (simp add: fake_images_def put_container_def)

lemma fake_calm_put: "fake_calm f \<Longrightarrow> i \<in> fake_known f \<Longrightarrow> fake_calm (put_container i c f)"
  by (simp add: fake_calm_def insert_absorb) (simp add: put_container_def)

lemma fake_known_iff: "i \<in> fake_known f \<longleftrightarrow> map_of (fk_containers f) i \<noteq> None"
  by (simp add: fake_known_def map_of_eq_None_iff)

lemma fake_ctr_lookup [simp]: "map_of (fk_containers f) i = Some c \<Longrightarrow> fake_ctr f i = fc_state c"
  "map_of (fk_containers f) i = None \<Longrightarrow> fake_ctr f i = C_gone"
  by (simp_all add: fake_ctr_def)

lemma known_lookup [simp]: "map_of (fk_containers f) i = Some c \<Longrightarrow> i \<in> fake_known f"
  by (simp add: fake_known_iff)

lemma fake_fields [simp]:
  "fake_ctr (f\<lparr>fk_last_spec := x_last_spec\<rparr>) = fake_ctr f"
  "fake_ctr (f\<lparr>fk_next := x_next\<rparr>) = fake_ctr f"
  "fake_ctr (f\<lparr>fk_snapshots := x_snapshots\<rparr>) = fake_ctr f"
  "fake_ctr (f\<lparr>fk_snapshot_seq := x_snapshot_seq\<rparr>) = fake_ctr f"
  "fake_ctr (f\<lparr>fk_sessions := x_sessions\<rparr>) = fake_ctr f"
  "fake_known (f\<lparr>fk_last_spec := x_last_spec\<rparr>) = fake_known f"
  "fake_known (f\<lparr>fk_next := x_next\<rparr>) = fake_known f"
  "fake_known (f\<lparr>fk_snapshots := x_snapshots\<rparr>) = fake_known f"
  "fake_known (f\<lparr>fk_snapshot_seq := x_snapshot_seq\<rparr>) = fake_known f"
  "fake_known (f\<lparr>fk_sessions := x_sessions\<rparr>) = fake_known f"
  "fake_images (f\<lparr>fk_last_spec := x_last_spec\<rparr>) = fake_images f"
  "fake_images (f\<lparr>fk_next := x_next\<rparr>) = fake_images f"
  "fake_images (f\<lparr>fk_snapshot_seq := x_snapshot_seq\<rparr>) = fake_images f"
  "fake_images (f\<lparr>fk_sessions := x_sessions\<rparr>) = fake_images f"
  "fake_images (f\<lparr>fk_containers := x_containers\<rparr>) = fake_images f"
  by (simp_all add: fake_ctr_def fake_known_def fake_images_def fun_eq_iff)

lemma fake_images_update [simp]:
  "fake_images (f\<lparr>fk_snapshots := AList.update r v (fk_snapshots f')\<rparr>) = insert r (fake_images f')"
  by (simp add: fake_images_def keys_update)

lemma fake_images_delete [simp]:
  "fake_images (f\<lparr>fk_snapshots := AList.delete r (fk_snapshots f)\<rparr>) = fake_images f - {r}"
  by (simp add: fake_images_def keys_delete)

lemma fake_images_iff: "r \<in> fake_images f \<longleftrightarrow> map_of (fk_snapshots f) r \<noteq> None"
  by (simp add: fake_images_def map_of_eq_None_iff)

lemma set_state_view [simp]:
  "fake_ctr (set_container_state i st c f) = (fake_ctr f)(i := st)"
  "fake_known (set_container_state i st c f) = insert i (fake_known f)"
  "fake_images (set_container_state i st c f) = fake_images f"
  by (simp_all add: set_container_state_def)

lemma calm_set_state: "fake_calm f \<Longrightarrow> i \<in> fake_known f \<Longrightarrow> fake_calm (set_container_state i st c f)"
  by (simp add: set_container_state_def fake_calm_put)

lemma calm_next_id:
  assumes "fake_calm f"
  shows "fk_uuids f (fk_next f) \<noteq> [] \<and> fk_uuids f (fk_next f) \<notin> fake_known f"
  using assms by (auto simp: fake_calm_def dest: injD)

lemma calm_create:
  assumes "fake_calm f" "fake_create spec f = (r, f')"
  shows "fake_calm f'"
proof (cases "fk_create_err f")
  case None
  let ?i = "fk_uuids f (fk_next f)"
  have "f' = put_container ?i \<lparr>fc_spec = spec, fc_state = C_stopped, fc_files = []\<rparr>
      (f\<lparr>fk_last_spec := Some spec, fk_next := Suc (fk_next f)\<rparr>)"
    using None assms(2) by (simp add: fake_create_def Let_def)
  then show ?thesis
    using assms(1)
    by (auto simp: fake_calm_def lessThan_Suc put_container_def fake_known_def keys_update)
qed (use assms in \<open>simp add: fake_create_def\<close>)

lemma calm_commit:
  assumes "fake_calm f"
  shows "''sha256:fake'' @ decimal (Suc (fk_snapshot_seq f)) \<notin> fake_images f"
  using assms by (auto simp: fake_calm_def decimal_inj)

lemma calm_snapshot:
  assumes "fake_calm f" "fake_snapshot i f = (r, f')"
  shows "fake_calm f'"
proof -
  have bump: "fake_calm (f\<lparr>fk_snapshot_seq := Suc (fk_snapshot_seq f),
      fk_snapshots := AList.update (''sha256:fake'' @ decimal (Suc (fk_snapshot_seq f))) 1024 (fk_snapshots f)\<rparr>)"
    if "fake_calm f" for f
    using that unfolding fake_calm_def by (auto simp: atMost_Suc)
  have swap: "(set_container_state i C_paused c f)\<lparr>fk_snapshot_seq := q, fk_snapshots := sn\<rparr> =
      set_container_state i C_paused c (f\<lparr>fk_snapshot_seq := q, fk_snapshots := sn\<rparr>)" for c q sn
    by (simp add: set_container_state_def put_container_def)
  show ?thesis
    using assms bump [OF assms(1)]
    by (auto simp: fake_snapshot_def Let_def swap calm_set_state split: option.splits if_splits)
qed

lemma calm_transition: "fake_calm f \<Longrightarrow> fake_transition i st f = (r, f') \<Longrightarrow> fake_calm f'"
  by (auto simp: fake_transition_def calm_set_state split: option.splits if_splits)

lemma calm_delete_snapshot: "fake_calm f \<Longrightarrow> fake_delete_snapshot ref f = (r, f') \<Longrightarrow> fake_calm f'"
  unfolding fake_delete_snapshot_def
  by (auto simp: fake_calm_def split: if_splits)

lemma fake_runtime_ops [simp]:
  "rt_create fake_runtime = fake_create" "rt_start fake_runtime = fake_start"
  "rt_stop fake_runtime = fake_stop" "rt_destroy fake_runtime = fake_destroy"
  "rt_inspect fake_runtime = fake_inspect" "rt_exec fake_runtime = fake_exec"
  "rt_inspect_exec fake_runtime = fake_inspect_exec" "rt_snapshot fake_runtime = fake_snapshot"
  "rt_delete_snapshot fake_runtime = fake_delete_snapshot" "rt_unpause fake_runtime = fake_unpause"
  "rt_stat_path fake_runtime = fake_stat_path" "rt_read_archive fake_runtime = fake_read_archive"
  "rt_write_archive fake_runtime = fake_write_archive" "rt_recv fake_runtime = fake_recv"
  "rt_wait fake_runtime = fake_wait" "rt_close fake_runtime = fake_close"
  by (simp_all add: fake_runtime_def)

interpretation faker: container_runtime fake_runtime fake_ctr fake_known fake_images fake_calm
proof unfold_locales
  fix spec s
  show "wp (rt_create fake_runtime spec)
      (\<lambda>i s'. entails (fake_calm s) (i \<noteq> [] \<and> i \<notin> fake_known s) \<and>
         fake_known s' = insert i (fake_known s) \<and> fake_ctr s' = (fake_ctr s)(i := C_stopped))
      (\<lambda>_ s'. fake_ctr s' = fake_ctr s \<and> fake_known s' = fake_known s) s"
    by (rule wpI) (auto simp: fake_create_def Let_def entails_def calm_next_id split: option.splits)
next
  fix i s
  show "wp (rt_snapshot fake_runtime i)
      (\<lambda>info s'. fake_ctr s' = fake_ctr s \<and> entails (fake_calm s) (si_ref info \<notin> fake_images s) \<and>
         fake_images s' = insert (si_ref info) (fake_images s))
      (\<lambda>_ s'. fake_ctr s' = fake_ctr s \<and> fake_images s' = fake_images s) s"
    by (rule wpI)
      (auto simp: fake_snapshot_def Let_def entails_def calm_commit [simplified] split: option.splits if_splits)
next
  fix i s
  show "wp (rt_start fake_runtime i)
      (\<lambda>_ s'. fake_ctr s i \<noteq> C_gone \<and> (\<exists>c. c \<noteq> C_gone \<and> fake_ctr s' = (fake_ctr s)(i := c)))
      (\<lambda>_ s'. fake_ctr s' = fake_ctr s) s"
    by (rule wpI)
      (auto simp: fake_start_def fake_transition_def split: option.splits if_splits
        intro: exI [of _ C_stopped] exI [of _ C_running])
next
  fix i s
  show "wp (rt_destroy fake_runtime i)
      (\<lambda>_ s'. fake_ctr s' = (fake_ctr s)(i := C_gone))
      (\<lambda>e s'. fake_ctr s' = fake_ctr s \<and> (errors_is e Rt_not_found \<longrightarrow> fake_ctr s i = C_gone)) s"
    by (rule wpI) (auto simp: fake_destroy_def fun_upd_idem split: option.splits)
next
  fix ref s
  show "wp (rt_delete_snapshot fake_runtime ref)
      (\<lambda>_ s'. fake_ctr s' = fake_ctr s \<and> fake_images s' = fake_images s - {ref})
      (\<lambda>e s'. fake_ctr s' = fake_ctr s \<and> fake_images s' = fake_images s \<and>
         (errors_is e Rt_not_found \<longrightarrow> ref \<notin> fake_images s)) s"
    by (rule wpI) (auto simp: fake_delete_snapshot_def fake_images_iff split: if_splits)
qed (auto intro!: wpI leavesI simp: fake_start_def fake_stop_def fake_destroy_def fake_inspect_def
    fake_unpause_def fake_transition_def fake_create_def fake_snapshot_def fake_delete_snapshot_def
    Let_def insert_absorb split: option.splits if_splits)

lemma fake_keeps_calm:
  "keeps fake_calm (fake_create spec)" "keeps fake_calm (fake_start i)"
  "keeps fake_calm (fake_stop i d)" "keeps fake_calm (fake_destroy i)"
  "keeps fake_calm (fake_inspect i)" "keeps fake_calm (fake_unpause i)"
  "keeps fake_calm (fake_snapshot i)" "keeps fake_calm (fake_delete_snapshot ref)"
  by (auto intro!: keepsI dest: calm_create calm_snapshot calm_delete_snapshot calm_transition
      simp: fake_start_def fake_stop_def)
    (auto simp: fake_destroy_def fake_inspect_def fake_unpause_def calm_set_state split: option.splits if_splits)

text \<open>A new runtime is calm when its source of ids does not repeat itself.\<close>

lemma fake_new_calm: "inj uuids \<Longrightarrow> (\<And>n. uuids n \<noteq> []) \<Longrightarrow> fake_calm (fake_new uuids)"
  by (simp add: fake_calm_def fake_new_def fake_known_def fake_images_def)

end
