(* ===== verification/Config.thy ===== *)
theory Config
  imports Prelude
begin

text \<open>
  \<open>internal/config\<close>: the daemon's settings read from the environment. An unset variable and
  an empty one are the same. \<open>strconv.ParseInt(s, 10, 64)\<close> is written out: an optional sign,
  one or more decimal digits, and the 64-bit range.
\<close>

type_synonym environment = "string \<Rightarrow> string"

record config =
  cf_addr :: string
  cf_data_dir :: string
  cf_token :: string
  cf_docker_host :: string
  cf_container_runtime :: string
  cf_exec_output_max_bytes :: int
  cf_default_cpu_millis :: int
  cf_default_memory_bytes :: int
  cf_default_pids_limit :: int
  cf_network_name :: string
  cf_file_max_bytes :: int
  cf_archive_max_bytes :: int
  cf_list_max_entries :: int
  cf_list_max_scan_bytes :: int
  cf_audit_retention_days :: int
  cf_audit_max_events :: int

definition max_int64 :: int where "max_int64 = 9223372036854775807"

definition max_audit_retention_days :: int where "max_audit_retention_days = 36500"

definition is_digit :: "char \<Rightarrow> bool" where
  "is_digit c \<longleftrightarrow> 48 \<le> (of_char c :: nat) \<and> (of_char c :: nat) \<le> 57"

definition digits_value :: "string \<Rightarrow> int" where
  "digits_value s = foldl (\<lambda>a c. 10 * a + (of_char c - 48)) 0 s"

definition parse_int64 :: "string \<Rightarrow> goerr + int" where
  "parse_int64 s =
     (let neg = (s \<noteq> [] \<and> hd s = CHR ''-'');
          ds = (if s \<noteq> [] \<and> (hd s = CHR ''-'' \<or> hd s = CHR ''+'') then tl s else s);
          n = (if neg then - digits_value ds else digits_value ds)
      in if ds = [] \<or> \<not> list_all is_digit ds then Inl Opaque
         else if n > max_int64 \<or> n < - max_int64 - 1 then Inl Opaque
         else Inr n)"

definition env_string :: "environment \<Rightarrow> string \<Rightarrow> string \<Rightarrow> string" where
  "env_string env key fallback = (if env key \<noteq> [] then env key else fallback)"

definition env_int64 :: "environment \<Rightarrow> string \<Rightarrow> int \<Rightarrow> goerr + int" where
  "env_int64 env key fallback =
     (if env key = [] then Inr fallback
      else case parse_int64 (env key) of Inl e \<Rightarrow> Inl (Wrapped [e]) | Inr n \<Rightarrow> Inr n)"

definition env_positive_int64 :: "environment \<Rightarrow> string \<Rightarrow> int \<Rightarrow> goerr + int" where
  "env_positive_int64 env key fallback =
     (case env_int64 env key fallback of
        Inl e \<Rightarrow> Inl e | Inr n \<Rightarrow> if n < 1 then Inl Opaque else Inr n)"

text \<open>\<open>x, err := e; if err != nil { return err }\<close> on a result.\<close>

definition andThen :: "goerr + 'a \<Rightarrow> ('a \<Rightarrow> goerr + 'b) \<Rightarrow> goerr + 'b" where
  "andThen r f = (case r of Inl e \<Rightarrow> Inl e | Inr a \<Rightarrow> f a)"

definition load_config :: "environment \<Rightarrow> goerr + config" where
  "load_config env =
     andThen (env_positive_int64 env ''ORCAL_EXEC_OUTPUT_MAX_BYTES'' 67108864) (\<lambda>output.
     andThen (env_positive_int64 env ''ORCAL_DEFAULT_MEMORY_BYTES'' 1073741824) (\<lambda>memory.
     andThen (env_positive_int64 env ''ORCAL_DEFAULT_CPU_MILLIS'' 1000) (\<lambda>cpu.
     andThen (env_positive_int64 env ''ORCAL_DEFAULT_PIDS_LIMIT'' 512) (\<lambda>pids.
     andThen (env_positive_int64 env ''ORCAL_FILE_MAX_BYTES'' (64 * 2 ^ 20)) (\<lambda>file_max.
     andThen (env_positive_int64 env ''ORCAL_ARCHIVE_MAX_BYTES'' (2 ^ 30)) (\<lambda>archive_max.
     andThen (env_positive_int64 env ''ORCAL_LIST_MAX_ENTRIES'' 10000) (\<lambda>entries.
     andThen (env_positive_int64 env ''ORCAL_LIST_MAX_SCAN_BYTES'' (256 * 2 ^ 20)) (\<lambda>scan.
     andThen (env_positive_int64 env ''ORCAL_AUDIT_RETENTION_DAYS'' 90) (\<lambda>days.
     if days > max_audit_retention_days then Inl Opaque
     else
       andThen (env_positive_int64 env ''ORCAL_AUDIT_MAX_EVENTS'' 1000000) (\<lambda>events.
       Inr \<lparr>cf_addr = env_string env ''ORCAL_ADDR'' ''127.0.0.1:8080'',
            cf_data_dir = env_string env ''ORCAL_DATA_DIR'' ''/var/lib/orcal'',
            cf_token = env_string env ''ORCAL_TOKEN'' [],
            cf_docker_host = env_string env ''ORCAL_DOCKER_HOST'' [],
            cf_container_runtime = env_string env ''ORCAL_CONTAINER_RUNTIME'' [],
            cf_exec_output_max_bytes = output, cf_default_cpu_millis = cpu,
            cf_default_memory_bytes = memory, cf_default_pids_limit = pids,
            cf_network_name = env_string env ''ORCAL_NETWORK_NAME'' ''orcal'',
            cf_file_max_bytes = file_max, cf_archive_max_bytes = archive_max,
            cf_list_max_entries = entries, cf_list_max_scan_bytes = scan,
            cf_audit_retention_days = days, cf_audit_max_events = events\<rparr>))))))))))"

text \<open>
  \<open>time.Duration(days) * 24 * time.Hour\<close> of \<open>cmd/orcald/main.go\<close>: 64-bit wrapping
  multiplication of nanoseconds, read as a signed number.
\<close>

definition retention_duration :: "int \<Rightarrow> 64 word" where
  "retention_duration days = of_int days * 24 * 3600000000000"

lemma andThen_Inr: "andThen r f = Inr b \<Longrightarrow> \<exists>a. r = Inr a \<and> f a = Inr b"
  by (auto simp: andThen_def split: sum.splits)

lemma parse_int64_bounds: "parse_int64 s = Inr n \<Longrightarrow> n \<le> max_int64"
  by (auto simp: parse_int64_def Let_def split: if_splits)

lemma env_positive_bounds:
  "env_positive_int64 env key d = Inr n \<Longrightarrow> d \<le> max_int64 \<Longrightarrow> 1 \<le> n \<and> n \<le> max_int64"
  by (auto simp: env_positive_int64_def env_int64_def dest: parse_int64_bounds split: sum.splits if_splits)

lemma env_positive_unset: "env key = [] \<Longrightarrow> 1 \<le> d \<Longrightarrow> env_positive_int64 env key d = Inr d"
  by (simp add: env_positive_int64_def env_int64_def)

text \<open>The loader's checks, in order, seen from its result.\<close>

lemma load_config_Inr:
  assumes "load_config env = Inr c"
  shows "env_positive_int64 env ''ORCAL_EXEC_OUTPUT_MAX_BYTES'' 67108864 = Inr (cf_exec_output_max_bytes c)"
    "env_positive_int64 env ''ORCAL_DEFAULT_MEMORY_BYTES'' 1073741824 = Inr (cf_default_memory_bytes c)"
    "env_positive_int64 env ''ORCAL_DEFAULT_CPU_MILLIS'' 1000 = Inr (cf_default_cpu_millis c)"
    "env_positive_int64 env ''ORCAL_DEFAULT_PIDS_LIMIT'' 512 = Inr (cf_default_pids_limit c)"
    "env_positive_int64 env ''ORCAL_FILE_MAX_BYTES'' (64 * 2 ^ 20) = Inr (cf_file_max_bytes c)"
    "env_positive_int64 env ''ORCAL_ARCHIVE_MAX_BYTES'' (2 ^ 30) = Inr (cf_archive_max_bytes c)"
    "env_positive_int64 env ''ORCAL_LIST_MAX_ENTRIES'' 10000 = Inr (cf_list_max_entries c)"
    "env_positive_int64 env ''ORCAL_LIST_MAX_SCAN_BYTES'' (256 * 2 ^ 20) = Inr (cf_list_max_scan_bytes c)"
    "env_positive_int64 env ''ORCAL_AUDIT_RETENTION_DAYS'' 90 = Inr (cf_audit_retention_days c)"
    "env_positive_int64 env ''ORCAL_AUDIT_MAX_EVENTS'' 1000000 = Inr (cf_audit_max_events c)"
    "cf_audit_retention_days c \<le> max_audit_retention_days"
  using assms unfolding load_config_def
  by (auto dest!: andThen_Inr split: if_splits)

lemma retention_exact:
  assumes "1 \<le> days" "days \<le> max_audit_retention_days"
  shows "sint (retention_duration days) = days * 86400000000000"
proof -
  have "retention_duration days = of_int (days * 86400000000000)"
    by (simp add: retention_duration_def)
  moreover have "sint (of_int (days * 86400000000000) :: 64 word) = days * 86400000000000"
    using assms
    by (subst sint_sbintrunc', intro signed_take_bit_int_eq_self) (auto simp: max_audit_retention_days_def)
  ultimately show ?thesis by simp
qed

text \<open>Whatever the environment holds, a configuration the daemon starts with
  has every limit between 1 and the largest 64-bit integer, and its audit retention, computed
  in 64-bit nanoseconds, is the exact number of days and not a wrapped one.\<close>

theorem config_limits:
  assumes "load_config env = Inr c"
  shows "(\<forall>n \<in> {cf_exec_output_max_bytes c, cf_default_memory_bytes c, cf_default_cpu_millis c,
      cf_default_pids_limit c, cf_file_max_bytes c, cf_archive_max_bytes c, cf_list_max_entries c,
      cf_list_max_scan_bytes c, cf_audit_max_events c}. 1 \<le> n \<and> n \<le> max_int64) \<and>
    sint (retention_duration (cf_audit_retention_days c)) = cf_audit_retention_days c * 86400000000000"
proof -
  note l = load_config_Inr [OF assms] and b = env_positive_bounds
  show ?thesis
    using b [OF l(1)] b [OF l(2)] b [OF l(3)] b [OF l(4)] b [OF l(5)] b [OF l(6)] b [OF l(7)] b [OF l(8)]
      b [OF l(9)] b [OF l(10)] retention_exact [OF _ l(11)]
    by (simp add: max_int64_def)
qed

theorem config_limits_witness:
  "\<exists>c. load_config (\<lambda>k. if k = ''ORCAL_AUDIT_RETENTION_DAYS'' then ''36500'' else []) = Inr c \<and>
     sint (retention_duration (cf_audit_retention_days c)) = 3153600000000000000"
proof -
  let ?env = "\<lambda>k. if k = ''ORCAL_AUDIT_RETENTION_DAYS'' then ''36500'' else []"
  have days: "env_positive_int64 ?env ''ORCAL_AUDIT_RETENTION_DAYS'' d = Inr 36500" for d
    by (simp add: env_positive_int64_def env_int64_def parse_int64_def is_digit_def digits_value_def
        max_int64_def)
  have "\<exists>c. load_config ?env = Inr c \<and> cf_audit_retention_days c = 36500"
    unfolding load_config_def days
    by (simp add: env_positive_unset andThen_def max_audit_retention_days_def)
  then obtain c where "load_config ?env = Inr c" "cf_audit_retention_days c = 36500" by blast
  then show ?thesis using config_limits [of ?env c] by auto
qed

end
