(* ===== verification/World.thy ===== *)
theory World
  imports Store Fake_Runtime Config
begin

text \<open>
  The daemon put together the way \<open>cmd/orcald/main.go\<close> does it: one SQLite store, one
  runtime, a clock and a source of identifiers, and the services over them. The runtime is
  the in-memory one with a driver that may fail any call (\<open>w_rt_faults\<close>). Every contract
  the services rely on is interpreted here on this state.
\<close>

record world =
  w_db :: db
  w_rt :: fake
  w_rt_faults :: "bool list"
  w_clock :: time
  w_delays :: "nat list"
  w_next :: nat
  w_logs :: "string \<Rightarrow> disk option"
  w_woken :: "string list"

text \<open>What the daemon is started with; the functions stand for third-party code: \<open>uuid.Parse\<close>,
  \<open>uuid.NewV7\<close>, SHA-256 and the random source.\<close>

record deployment =
  dp_config :: config
  dp_oci_runtime :: string
  dp_is_uuid :: "string \<Rightarrow> bool"
  dp_uuid :: "nat \<Rightarrow> string"
  dp_secret :: "nat \<Rightarrow> string"
  dp_hash :: "string \<Rightarrow> string"

definition on_db :: "(db, 'a) op \<Rightarrow> (world, 'a) op" where
  "on_db m w = (case m (w_db w) of (r, d) \<Rightarrow> (r, w\<lparr>w_db := d\<rparr>))"

definition on_rt :: "(fake, 'a) op \<Rightarrow> (world, 'a) op" where
  "on_rt m w =
     (let w' = w\<lparr>w_rt_faults := tl (w_rt_faults w)\<rparr>
      in if w_rt_faults w \<noteq> [] \<and> hd (w_rt_faults w) then (Inl (Sentinel Rt_unavailable), w')
         else (case m (w_rt w) of (r, f) \<Rightarrow> (r, w'\<lparr>w_rt := f\<rparr>)))"

definition world_now :: "(world, time) act" where
  "world_now w =
     (let t = w_clock w + (case w_delays w of [] \<Rightarrow> 0 | d # _ \<Rightarrow> int d)
      in (t, w\<lparr>w_clock := t, w_delays := tl (w_delays w)\<rparr>))"

definition world_new_id :: "deployment \<Rightarrow> (world, string) act" where
  "world_new_id p w = (dp_uuid p (w_next w), w\<lparr>w_next := Suc (w_next w)\<rparr>)"

definition world_generate :: "deployment \<Rightarrow> (world, string) op" where
  "world_generate p w = (Inr (dp_secret p (w_next w)), w\<lparr>w_next := Suc (w_next w)\<rparr>)"

section \<open>The parts, lifted\<close>

definition world_runtime :: "world runtime" where
  "world_runtime =
     \<lparr>rt_create = \<lambda>x. on_rt (rt_create fake_runtime x), rt_start = \<lambda>i. on_rt (rt_start fake_runtime i),
      rt_stop = \<lambda>i d. on_rt (rt_stop fake_runtime i d), rt_destroy = \<lambda>i. on_rt (rt_destroy fake_runtime i),
      rt_inspect = \<lambda>i. on_rt (rt_inspect fake_runtime i), rt_exec = \<lambda>i x. on_rt (rt_exec fake_runtime i x),
      rt_inspect_exec = \<lambda>x. on_rt (rt_inspect_exec fake_runtime x),
      rt_snapshot = \<lambda>i. on_rt (rt_snapshot fake_runtime i),
      rt_delete_snapshot = \<lambda>r. on_rt (rt_delete_snapshot fake_runtime r),
      rt_unpause = \<lambda>i. on_rt (rt_unpause fake_runtime i),
      rt_stat_path = \<lambda>i q. on_rt (rt_stat_path fake_runtime i q),
      rt_read_archive = \<lambda>i q. on_rt (rt_read_archive fake_runtime i q),
      rt_write_archive = \<lambda>i q t. on_rt (rt_write_archive fake_runtime i q t),
      rt_recv = \<lambda>x. on_rt (rt_recv fake_runtime x), rt_wait = \<lambda>x. on_rt (rt_wait fake_runtime x),
      rt_close = \<lambda>x. on_rt (rt_close fake_runtime x)\<rparr>"

definition world_sandbox_repo :: "world sandbox_repo" where
  "world_sandbox_repo =
     \<lparr>sbr_create = \<lambda>x. on_db (sq_sandbox_create x), sbr_get = \<lambda>i. on_db (sq_sandbox_get i),
      sbr_get_by_name = \<lambda>n. on_db (sq_sandbox_get_by_name n), sbr_list = \<lambda>f. on_db (sq_sandbox_list f),
      sbr_update = \<lambda>x. on_db (sq_sandbox_update x)\<rparr>"

definition world_snapshot_repo :: "world snapshot_repo" where
  "world_snapshot_repo =
     \<lparr>snr_create = \<lambda>x. on_db (sq_snapshot_create x), snr_get = \<lambda>i. on_db (sq_snapshot_get i),
      snr_get_by_name = \<lambda>n. on_db (sq_snapshot_get_by_name n), snr_list = \<lambda>f. on_db (sq_snapshot_list f),
      snr_count_children = \<lambda>i. on_db (sq_count_children i), snr_delete = \<lambda>i. on_db (sq_snapshot_delete i)\<rparr>"

definition world_exec_repo :: "world exec_repo" where
  "world_exec_repo =
     \<lparr>exr_create = \<lambda>x. on_db (sq_exec_create x), exr_get = \<lambda>i. on_db (sq_exec_get i),
      exr_list_by_sandbox = \<lambda>i f. on_db (sq_exec_list_by_sandbox i f),
      exr_list_running = on_db sq_exec_list_running, exr_update = \<lambda>x. on_db (sq_exec_update x)\<rparr>"

definition world_token_repo :: "world token_repo" where
  "world_token_repo =
     \<lparr>tkr_create = \<lambda>t. on_db (sq_token_create t), tkr_get = \<lambda>i. on_db (sq_token_get i),
      tkr_get_by_hash = \<lambda>h. on_db (sq_token_get_by_hash h), tkr_get_by_name = \<lambda>n. on_db (sq_token_get_by_name n),
      tkr_list = on_db sq_token_list, tkr_update = \<lambda>t. on_db (sq_token_update t),
      tkr_touch = \<lambda>i t. on_db (sq_token_touch i t)\<rparr>"

definition world_event_repo :: "world event_repo" where
  "world_event_repo =
     \<lparr>evr_create = \<lambda>e. on_db (sq_event_create e), evr_list = \<lambda>f. on_db (sq_event_list f),
      evr_delete_older = \<lambda>t. on_db (sq_event_delete_older t),
      evr_delete_beyond = \<lambda>n. on_db (sq_event_delete_beyond n)\<rparr>"

definition world_settings :: "world settings_store" where
  "world_settings =
     \<lparr>set_get = \<lambda>k. on_db (sq_setting_get k), set_set = \<lambda>k v. on_db (sq_setting_set k v),
      set_delete = \<lambda>k. on_db (sq_setting_delete k)\<rparr>"

section \<open>The services\<close>

text \<open>\<open>sandbox.NewService\<close>, \<open>snapshot.NewService\<close>, then \<open>SetSnapshots\<close>, which ties the knot.\<close>

definition sandboxes_before :: "deployment \<Rightarrow> world sandbox_service" where
  "sandboxes_before p =
     \<lparr>sbs_repo = world_sandbox_repo, sbs_rt = world_runtime,
      sbs_defaults = \<lparr>cpu_millis = cf_default_cpu_millis (dp_config p),
                      memory_bytes = cf_default_memory_bytes (dp_config p),
                      pids_limit = cf_default_pids_limit (dp_config p)\<rparr>,
      sbs_networks = \<lparr>net_full = cf_network_name (dp_config p),
                      net_isolated = cf_network_name (dp_config p) @ ''-isolated''\<rparr>,
      sbs_oci_runtime = dp_oci_runtime p, sbs_now = world_now, sbs_new_id = world_new_id p,
      sbs_is_uuid = dp_is_uuid p, sbs_snapshots = None\<rparr>"

definition snapshots_of :: "deployment \<Rightarrow> world snapshot_service" where
  "snapshots_of p =
     \<lparr>sns_repo = world_snapshot_repo, sns_sandboxes = with_snapshot_source (sandboxes_before p),
      sns_rt = world_runtime, sns_now = world_now, sns_new_id = world_new_id p,
      sns_is_uuid = dp_is_uuid p\<rparr>"

definition sandboxes_of :: "deployment \<Rightarrow> world sandbox_service" where
  "sandboxes_of p = (sandboxes_before p)\<lparr>sbs_snapshots := Some (snapshot_resolve (snapshots_of p))\<rparr>"

definition world_open_log :: "string \<Rightarrow> (world, unit) op" where
  "world_open_log i w =
     (Inr (), w\<lparr>w_logs := (w_logs w)(i \<mapsto>
        (case w_logs w i of None \<Rightarrow> \<lparr>dk_file = [], dk_writes = []\<rparr> | Some dk \<Rightarrow> dk))\<rparr>)"

definition execs_of :: "deployment \<Rightarrow> world exec_service" where
  "execs_of p =
     \<lparr>exs_repo = world_exec_repo, exs_sandboxes = sandbox_runtime_id (sandboxes_of p),
      exs_rt = world_runtime, exs_max_bytes = cf_exec_output_max_bytes (dp_config p),
      exs_now = world_now, exs_new_id = world_new_id p, exs_open = world_open_log, exs_logs = w_logs,
      exs_put_log = \<lambda>i dk w. w\<lparr>w_logs := (w_logs w)(i \<mapsto> dk)\<rparr>,
      exs_notify = \<lambda>i w. w\<lparr>w_woken := i # w_woken w\<rparr>\<rparr>"

definition tokens_of :: "deployment \<Rightarrow> world auth_service" where
  "tokens_of p =
     \<lparr>aus_repo = world_token_repo, aus_now = world_now, aus_new_id = world_new_id p,
      aus_generate = world_generate p, aus_hash = dp_hash p\<rparr>"

definition events_of :: "deployment \<Rightarrow> world audit_service" where
  "events_of p =
     \<lparr>ads_repo = world_event_repo,
      ads_retention = \<lparr>rp_max_age = sint (retention_duration (cf_audit_retention_days (dp_config p))),
                       rp_max_events = cf_audit_max_events (dp_config p)\<rparr>,
      ads_now = world_now, ads_new_id = world_new_id p\<rparr>"

text \<open>The boot sequence up to the listening server.\<close>

definition boot :: "deployment \<Rightarrow> (world, string option \<times> poller list) op" where
  "boot p =
     bindE (auth_bootstrap (tokens_of p) world_settings (cf_token (dp_config p))) (\<lambda>generated.
     bindE (attempt (unpause_paused (sandboxes_before p))) (\<lambda>_.
     bindE (attempt (exec_reconcile (execs_of p))) (\<lambda>r.
       returnE (generated, case r of Inl _ \<Rightarrow> [] | Inr ps \<Rightarrow> ps))))"

section \<open>Running a part\<close>

lemma wp_on_db:
  assumes "wp m (\<lambda>a d. Q a (w\<lparr>w_db := d\<rparr>)) (\<lambda>e d. E e (w\<lparr>w_db := d\<rparr>)) (w_db w)"
  shows "wp (on_db m) Q E w"
  using assms by (auto simp: wp_def on_db_def split: prod.splits sum.splits)

lemma wp_on_rt:
  assumes "\<And>w'. w' = w\<lparr>w_rt_faults := tl (w_rt_faults w)\<rparr> \<Longrightarrow>
      wp m (\<lambda>a f. Q a (w'\<lparr>w_rt := f\<rparr>)) (\<lambda>e f. E e (w'\<lparr>w_rt := f\<rparr>)) (w_rt w)"
    and "E (Sentinel Rt_unavailable) (w\<lparr>w_rt_faults := tl (w_rt_faults w)\<rparr>)"
  shows "wp (on_rt m) Q E w"
  using assms by (auto simp: wp_def on_rt_def Let_def split: prod.splits sum.splits)

lemma leaves_on_db: "(\<And>w d. f (w\<lparr>w_db := d\<rparr>) = f w) \<Longrightarrow> leaves f (on_db m)"
  by (auto simp: leaves_def on_db_def split: prod.splits)

lemma leaves_on_db_view: "leaves g m \<Longrightarrow> (\<And>w d. g d = g (w_db w) \<Longrightarrow> f (w\<lparr>w_db := d\<rparr>) = f w) \<Longrightarrow> leaves f (on_db m)"
  by (auto simp: leaves_def on_db_def split: prod.splits) (metis snd_conv)

lemma leaves_on_rt:
  "(\<And>w x. f (w\<lparr>w_rt := x\<rparr>) = f w) \<Longrightarrow> (\<And>w x. f (w\<lparr>w_rt_faults := x\<rparr>) = f w) \<Longrightarrow> leaves f (on_rt m)"
  by (auto simp: leaves_def on_rt_def Let_def split: prod.splits)

lemma leaves_on_rt_view:
  assumes "leaves g m" "\<And>w x. g x = g (w_rt w) \<Longrightarrow> f (w\<lparr>w_rt := x\<rparr>) = f w"
    and "\<And>w x. f (w\<lparr>w_rt_faults := x\<rparr>) = f w"
  shows "leaves f (on_rt m)"
proof (rule leavesI)
  fix w r w'
  assume "on_rt m w = (r, w')"
  moreover have "f (w\<lparr>w_rt_faults := y, w_rt := snd (m (w_rt w))\<rparr>) = f w" for y
    using assms(2) [of "snd (m (w_rt w))" "w\<lparr>w_rt_faults := y\<rparr>"] assms(1,3) by (simp add: leaves_def)
  ultimately show "f w' = f w"
    using assms(3) by (auto simp: on_rt_def Let_def split: prod.splits if_splits)
qed

definition world_calm :: "world \<Rightarrow> bool" where
  "world_calm w \<longleftrightarrow> db_calm (w_db w) \<and> fake_calm (w_rt w)"

lemma keeps_on_db: "keeps db_calm m \<Longrightarrow> keeps world_calm (on_db m)"
  by (force simp: keeps_def on_db_def world_calm_def split: prod.splits)

lemma keeps_on_rt: "keeps fake_calm m \<Longrightarrow> keeps world_calm (on_rt m)"
  by (force simp: keeps_def on_rt_def world_calm_def Let_def split: prod.splits)

section \<open>The sandbox service on the world\<close>

definition world_rows :: "world \<Rightarrow> sandbox list" where "world_rows w = db_sandboxes (w_db w)"
definition world_snaps :: "world \<Rightarrow> snapshot list" where "world_snaps w = db_snapshots (w_db w)"
definition world_execs :: "world \<Rightarrow> exec_row list" where "world_execs w = db_execs (w_db w)"
definition world_tokens :: "world \<Rightarrow> token list" where "world_tokens w = db_tokens (w_db w)"
definition world_events :: "world \<Rightarrow> event list" where "world_events w = db_events (w_db w)"
definition world_ctr :: "world \<Rightarrow> string \<Rightarrow> container_state" where "world_ctr w = fake_ctr (w_rt w)"
definition world_known :: "world \<Rightarrow> string set" where "world_known w = fake_known (w_rt w)"
definition world_images :: "world \<Rightarrow> string set" where "world_images w = fake_images (w_rt w)"

lemmas world_views [simp] =
  world_rows_def world_snaps_def world_execs_def world_tokens_def world_events_def world_ctr_def
  world_known_def world_images_def

lemma world_parts [simp]:
  "sbs_repo (sandboxes_before p) = world_sandbox_repo" "sbs_rt (sandboxes_before p) = world_runtime"
  "sbs_now (sandboxes_before p) = world_now" "sbs_new_id (sandboxes_before p) = world_new_id p"
  "sbs_is_uuid (sandboxes_before p) = dp_is_uuid p"
  "sbs_repo (sandboxes_of p) = world_sandbox_repo" "sbs_rt (sandboxes_of p) = world_runtime"
  "sbs_now (sandboxes_of p) = world_now" "sbs_new_id (sandboxes_of p) = world_new_id p"
  "sbs_is_uuid (sandboxes_of p) = dp_is_uuid p"
  "sbs_snapshots (sandboxes_of p) = Some (snapshot_resolve (snapshots_of p))"
  "sns_repo (snapshots_of p) = world_snapshot_repo" "sns_rt (snapshots_of p) = world_runtime"
  "sns_now (snapshots_of p) = world_now" "sns_new_id (snapshots_of p) = world_new_id p"
  "sns_is_uuid (snapshots_of p) = dp_is_uuid p"
  "exs_repo (execs_of p) = world_exec_repo" "exs_rt (execs_of p) = world_runtime"
  "exs_now (execs_of p) = world_now" "exs_new_id (execs_of p) = world_new_id p"
  "exs_open (execs_of p) = world_open_log" "exs_logs (execs_of p) = w_logs"
  "exs_put_log (execs_of p) = (\<lambda>i dk w. w\<lparr>w_logs := (w_logs w)(i \<mapsto> dk)\<rparr>)"
  "exs_notify (execs_of p) = (\<lambda>i w. w\<lparr>w_woken := i # w_woken w\<rparr>)"
  "exs_sandboxes (execs_of p) = sandbox_runtime_id (sandboxes_of p)"
  "aus_repo (tokens_of p) = world_token_repo" "aus_now (tokens_of p) = world_now"
  "aus_new_id (tokens_of p) = world_new_id p" "aus_generate (tokens_of p) = world_generate p"
  "aus_hash (tokens_of p) = dp_hash p"
  "ads_repo (events_of p) = world_event_repo" "ads_now (events_of p) = world_now"
  "ads_new_id (events_of p) = world_new_id p"
  by (simp_all add: sandboxes_before_def sandboxes_of_def snapshots_of_def execs_of_def tokens_of_def events_of_def)

lemma world_repo_ops [simp]:
  "sbr_create world_sandbox_repo x = on_db (sbr_create sq_sandboxes x)"
  "sbr_get world_sandbox_repo i = on_db (sbr_get sq_sandboxes i)"
  "sbr_get_by_name world_sandbox_repo i = on_db (sbr_get_by_name sq_sandboxes i)"
  "sbr_list world_sandbox_repo f = on_db (sbr_list sq_sandboxes f)"
  "sbr_update world_sandbox_repo x = on_db (sbr_update sq_sandboxes x)"
  "snr_create world_snapshot_repo y = on_db (snr_create sq_snapshots y)"
  "snr_get world_snapshot_repo i = on_db (snr_get sq_snapshots i)"
  "snr_get_by_name world_snapshot_repo i = on_db (snr_get_by_name sq_snapshots i)"
  "snr_list world_snapshot_repo g = on_db (snr_list sq_snapshots g)"
  "snr_count_children world_snapshot_repo i = on_db (snr_count_children sq_snapshots i)"
  "snr_delete world_snapshot_repo i = on_db (snr_delete sq_snapshots i)"
  "exr_create world_exec_repo z = on_db (exr_create sq_execs z)"
  "exr_get world_exec_repo i = on_db (exr_get sq_execs i)"
  "exr_list_running world_exec_repo = on_db (exr_list_running sq_execs)"
  "exr_update world_exec_repo z = on_db (exr_update sq_execs z)"
  "tkr_create world_token_repo t = on_db (tkr_create sq_tokens t)"
  "tkr_get world_token_repo i = on_db (tkr_get sq_tokens i)"
  "tkr_get_by_hash world_token_repo i = on_db (tkr_get_by_hash sq_tokens i)"
  "tkr_get_by_name world_token_repo i = on_db (tkr_get_by_name sq_tokens i)"
  "tkr_list world_token_repo = on_db (tkr_list sq_tokens)"
  "tkr_update world_token_repo t = on_db (tkr_update sq_tokens t)"
  "tkr_touch world_token_repo i at = on_db (tkr_touch sq_tokens i at)"
  "evr_create world_event_repo e = on_db (evr_create sq_events e)"
  "evr_list world_event_repo h = on_db (evr_list sq_events h)"
  "evr_delete_older world_event_repo at = on_db (evr_delete_older sq_events at)"
  "evr_delete_beyond world_event_repo n = on_db (evr_delete_beyond sq_events n)"
  by (simp_all add: world_sandbox_repo_def world_snapshot_repo_def world_exec_repo_def
      world_token_repo_def world_event_repo_def)

lemma world_runtime_ops [simp]:
  "rt_create world_runtime x = on_rt (rt_create fake_runtime x)"
  "rt_start world_runtime i = on_rt (rt_start fake_runtime i)"
  "rt_stop world_runtime i d = on_rt (rt_stop fake_runtime i d)"
  "rt_destroy world_runtime i = on_rt (rt_destroy fake_runtime i)"
  "rt_inspect world_runtime i = on_rt (rt_inspect fake_runtime i)"
  "rt_exec world_runtime i y = on_rt (rt_exec fake_runtime i y)"
  "rt_inspect_exec world_runtime i = on_rt (rt_inspect_exec fake_runtime i)"
  "rt_snapshot world_runtime i = on_rt (rt_snapshot fake_runtime i)"
  "rt_delete_snapshot world_runtime i = on_rt (rt_delete_snapshot fake_runtime i)"
  "rt_unpause world_runtime i = on_rt (rt_unpause fake_runtime i)"
  "rt_recv world_runtime i = on_rt (rt_recv fake_runtime i)"
  "rt_wait world_runtime i = on_rt (rt_wait fake_runtime i)"
  "rt_close world_runtime i = on_rt (rt_close fake_runtime i)"
  by (simp_all add: world_runtime_def)

text \<open>Each law of a part, carried to the world.\<close>

interpretation world_box: sandbox_store world_sandbox_repo world_rows world_calm
  by (unfold_locales; unfold world_repo_ops world_views;
      (rule wp_on_db keeps_on_db)?,
      (rule sq_sandbox.sb_create_calm sq_sandbox.sb_get_calm sq_sandbox.sb_get_by_name_calm
         sq_sandbox.sb_list_calm sq_sandbox.sb_update_calm |
       rule wp_weaken [OF sq_sandbox.sb_create_law] wp_weaken [OF sq_sandbox.sb_get_law]
         wp_weaken [OF sq_sandbox.sb_get_by_name_law] wp_weaken [OF sq_sandbox.sb_list_law]
         wp_weaken [OF sq_sandbox.sb_update_law]; simp add: entails_def world_calm_def))

lemma on_rt_law:
  assumes "\<And>f. wp m (Q' f) (E' f) f"
    and "\<And>a f x. Q' (w_rt w) a f \<Longrightarrow> Q a (w\<lparr>w_rt_faults := x, w_rt := f\<rparr>)"
    and "\<And>e f x. E' (w_rt w) e f \<Longrightarrow> E e (w\<lparr>w_rt_faults := x, w_rt := f\<rparr>)"
    and "\<And>x. E (Sentinel Rt_unavailable) (w\<lparr>w_rt_faults := x\<rparr>)"
  shows "wp (on_rt m) Q E w"
  by (rule wp_on_rt) (use assms in \<open>auto intro!: wp_weaken [OF assms(1)]\<close>)

interpretation world_rt: container_runtime world_runtime world_ctr world_known world_images world_calm
proof (unfold_locales; unfold world_runtime_ops world_views)
  fix spec w
  show "wp (on_rt (rt_create fake_runtime spec))
      (\<lambda>i w'. entails (world_calm w) (i \<noteq> [] \<and> i \<notin> fake_known (w_rt w)) \<and>
         fake_known (w_rt w') = insert i (fake_known (w_rt w)) \<and>
         fake_ctr (w_rt w') = (fake_ctr (w_rt w))(i := C_stopped))
      (\<lambda>_ w'. fake_ctr (w_rt w') = fake_ctr (w_rt w) \<and> fake_known (w_rt w') = fake_known (w_rt w)) w"
    by (rule on_rt_law [OF faker.create_law]) (auto simp: entails_def world_calm_def)
next
  fix i w
  show "wp (on_rt (rt_snapshot fake_runtime i))
      (\<lambda>info w'. fake_ctr (w_rt w') = fake_ctr (w_rt w) \<and>
         entails (world_calm w) (si_ref info \<notin> fake_images (w_rt w)) \<and>
         fake_images (w_rt w') = insert (si_ref info) (fake_images (w_rt w)))
      (\<lambda>_ w'. fake_ctr (w_rt w') = fake_ctr (w_rt w) \<and> fake_images (w_rt w') = fake_images (w_rt w)) w"
    by (rule on_rt_law [OF faker.snapshot_law]) (auto simp: entails_def world_calm_def)
qed ((rule on_rt_law [OF faker.start_law] on_rt_law [OF faker.stop_law] on_rt_law [OF faker.destroy_law]
      on_rt_law [OF faker.inspect_law] on_rt_law [OF faker.unpause_law] on_rt_law [OF faker.delete_snapshot_law]
    | (rule leaves_on_rt_view, rule faker.create_images faker.start_frame faker.stop_frame faker.destroy_frame
      faker.inspect_frame faker.unpause_frame faker.snapshot_frame faker.delete_snapshot_frame)); simp)+

lemma now_world: "world_now w = (t, w') \<Longrightarrow> w_db w' = w_db w \<and> w_rt w' = w_rt w \<and> w_logs w' = w_logs w \<and>
    w_clock w \<le> t \<and> w_clock w' = t"
  by (auto simp: world_now_def Let_def split: list.splits)

lemma leaves_now:
  assumes "\<And>w w'. w_db w' = w_db w \<Longrightarrow> w_rt w' = w_rt w \<Longrightarrow> w_logs w' = w_logs w \<Longrightarrow> f w' = f w"
  shows "leaves f (liftE world_now)"
proof (rule leavesI)
  fix w r w'
  assume "liftE world_now w = (r, w')"
  then obtain t where "world_now w = (t, w')" by (auto simp: liftE_def split: prod.splits)
  then show "f w' = f w" by (intro assms) (auto dest: now_world)
qed

lemma leaves_new_id: "(\<And>w n. f (w\<lparr>w_next := n\<rparr>) = f w) \<Longrightarrow> leaves f (liftE (world_new_id p))"
  by (auto simp: leaves_def liftE_def world_new_id_def)

lemma calm_by_view:
  assumes "leaves (\<lambda>w. (w_db w, w_rt w)) m"
  shows "keeps world_calm m"
proof (rule keepsI)
  fix w r w'
  assume "world_calm w" "m w = (r, w')"
  then show "world_calm w'" using leavesD [OF assms, of w r w'] by (simp add: world_calm_def)
qed

lemma calm_now: "keeps world_calm (liftE world_now)"
  by (intro calm_by_view leaves_now) simp

lemma calm_new_id: "keeps world_calm (liftE (world_new_id p))"
  by (intro calm_by_view leaves_new_id) simp

lemma keeps_snapshot_get:
  assumes "\<And>i. keeps P (snr_get world_snapshot_repo i)" "\<And>i. keeps P (snr_get_by_name world_snapshot_repo i)"
  shows "keeps P (snapshot_get (snapshots_of p) ref)" "keeps P (snapshot_resolve (snapshots_of p) ref)"
proof -
  show "keeps P (snapshot_get (snapshots_of p) ref)"
    unfolding snapshot_get_def world_parts by (intro keeps_rules assms)
  then show "keeps P (snapshot_resolve (snapshots_of p) ref)"
    unfolding snapshot_resolve_def by (intro keeps_rules)
qed

lemma resolve_leaves:
  assumes "\<And>i. leaves f (snr_get world_snapshot_repo i)" "\<And>i. leaves f (snr_get_by_name world_snapshot_repo i)"
  shows "leaves f (snapshot_resolve (snapshots_of p) ref)"
  using keeps_snapshot_get(2) [OF keeps_by_leaves keeps_by_leaves, OF assms]
  by (rule leaves_by_keeps)

interpretation box: sandbox_env "sandboxes_of p" world_rows world_calm world_ctr world_known world_images for p
proof (intro sandbox_env.intro sandbox_env_axioms.intro; unfold world_parts)
  show "sandbox_store world_sandbox_repo world_rows world_calm"
    by (rule world_box.sandbox_store_axioms)
  show "container_runtime world_runtime world_ctr world_known world_images world_calm"
    by (rule world_rt.container_runtime_axioms)
next
  fix resolve :: "string \<Rightarrow> (world, resolved) op" and ref
  assume "Some (snapshot_resolve (snapshots_of p)) = Some resolve"
  then have r: "resolve = snapshot_resolve (snapshots_of p)" by simp
  show "leaves (\<lambda>s. (world_rows s, world_ctr s, world_known s)) (resolve ref)"
    unfolding r world_repo_ops sq_ops sq_snapshot_get_def sq_snapshot_get_by_name_def
    by (rule resolve_leaves;
        unfold world_repo_ops sq_ops sq_snapshot_get_def sq_snapshot_get_by_name_def;
        rule leaves_on_db_view [OF leaves_statement, where g = db_sandboxes]; simp)
  show "keeps world_calm (resolve ref)"
    unfolding r by (rule keeps_snapshot_get; unfold world_repo_ops sq_ops; rule keeps_on_db, rule sq_calm)
qed (unfold world_repo_ops world_runtime_ops fake_runtime_ops, (rule calm_now calm_new_id |
     (rule keeps_on_rt, rule fake_keeps_calm) | (rule leaves_on_rt leaves_on_db leaves_now leaves_new_id; simp))+)

section \<open>The snapshot service on the world\<close>

interpretation world_snapshots: snapshot_store world_snapshot_repo world_snaps
  by (unfold_locales; unfold world_repo_ops world_views;
      ((rule leaves_on_db_view [OF sq_snapshot.sn_list_law], simp) | (rule wp_on_db,
      (rule wp_weaken [OF sq_snapshot.sn_create_law] wp_weaken [OF sq_snapshot.sn_get_law]
         wp_weaken [OF sq_snapshot.sn_get_by_name_law] wp_weaken [OF sq_snapshot.sn_count_law]
         wp_weaken [OF sq_snapshot.sn_delete_law]; simp))))

interpretation snaps: snapshot_env "snapshots_of p" world_snaps world_ctr world_known world_images world_calm for p
proof (intro snapshot_env.intro snapshot_env_axioms.intro; unfold world_parts)
  show "snapshot_store world_snapshot_repo world_snaps"
    by (rule world_snapshots.snapshot_store_axioms)
  show "container_runtime world_runtime world_ctr world_known world_images world_calm"
    by (rule world_rt.container_runtime_axioms)
qed (unfold world_repo_ops world_runtime_ops fake_runtime_ops,
     (rule leaves_on_rt leaves_on_db leaves_now leaves_new_id; simp)+)

section \<open>Tokens and events on the world\<close>

interpretation world_tks: token_store world_token_repo world_tokens
  by (unfold_locales; unfold world_repo_ops world_views; rule wp_on_db;
      rule wp_weaken [OF sq_token.tk_create_law] wp_weaken [OF sq_token.tk_get_law]
         wp_weaken [OF sq_token.tk_get_by_hash_law] wp_weaken [OF sq_token.tk_get_by_name_law]
         wp_weaken [OF sq_token.tk_list_law] wp_weaken [OF sq_token.tk_update_law]
         wp_weaken [OF sq_token.tk_touch_law]; simp)

lemma world_settings_ops [simp]:
  "set_get world_settings k = on_db (sq_setting_get k)" "set_delete world_settings k = on_db (sq_setting_delete k)"
  by (simp_all add: world_settings_def)

lemma leaves_generate: "(\<And>w n. f (w\<lparr>w_next := n\<rparr>) = f w) \<Longrightarrow> leaves f (world_generate p)"
  by (simp add: leaves_def world_generate_def)

interpretation keys: auth_boot "tokens_of p" world_tokens w_clock world_settings for p
proof (intro auth_boot.intro auth_env.intro auth_env_axioms.intro auth_boot_axioms.intro, unfold world_parts)
  show "token_store world_token_repo world_tokens"
    by (rule world_tks.token_store_axioms)
  fix s n s'
  assume "world_now s = (n, s')"
  then show "world_tokens s' = world_tokens s \<and> w_clock s \<le> n \<and> w_clock s' = n"
    by (auto dest: now_world)
next
  fix k
  show "leaves (\<lambda>s. (world_tokens s, w_clock s)) (set_get world_settings k)"
    unfolding world_settings_ops sq_setting_get_def
    by (rule leaves_on_db_view [OF leaves_statement, where g = db_tokens]; simp)
  show "leaves (\<lambda>s. (world_tokens s, w_clock s)) (set_delete world_settings k)"
    unfolding world_settings_ops sq_setting_delete_def
    by (rule leaves_on_db_view [OF leaves_statement, where g = db_tokens]; simp)
qed (unfold world_repo_ops, (rule leaves_on_db leaves_new_id leaves_generate; simp)+)

interpretation world_evs: event_store world_event_repo world_events
proof (unfold_locales; unfold world_repo_ops world_views)
  fix keep :: int and w
  assume "0 < keep"
  then show "wp (on_db (evr_delete_beyond sq_events keep))
      (\<lambda>n w'. db_events (w_db w') = trim_to keep (db_events (w_db w)) \<and>
         n = int (length (db_events (w_db w))) - int (length (db_events (w_db w'))))
      (\<lambda>_ w'. db_events (w_db w') = db_events (w_db w)) w"
    by (intro wp_on_db wp_weaken [OF sq_log.ev_beyond_law]) simp_all
qed (rule wp_on_db, rule wp_weaken [OF sq_log.ev_create_law] wp_weaken [OF sq_log.ev_list_law]
       wp_weaken [OF sq_log.ev_older_law]; simp)+

interpretation trail: audit_env "events_of p" world_events w_clock for p
proof (intro audit_env.intro audit_env_axioms.intro; unfold world_parts)
  show "event_store world_event_repo world_events"
    by (rule world_evs.event_store_axioms)
  fix s n s'
  assume "world_now s = (n, s')"
  then show "world_events s' = world_events s \<and> w_clock s \<le> n"
    by (auto dest: now_world)
qed (rule leaves_new_id, simp)

section \<open>The exec service on the world\<close>

interpretation world_xs: exec_store world_exec_repo world_execs world_calm
  by (unfold_locales; unfold world_repo_ops world_views;
      (rule wp_on_db keeps_on_db)?,
      (rule sq_exec.ex_create_calm sq_exec.ex_get_calm sq_exec.ex_list_calm sq_exec.ex_update_calm |
       rule wp_weaken [OF sq_exec.ex_create_law] wp_weaken [OF sq_exec.ex_get_law]
         wp_weaken [OF sq_exec.ex_list_law] wp_weaken [OF sq_exec.ex_update_law];
         simp add: entails_def world_calm_def))

lemma fake_calm_sessions: "fake_calm f \<Longrightarrow> fake_calm (f\<lparr>fk_sessions := ss\<rparr>)"
  unfolding fake_calm_def by (simp add: fake_known_def fake_images_def)

lemma fake_calm_next:
  assumes "fake_calm f"
  shows "fake_calm (f\<lparr>fk_next := Suc (fk_next f)\<rparr>)"
proof -
  have "fk_uuids f ` {..<fk_next f} \<subseteq> fk_uuids f ` {..<Suc (fk_next f)}" by auto
  then show ?thesis
    using assms unfolding fake_calm_def by (simp add: fake_known_def fake_images_def) blast
qed

lemma fake_exec_calm:
  "keeps fake_calm (fake_exec i spec)" "keeps fake_calm (fake_inspect_exec x)"
  "keeps fake_calm (fake_recv x)" "keeps fake_calm (fake_wait x)" "keeps fake_calm (fake_close x)"
  by (auto intro!: keepsI fake_calm_sessions fake_calm_next simp: fake_exec_def fake_inspect_exec_def fake_recv_def
      fake_wait_def fake_close_def Let_def split: option.splits if_splits)

lemma keeps_runtime_id:
  assumes "\<And>i. keeps P (sbr_get world_sandbox_repo i)"
  shows "keeps P (sandbox_runtime_id (sandboxes_of p) i)"
  unfolding sandbox_runtime_id_def world_parts by (intro keeps_rules assms)

lemma calm_by_log: "w_db w' = w_db w \<Longrightarrow> w_rt w' = w_rt w \<Longrightarrow> world_calm w' = world_calm w"
  by (simp add: world_calm_def)

interpretation runs: exec_env "execs_of p" world_execs world_calm for p
proof (intro exec_env.intro exec_env_axioms.intro; (unfold world_parts)?)
  show "exec_store world_exec_repo world_execs world_calm"
    by (rule world_xs.exec_store_axioms)
  fix i
  show "leaves world_execs (sandbox_runtime_id (sandboxes_of p) i)"
    by (rule leaves_by_keeps, rule keeps_runtime_id, rule keeps_by_leaves)
      (simp add: leaves_on_db_view [OF leaves_statement, where g = db_execs] sq_sandbox_get_def)
  show "keeps world_calm (sandbox_runtime_id (sandboxes_of p) i)"
    by (rule keeps_runtime_id) (simp add: world_box.sb_get_calm [simplified])
  show "leaves world_execs (world_open_log i)" "keeps world_calm (world_open_log i)"
    by (simp_all add: leaves_def keeps_def world_open_log_def world_calm_def)
qed (unfold world_runtime_ops fake_runtime_ops,
     (rule calm_now calm_new_id | (rule keeps_on_rt, rule fake_exec_calm) |
      (rule leaves_on_rt leaves_now leaves_new_id; simp) | simp add: world_calm_def)+)

text \<open>The sessions of a runtime that will not fail: what is left of the script, and the code.\<close>

definition world_sessions :: "world \<Rightarrow> string \<Rightarrow> ((goerr + frame) list \<times> int) option" where
  "world_sessions w x =
     (if True \<in> set (w_rt_faults w) then None
      else map_option (\<lambda>ss. (drop (fs_pos ss) (fs_steps ss), fs_exit_code ss)) (map_of (fk_sessions (w_rt w)) x))"

lemma tl_no_faults: "True \<notin> set bs \<Longrightarrow> True \<notin> set (tl bs)" for bs :: "bool list"
  by (cases bs) auto

lemma on_rt_sound:
  "True \<notin> set (w_rt_faults w) \<Longrightarrow>
     on_rt m w = (case m (w_rt w) of (r, f) \<Rightarrow> (r, w\<lparr>w_rt_faults := tl (w_rt_faults w), w_rt := f\<rparr>))"
  by (cases "w_rt_faults w") (auto simp: on_rt_def Let_def)

lemma world_sessionsD:
  assumes "world_sessions w x = Some (steps, c)"
  obtains ss where "True \<notin> set (w_rt_faults w)" "map_of (fk_sessions (w_rt w)) x = Some ss"
    "steps = drop (fs_pos ss) (fs_steps ss)" "c = fs_exit_code ss"
  using assms by (auto simp: world_sessions_def split: if_splits)

interpretation plays: exec_session "execs_of p" world_execs world_calm world_sessions for p
proof (intro exec_session.intro exec_session_axioms.intro; (unfold world_parts)?)
  show "exec_env (execs_of p) world_execs world_calm" by (rule runs.exec_env_axioms)
  fix w x steps c
  assume "world_sessions w x = Some (steps, c)"
  then obtain ss where ok: "True \<notin> set (w_rt_faults w)" and ss: "map_of (fk_sessions (w_rt w)) x = Some ss"
    "steps = drop (fs_pos ss) (fs_steps ss)" "c = fs_exit_code ss" by (rule world_sessionsD)
  show "wp (rt_recv world_runtime x)
      (\<lambda>fr s'. \<exists>xs. steps = Inr fr # xs \<and> world_sessions s' x = Some (xs, c) \<and> w_logs s' = w_logs w)
      (\<lambda>e s'. (steps = [] \<and> e = Sentinel Io_eof \<or> (\<exists>xs. steps = Inl e # xs)) \<and>
         (\<exists>xs. world_sessions s' x = Some (xs, c)) \<and> w_logs s' = w_logs w) w"
  proof (cases "length (fs_steps ss) \<le> fs_pos ss")
    case False
    then have "steps = fs_steps ss ! fs_pos ss # drop (Suc (fs_pos ss)) (fs_steps ss)"
      using ss(2) by (simp add: Cons_nth_drop_Suc)
    then show ?thesis
      using False ss ok tl_no_faults [OF ok]
      by (auto simp: wp_def on_rt_sound fake_recv_def world_sessions_def update_conv' split: sum.splits)
  qed (use ss ok tl_no_faults [OF ok] in \<open>simp add: wp_def on_rt_sound fake_recv_def world_sessions_def\<close>)
  show "wp (rt_wait world_runtime x) (\<lambda>c' s'. c' = c \<and> w_logs s' = w_logs w) (\<lambda>_ _. False) w"
    using ss ok by (simp add: wp_def on_rt_sound fake_wait_def)
next
  fix i s
  show "wp (world_open_log i)
      (\<lambda>_ s'. world_sessions s' = world_sessions s \<and> w_logs s' = (w_logs s)(i \<mapsto> log_file (execs_of p) i s))
      (\<lambda>_ _. \<not> world_calm s) s"
    by (simp add: wp_def world_open_log_def world_sessions_def fun_eq_iff log_file_def)
qed (unfold world_repo_ops world_runtime_ops, ((rule leaves_on_rt leaves_on_db leaves_now; simp) |
     simp add: world_sessions_def fun_eq_iff)+)

end
