(* ===== verification/First_Start.thy ===== *)
theory First_Start
  imports World
begin

text \<open>
  The daemon on an empty store and an empty runtime, a concrete deployment for the examples,
  and the rules that read a law as what a run returned.
\<close>

section \<open>A first start\<close>

definition fresh_world :: "(nat \<Rightarrow> string) \<Rightarrow> bool list \<Rightarrow> nat list \<Rightarrow> time \<Rightarrow> world" where
  "fresh_world uuids faults delays now =
     \<lparr>w_db = db_empty, w_rt = fake_new uuids, w_rt_faults = faults, w_clock = now, w_delays = delays,
      w_next = 0, w_logs = Map.empty, w_woken = []\<rparr>"

lemma db_empty_calm: "db_calm db_empty"
  by (simp add: db_calm_def db_ok_def db_empty_def live_names_unique_def snapshots_linked_def tokens_unique_def)

lemma fresh_calm: "inj uuids \<Longrightarrow> (\<And>n. uuids n \<noteq> []) \<Longrightarrow> world_calm (fresh_world uuids faults delays now)"
  by (simp add: world_calm_def fresh_world_def db_empty_calm fake_new_calm)

lemma fresh_rest: "inj uuids \<Longrightarrow> (\<And>n. uuids n \<noteq> []) \<Longrightarrow> box.rest (fresh_world uuids faults delays now)"
  by (simp add: box.rest_def fresh_calm)
    (simp add: fresh_world_def db_empty_def fake_new_def settled_def own_containers_def fake_ctr_def fake_known_def)

text \<open>A concrete deployment, for the examples.\<close>

definition sample :: deployment where
  "sample =
     \<lparr>dp_config = \<lparr>cf_addr = ''127.0.0.1:8080'', cf_data_dir = ''/var/lib/orcal'', cf_token = [],
        cf_docker_host = [], cf_container_runtime = [], cf_exec_output_max_bytes = 67108864,
        cf_default_cpu_millis = 1000, cf_default_memory_bytes = 1073741824, cf_default_pids_limit = 512,
        cf_network_name = ''orcal'', cf_file_max_bytes = 67108864, cf_archive_max_bytes = 1073741824,
        cf_list_max_entries = 10000, cf_list_max_scan_bytes = 268435456, cf_audit_retention_days = 90,
        cf_audit_max_events = 1000000\<rparr>,
      dp_oci_runtime = ''runc'', dp_is_uuid = (\<lambda>s. take 3 s = ''id-''), dp_uuid = (\<lambda>n. ''id-'' @ decimal n),
      dp_secret = (\<lambda>n. ''orcal_'' @ decimal n), dp_hash = (\<lambda>s. ''#'' @ s)\<rparr>"

definition sample_uuids :: "nat \<Rightarrow> string" where "sample_uuids n = ''c'' @ decimal n"

lemma sample_uuids_ok: "inj sample_uuids" "sample_uuids n \<noteq> []"
  by (simp_all add: sample_uuids_def inj_def decimal_inj)

section \<open>Reading a law off a run\<close>

lemma wp_cases:
  assumes "wp m Q E s"
  shows "case m s of (Inr a, s') \<Rightarrow> Q a s' | (Inl e, s') \<Rightarrow> E e s'"
  using assms by (simp add: wp_def split: prod.splits sum.splits)

lemma ran_ok: "\<not> isl (fst (m s)) \<Longrightarrow> \<exists>a s'. m s = (Inr a, s')"
  by (cases "m s"; cases "fst (m s)") auto

lemma keeps_pair: "keeps P m \<Longrightarrow> P s \<Longrightarrow> P (snd (m s))"
  by (simp add: keeps_def)

section \<open>A first sandbox\<close>

definition sample_options :: create_options where
  "sample_options =
     \<lparr>opt_name = ''web'', opt_image = ''alpine'', opt_env = None, opt_labels = None,
      opt_resources = \<lparr>cpu_millis = 0, memory_bytes = 0, pids_limit = 0\<rparr>, opt_network = []\<rparr>"

definition sample_world :: world where
  "sample_world = run_calls (sandboxes_of sample) [Call_create sample_options] (fresh_world sample_uuids [] [] 100)"

lemma sample_calm: "world_calm sample_world"
proof -
  have "box.rest sample_world"
    unfolding sample_world_def using fresh_rest [OF sample_uuids_ok] by (rule box.calls_rest)
  then show ?thesis by (simp add: box.rest_def)
qed

text \<open>The same, in a runtime whose commands write to both streams and exit with 3.\<close>

definition scripted_world :: world where
  "scripted_world = sample_world\<lparr>w_rt := (w_rt sample_world)\<lparr>
     fk_script := [Inr \<lparr>fr_stream = Stream_stdout, fr_data = [104]\<rparr>, Inr \<lparr>fr_stream = Stream_stderr, fr_data = [33]\<rparr>],
     fk_exit_code := 3\<rparr>\<rparr>"

lemma scripted_calm: "world_calm scripted_world"
  using sample_calm
  by (simp add: scripted_world_def world_calm_def fake_calm_def fake_known_def fake_images_def)

section \<open>A store that does not fail\<close>

lemma sound_statement:
  "True \<notin> set (db_faults d) \<Longrightarrow> statement f d = f (d\<lparr>db_faults := tl (db_faults d)\<rparr>)"
  by (cases d; cases "db_faults d") (auto simp: statement_def)

lemma calm_no_faults: "world_calm w \<Longrightarrow> True \<notin> set (db_faults (w_db w))"
  by (auto simp: world_calm_def db_calm_def)

end
