(* ===== verification/Fleet.thy ===== *)
theory Fleet
  imports First_Start
begin

text \<open>
  What the sandbox and snapshot services guarantee on the daemon put together: the laws of
  theories \<open>Sandbox\<close>, \<open>Sandbox_Settled\<close>, \<open>Sandbox_Outcomes\<close> and \<open>Snapshot\<close>, through
  their interpretations on the world. A runtime call may fail at any point; where a property
  needs a store that does not fail it says so with \<open>world_calm\<close>.
\<close>

section \<open>Rows\<close>

text \<open>C2 [rows_follow_state_machine]: whatever calls are made, and whatever the store or the runtime
  fails, a stored sandbox stays stored, keeps everything it was created with, and its state
  only moves along the edges of \<open>transitions\<close>.\<close>

theorem rows_follow_state_machine:
  assumes "sandbox_row (world_rows w) i = Some x"
  shows "\<exists>y. sandbox_row (world_rows (run_calls (sandboxes_of p) cs w)) i = Some y \<and>
     same_sandbox x y \<and> moves (sb_state x) (sb_state y)"
  using evolves_row [OF box.calls_evolve [of w p cs] assms] .

theorem rows_follow_state_machine_witness:
  "\<exists>y. sandbox_row (world_rows (run_calls (sandboxes_of sample) [Call_stop ''web'', Call_destroy ''web''] sample_world))
     ''id-0'' = Some y \<and> sb_name y = ''web'' \<and> moves St_running (sb_state y)"
proof -
  have "map_option (\<lambda>x. (sb_name x, sb_state x)) (sandbox_row (world_rows sample_world) ''id-0'') = Some (''web'', St_running)"
    by code_simp
  then show ?thesis
    using rows_follow_state_machine [of sample_world "''id-0''" _ sample "[Call_stop ''web'', Call_destroy ''web'']"]
    by (fastforce simp: same_sandbox_def)
qed

text \<open>C17 [destroying_rows_stuck]: a row in the state destroying is as final as one destroyed. No call
  of the service ever changes it again, so a sandbox whose destruction was interrupted keeps
  its name and its container for good.\<close>

theorem destroying_rows_stuck:
  assumes "sandbox_row (world_rows w) i = Some x" "sb_state x \<in> {St_destroying, St_destroyed}"
  shows "sandbox_row (world_rows (run_calls (sandboxes_of p) cs w)) i = Some x"
proof -
  have "\<not> writable (world_rows w) i" using assms by (auto simp: writable_def)
  then show ?thesis using evolves_stuck [OF box.calls_evolve [of w p cs]] assms(1) by simp
qed

text \<open>The store fails after \<open>destroying\<close> was written: the container's removal was never recorded.\<close>

definition interrupted_world :: world where
  "interrupted_world = run_calls (sandboxes_of sample) [Call_destroy ''web'']
     (sample_world\<lparr>w_db := (w_db sample_world)\<lparr>db_faults := [False, False, False, True]\<rparr>\<rparr>)"

theorem destroying_rows_stuck_witness:
  "\<exists>x. sandbox_row (world_rows interrupted_world) ''id-0'' = Some x \<and> sb_state x = St_destroying \<and>
     sandbox_row (world_rows (run_calls (sandboxes_of sample) [Call_destroy ''web'', Call_start ''web''] interrupted_world))
       ''id-0'' = Some x"
proof -
  have "map_option sb_state (sandbox_row (world_rows interrupted_world) ''id-0'') = Some St_destroying"
    by code_simp
  then show ?thesis
    using destroying_rows_stuck [of interrupted_world "''id-0''" _ sample "[Call_destroy ''web'', Call_start ''web'']"]
    by auto
qed

section \<open>Rows and containers\<close>

lemma rest_unfold: "box.rest w \<longleftrightarrow> world_calm w \<and> settled (world_rows w) (world_ctr w) (world_known w)"
  by (simp add: box.rest_def)



text \<open>C16 [live_names_distinct]: from a first start, no two sandboxes that are not destroyed ever have the
  same non-empty name, though the service checks nothing before it inserts: the partial
  unique index is what decides.\<close>

theorem live_names_distinct:
  assumes "inj uuids" "\<And>n. uuids n \<noteq> []"
    and "w = run_calls (sandboxes_of p) cs (fresh_world uuids faults delays now)"
    and "x \<in> set (world_rows w)" "y \<in> set (world_rows w)" "sb_name x = sb_name y" "sb_name x \<noteq> []"
    and "sb_state x \<noteq> St_destroyed" "sb_state y \<noteq> St_destroyed"
  shows "x = y"
proof -
  have R: "box.rest w"
    unfolding assms(3) using fresh_rest [OF assms(1,2)] by (rule box.calls_rest)
  then have ok: "db_ok (w_db w)" by (simp add: rest_unfold world_calm_def db_calm_def)
  have "sb_id x = sb_id y"
    by (rule live_names_uniqueD [OF db_ok_ids(2) [OF ok]]) (use assms(4-9) in \<open>simp_all add: sandbox_live_named_def\<close>)
  then have "Some x = Some y"
    using row_of_mem [OF db_ok_ids(1) [OF ok], of x] row_of_mem [OF db_ok_ids(1) [OF ok], of y] assms(4,5)
    unfolding world_rows_def by metis
  then show ?thesis by blast
qed

text \<open>The second creation of the name fails; after the first sandbox is destroyed a third succeeds.\<close>

definition renamed_world :: world where
  "renamed_world = run_calls (sandboxes_of sample)
     [Call_create sample_options, Call_create sample_options, Call_destroy ''web'', Call_create sample_options]
     (fresh_world sample_uuids [] [] 100)"

theorem live_names_distinct_witness:
  "\<exists>!x. x \<in> set (world_rows renamed_world) \<and> sb_name x = ''web'' \<and> sb_state x \<noteq> St_destroyed"
proof -
  have rows: "map (\<lambda>x. (sb_name x, sb_state x)) (world_rows renamed_world) = [(''web'', St_destroyed), (''web'', St_running)]"
    by code_simp
  have "(''web'', St_running) \<in> set (map (\<lambda>x. (sb_name x, sb_state x)) (world_rows renamed_world))"
    unfolding rows by (simp del: world_views)
  then obtain x where "x \<in> set (world_rows renamed_world)" "sb_name x = ''web''" "sb_state x = St_running"
    by (auto simp del: world_views)
  then show ?thesis
    by (intro ex1I [of _ x]) (simp, rule live_names_distinct [OF sample_uuids_ok renamed_world_def], simp_all)
qed

section \<open>What an operation has done when it returns\<close>

text \<open>C11 [create_result]: when \<open>Create\<close> returns a sandbox, its row is stored as it was asked for, limits left at
  zero set to the deployment's defaults, running on a container that did not exist before and
  that is running. When it fails, either nothing was stored and no container exists that did
  not before, or the row is stored in the error state.\<close>

theorem create_result:
  assumes "world_calm w"
  shows "case sandbox_create (sandboxes_of p) opts w of
      (Inr x, w') \<Rightarrow>
        (\<exists>net now i rid t. check_options (sandboxes_of p) opts = Inr net \<and>
           x = (new_row (sandboxes_of p) opts net now i)\<lparr>sb_runtime_id := rid, sb_state := St_running, sb_updated_at := t\<rparr> \<and>
           world_rows w' = world_rows w @ [x] \<and> sandbox_row (world_rows w) i = None \<and>
           rid \<notin> world_known w \<and> world_ctr w' rid = C_running \<and> (\<forall>j. j \<noteq> rid \<longrightarrow> world_ctr w' j = world_ctr w j))
    | (Inl e, w') \<Rightarrow>
        world_rows w' = world_rows w \<and> world_ctr w' = world_ctr w \<or>
        (\<exists>x. world_rows w' = world_rows w @ [x] \<and> sb_state x = St_error \<and>
           (\<forall>j. j \<noteq> sb_runtime_id x \<longrightarrow> world_ctr w' j = world_ctr w j))"
  by (rule wp_cases, rule wp_weaken [OF box.create_outcome [OF assms]])
    (auto simp: box.booted_def simp del: world_views, blast)

theorem create_result_witness:
  "\<exists>x w'. sandbox_create (sandboxes_of sample) sample_options (fresh_world sample_uuids [] [] 100) = (Inr x, w') \<and>
     world_rows w' = [x] \<and> sb_state x = St_running \<and> world_ctr w' (sb_runtime_id x) = C_running"
proof -
  let ?w = "fresh_world sample_uuids [] [] 100"
  have "\<not> isl (fst (sandbox_create (sandboxes_of sample) sample_options ?w))" by code_simp
  then obtain x w' where r: "sandbox_create (sandboxes_of sample) sample_options ?w = (Inr x, w')"
    using ran_ok [of "sandbox_create (sandboxes_of sample) sample_options" ?w] by auto
  have "world_rows ?w = []" by (simp add: fresh_world_def db_empty_def)
  then show ?thesis
    using create_result [OF fresh_calm [OF sample_uuids_ok, of "[]" "[]" 100], of sample sample_options] r
    by (auto simp del: world_views)
qed

definition means :: "deployment \<Rightarrow> string \<Rightarrow> world \<Rightarrow> sandbox \<Rightarrow> bool" where
  "means p ref w sb \<longleftrightarrow> sandbox_row (world_rows w) (sb_id sb) = Some sb \<and>
     (if dp_is_uuid p ref then sb_id sb = ref else sb_name sb = ref \<and> sb_state sb \<noteq> St_destroyed)"

definition turned :: "sandbox \<Rightarrow> sb_state \<Rightarrow> sandbox \<Rightarrow> bool" where
  "turned sb st x \<longleftrightarrow> (\<exists>t. x = sb\<lparr>sb_state := st, sb_updated_at := t\<rparr>)"

lemma box_stamped: "box.stamped sb st x = turned sb st x"
  by (simp add: box.stamped_def turned_def)

lemma box_picked:
  assumes "world_calm w" "box.picked p w ref sb"
  shows "means p ref w sb"
proof (cases "dp_is_uuid p ref")
  case False
  then obtain y where y: "y \<in> set (world_rows w)" "sb_id y = sb_id sb" "sb_name y = ref" "sb_state y \<noteq> St_destroyed"
    using assms(2) by (auto simp: box.picked_def box.meant_by_def)
  have row: "sandbox_row (world_rows w) (sb_id sb) = Some sb" using assms(2) by (simp add: box.picked_def)
  have "distinct (map sb_id (world_rows w))" using assms(1) by (simp add: world_calm_def db_calm_def db_ok_ids)
  then have "y = sb" using row_of_mem [of "world_rows w" y] y(1,2) row by simp
  then show ?thesis using False y row by (simp add: means_def)
qed (use assms(2) in \<open>auto simp: means_def box.picked_def box.meant_by_def\<close>)

text \<open>C12 [destroy_result]: a \<open>Destroy\<close> that returns has removed the container of the sandbox it was given and
  left the row destroyed and otherwise as it was; it only starts from a state with an edge to
  destroying. One that fails has touched no container, and has at most put that row into the
  error state.\<close>

theorem destroy_result:
  assumes "world_calm w"
  shows "case sandbox_destroy (sandboxes_of p) ref w of
      (Inr x, w') \<Rightarrow>
        (\<exists>sb. means p ref w sb \<and> can_transition (sb_state sb) St_destroying \<and> turned sb St_destroyed x \<and>
           world_rows w' = put_row x (world_rows w) \<and>
           (sb_runtime_id sb \<noteq> [] \<longrightarrow> world_ctr w' = (world_ctr w)(sb_runtime_id sb := C_gone)))
    | (Inl e, w') \<Rightarrow>
        world_ctr w' = world_ctr w \<and> (world_rows w' = world_rows w \<or>
          (\<exists>sb x. means p ref w sb \<and> turned sb St_error x \<and> world_rows w' = put_row x (world_rows w)))"
  by (rule wp_cases, rule wp_weaken [OF box.destroy_outcome [OF assms]])
    (auto simp: box.gone_def box_stamped simp del: world_views dest!: box_picked [OF assms])

theorem destroy_result_witness:
  "\<exists>x w'. sandbox_destroy (sandboxes_of sample) ''web'' sample_world = (Inr x, w') \<and> sb_state x = St_destroyed \<and>
     world_rows w' = put_row x (world_rows sample_world)"
proof -
  have "\<not> isl (fst (sandbox_destroy (sandboxes_of sample) ''web'' sample_world))" by code_simp
  then obtain x w' where r: "sandbox_destroy (sandboxes_of sample) ''web'' sample_world = (Inr x, w')"
    using ran_ok by metis
  then show ?thesis
    using destroy_result [OF sample_calm, of sample "''web''"] by (auto simp: turned_def simp del: world_views)
qed

section \<open>Snapshots\<close>



lemma before_parts [simp]:
  "locked_get (sandboxes_before p) = locked_get (sandboxes_of p)"
  by (simp add: fun_eq_iff locked_get_def sandbox_get_def)


lemma snapshots_before [simp]: "sns_sandboxes (snapshots_of p) = with_snapshot_source (sandboxes_before p)"
  by (simp add: snapshots_of_def)


definition sample_snapshot :: snapshot_options where
  "sample_snapshot = \<lparr>sno_sandbox_ref = ''web'', sno_name = ''base''\<rparr>"


lemma keeps_source:
  assumes "\<And>src. keeps world_calm (fn src)"
  shows "keeps world_calm (with_snapshot_source (sandboxes_before p) ref fn)"
  unfolding with_snapshot_source_def before_parts locked_get_def sandbox_get_def world_parts
  by (intro keeps_rules assms world_box.sb_get_calm world_box.sb_get_by_name_calm)

lemma keeps_snapshot_create: "keeps world_calm (snapshot_create (snapshots_of p) opts)"
  unfolding snapshot_create_def snapshots_before snapshot_commit_def world_parts world_repo_ops world_runtime_ops
    Let_def fake_runtime_ops sq_ops
  by (intro keeps_rules keeps_source calm_now calm_new_id keeps_on_db keeps_on_rt fake_keeps_calm sq_calm)






text \<open>C15 [snapshot_delete_result]: a \<open>Delete\<close> that returns removed exactly one row, the one it was given, which no
  other snapshot has as its parent, and its image with it. One that fails leaves every row;
  if it removed the image, the row can still be deleted by asking again.\<close>

theorem snapshot_delete_result:
  "case snapshot_delete (snapshots_of p) ref w of
      (Inr _, w') \<Rightarrow>
        (\<exists>x\<in>set (world_snaps w). (if dp_is_uuid p ref then sn_id x else sn_name x) = ref \<and>
           (\<forall>y\<in>set (world_snaps w). sn_parent_id y \<noteq> Some (sn_id x)) \<and>
           world_snaps w' = filter (\<lambda>y. sn_id y \<noteq> sn_id x) (world_snaps w) \<and>
           world_images w' = world_images w - {sn_runtime_ref x})
    | (Inl e, w') \<Rightarrow>
        world_snaps w' = world_snaps w \<and> (world_images w' = world_images w \<or>
          (\<exists>x\<in>set (world_snaps w). world_images w' = world_images w - {sn_runtime_ref x}))"
  by (rule wp_cases, rule wp_weaken [OF snaps.delete_law])
    (auto simp: children_def filter_empty_conv simp del: world_views)

definition snapped_world :: world where
  "snapped_world = snd (snapshot_create (snapshots_of sample) sample_snapshot sample_world)"

theorem snapshot_delete_result_witness:
  "\<exists>w'. snapshot_delete (snapshots_of sample) ''base'' snapped_world = (Inr (), w') \<and> world_snaps w' = []"
proof -
  have "\<not> isl (fst (snapshot_delete (snapshots_of sample) ''base'' snapped_world))" by code_simp
  then obtain w' where r: "snapshot_delete (snapshots_of sample) ''base'' snapped_world = (Inr (), w')"
    using ran_ok [of "snapshot_delete (snapshots_of sample) ''base''" snapped_world] by auto
  moreover have "map sn_id (world_snaps snapped_world) = [''id-1'']" by code_simp
  ultimately show ?thesis
    using snapshot_delete_result [where p = sample and ref = "''base''" and w = snapped_world] by (auto simp del: world_views)
qed

section \<open>Fork and restore\<close>

definition resolves :: "deployment \<Rightarrow> string \<Rightarrow> world \<Rightarrow> resolved \<Rightarrow> bool" where
  "resolves p ref w r \<longleftrightarrow>
     (\<exists>x\<in>set (world_snaps w). (if dp_is_uuid p ref then sn_id x else sn_name x) = ref \<and>
        r = \<lparr>rs_runtime_ref = sn_runtime_ref x, rs_id = sn_id x, rs_network = sn_network x\<rparr>)"

lemma resolve_result:
  "wp (snapshot_resolve (snapshots_of p) ref) (\<lambda>r w'. box.idle w w' \<and> resolves p ref w r) (\<lambda>_ w'. box.idle w w') w"
proof -
  have "wp (snapshot_resolve (snapshots_of p) ref) (\<lambda>r w'. resolves p ref w r) (\<lambda>_ w'. True) w"
    unfolding snapshot_resolve_def
    by (intro wp_rules wp_weaken [OF snaps.get_law]) (auto simp: resolves_def simp del: world_views)
  from wp_conj [OF box.resolve_law [of p "snapshot_resolve (snapshots_of p)" ref w] this] show ?thesis
    by (rule wp_weaken) simp_all
qed

text \<open>A \<open>Fork\<close> that returns has stored a new running sandbox whose image is the snapshot's,
  which is linked to the snapshot, and which is on the snapshot's network unless the caller
  asked for another; its container is new.\<close>

theorem fork_result:
  assumes "world_calm w" "sandbox_fork (sandboxes_of p) sref opts w = (Inr x, w')"
  shows "\<exists>r. resolves p sref w r \<and> sb_parent_snapshot_id x = Some (rs_id r) \<and> sb_image x = rs_runtime_ref r \<and>
     sb_state x = St_running \<and> (opt_network opts = [] \<and> rs_network r \<noteq> [] \<longrightarrow> sb_network x = rs_network r) \<and>
     world_rows w' = world_rows w @ [x] \<and> sb_runtime_id x \<notin> world_known w \<and>
     world_ctr w' (sb_runtime_id x) = C_running \<and> (\<forall>j. j \<noteq> sb_runtime_id x \<longrightarrow> world_ctr w' j = world_ctr w j)"
  using wp_Inr [OF box.fork_outcome [where resolve = "snapshot_resolve (snapshots_of p)" and R = "resolves p sref",
        OF assms(1) _ resolve_result] assms(2)]
  by (auto simp: box.booted_def simp del: world_views)


lemma snapped_calm: "world_calm snapped_world"
  unfolding snapped_world_def using keeps_snapshot_create sample_calm by (rule keeps_pair)

theorem fork_result_witness:
  "\<exists>x w'. sandbox_fork (sandboxes_of sample) ''base'' (sample_options\<lparr>opt_name := ''copy''\<rparr>) snapped_world = (Inr x, w') \<and>
     sb_parent_snapshot_id x = Some ''id-1'' \<and> sb_image x = ''sha256:fake1'' \<and> sb_state x = St_running"
proof -
  let ?m = "sandbox_fork (sandboxes_of sample) ''base'' (sample_options\<lparr>opt_name := ''copy''\<rparr>)"
  have "\<not> isl (fst (?m snapped_world))" by code_simp
  then obtain x w' where r: "?m snapped_world = (Inr x, w')" using ran_ok by metis
  have "map (\<lambda>s. (sn_id s, sn_runtime_ref s)) (world_snaps snapped_world) = [(''id-1'', ''sha256:fake1'')]" by code_simp
  then show ?thesis
    using fork_result [OF snapped_calm r] r by (auto simp: resolves_def simp del: world_views)
qed


end
