(* ===== verification/Runs.thy ===== *)
theory Runs
  imports First_Start
begin

text \<open>
  The life of an exec on the daemon put together: what \<open>Create\<close> leaves in the store, the
  supervisor that copies a session into its log and ends, what a client then reads, and what a
  restart makes of the execs that were running. The laws are those of theory \<open>Exec\<close>.
\<close>

section \<open>Every supervisor ends\<close>

context exec_session
begin

lemma pump_ends:
  assumes "sessions s x = Some (steps, c)" "length steps < n"
  shows "wp (pump n sv i x w) (\<lambda>p _. p \<noteq> None) (\<lambda>_ _. False) s"
  using assms
proof (induction n arbitrary: s w steps)
  case (Suc n)
  have step: "wp (pump n sv i x w') (\<lambda>p _. p \<noteq> None) (\<lambda>_ _. False) (exs_notify sv i t)"
    if "steps = Inr f # xs" "sessions t x = Some (xs, c)" for f xs w' t
    using that Suc.prems(2) by (intro Suc.IH) (auto simp: sessions_notify)
  show ?case
    unfolding pump.simps
    by (intro wp_rules wp_weaken [OF recv_law [OF Suc.prems(1)]] wp_weaken [OF write_law]) (auto intro: step simp del: not_None_eq)
qed simp

lemma supervise_over:
  assumes "sessions s x = Some (steps, c)" "length steps < n"
  shows "wp (supervise n sv i x) (\<lambda>over _. over) (\<lambda>_ _. False) s"
proof -
  have opened: "wp (open_writer sv i) (\<lambda>_ t. sessions t = sessions s) (\<lambda>_ _. True) s"
    unfolding open_writer_def
    by (intro wp_bind wp_weaken [OF open_law]) (auto simp: wp_def sessions_put split: prod.splits)
  have pumped: "wp (pump n sv i x w) (\<lambda>p _. p \<noteq> None) (\<lambda>_ _. False) t" if "sessions t = sessions s" for w t
    using assms that by (intro pump_ends) auto
  show ?thesis
    unfolding supervise_def
    by (intro wp_rules wp_weaken [OF opened] wp_weaken [OF pumped] wp_weaken [OF wind_up_law]
        wp_weaken [OF finish_law] exec_rules) auto
qed

lemma supervise_settles:
  assumes "sessions s x = Some (steps, c)" "length steps < n" "calm s" "exec_entry (execs s) i = Some e"
  shows "wp (supervise n sv i x)
    (\<lambda>over s'. over \<and> (\<exists>y. exec_entry (execs s') i = Some y \<and> concluded e y)) (\<lambda>_ _. False) s"
proof (rule wp_weaken [OF wp_conj [OF supervise_over [OF assms(1,2)] supervise_law]])
  fix over s'
  assume *: "over \<and> (if over then supervised i s s' else aside s s')"
  then have "supervised i s s'" by simp
  then obtain code k trunc st where "completes i code k trunc st s s'" "st \<noteq> Ex_running" "st = Ex_failed \<longrightarrow> code = None"
    unfolding supervised_def by auto
  then show "over \<and> (\<exists>y. exec_entry (execs s') i = Some y \<and> concluded e y)"
    using * completes_concludes(3) [OF _ assms(3,4)] by blast
qed simp

end

context exec_env
begin

lemma poll_law:
  assumes "calm s" "exec_entry (execs s) i = Some e"
  shows "wp (poll_tick sv (i, x, trunc))
    (\<lambda>over s'. if over then \<exists>y. exec_entry (execs s') i = Some y \<and> concluded e y \<and> ex_truncated y = trunc
       else execs s' = execs s) (\<lambda>_ _. False) s"
proof -
  have settled: "\<exists>y. exec_entry (execs s') i = Some y \<and> concluded e y \<and> ex_truncated y = trunc"
    if "aside s t" "completes i code n trunc st t s'" "st \<noteq> Ex_running" "st = Ex_failed \<Longrightarrow> code = None"
    for t s' code n st
    using completes_concludes(3) [OF completes_aside [OF that(1,2)] assms that(3,4)] by blast
  show ?thesis
    unfolding poll_tick_def prod.case
    by (intro wp_rules exec_rules wp_weaken [OF settle_law])
      (auto simp: aside_def intro: settled [unfolded aside_def])
qed

end

section \<open>Properties\<close>

text \<open>C30 [exec_create_result]: on a store that does not fail, an exec that is created is in the store, running,
  in the sandbox and with the command it was asked for; one that could not be started is in the
  store as failed, or not there at all: no failed creation leaves a row that looks running.\<close>

theorem exec_create_result:
  assumes "world_calm w"
  shows "case exec_create (execs_of p) opts w of
      (Inr e, w') \<Rightarrow> world_execs w' = world_execs w @ [e] \<and> ex_state e = Ex_running \<and>
         ex_sandbox_id e = xo_sandbox_id opts \<and> ex_command e = xo_command opts
    | (Inl _, w') \<Rightarrow> world_execs w' = world_execs w \<or>
         (\<exists>x. world_execs w' = world_execs w @ [x] \<and> ex_state x = Ex_failed \<and> ex_finished_at x \<noteq> None)"
  by (rule wp_cases, rule wp_weaken [OF runs.create_law [OF assms]]) (auto simp del: world_views)

text \<open>C31 [supervise_ends]: the supervisor of any session the runtime plays comes to its end, whatever the
  session yields and whether or not the log can be written, with more fuel than the session has
  steps; the exec then has its outcome.\<close>

theorem supervise_ends:
  assumes "world_calm w" "exec_entry (world_execs w) i = Some e"
    and "world_sessions w x = Some (steps, c)" "length steps < n"
  shows "\<exists>w' y. supervise n (execs_of p) i x w = (Inr True, w') \<and>
    exec_entry (world_execs w') i = Some y \<and> concluded e y"
proof -
  note law = plays.supervise_settles [OF assms(3,4,1,2), of p]
  obtain r w' where run: "supervise n (execs_of p) i x w = (r, w')" by fastforce
  then show ?thesis
    using wpD [OF law run] by (cases r) (auto simp del: world_views)
qed

text \<open>C32 [session_reaches_reader]: after a session was supervised to its end, reading the log of the exec from
  the start gives the session's frames in order (and a gap record when the session broke off),
  up to the first one the size cap refuses; the row tells the exit code, the size of the log and
  whether anything was cut.\<close>

theorem session_reaches_reader:
  assumes "world_calm w" "exec_entry (world_execs w) i = Some e" "w_logs w i = None"
    and "world_sessions w x = Some (map Inr frs @ tail, c)" "ends_with tail broken" "length frs < n"
    and "list_all (\<lambda>f. fits (fr_data f)) frs"
  shows "\<exists>w' kept y. supervise n (execs_of p) i x w = (Inr True, w') \<and>
    kept = accepted (cf_exec_output_max_bytes (dp_config p)) 0 (entries_of frs broken) \<and>
    read_records (map_option dk_file (w_logs w' i)) 0 = Inr (records_from 0 kept) \<and>
    exec_entry (world_execs w') i = Some y \<and> ex_state y = Ex_exited \<and> ex_exit_code y = Some c \<and>
    ex_output_bytes y = int (length (encode_all kept)) \<and> (ex_truncated y \<longleftrightarrow> kept \<noteq> entries_of frs broken)"
proof -
  have fit: "\<forall>f\<in>set frs. fits (fr_data f)" using assms(7) by (simp add: list_all_iff)
  obtain r w' where run: "supervise n (execs_of p) i x w = (r, w')" by fastforce
  have "case r of Inl e' \<Rightarrow> False | Inr over \<Rightarrow> over \<and> plays.copied p i c (entries_of frs broken) e w'"
    using wpD [OF plays.supervise_copies [OF assms(1,2) _ assms(4-6) fit, of p] run] assms(3)
    by (simp add: world_parts split: sum.splits)
  then have r: "r = Inr True" and cp: "plays.copied p i c (entries_of frs broken) e w'"
    by (auto split: sum.splits)
  let ?kept = "accepted (cf_exec_output_max_bytes (dp_config p)) 0 (entries_of frs broken)"
  have m: "exs_max_bytes (execs_of p) = cf_exec_output_max_bytes (dp_config p)" by (simp add: execs_of_def)
  obtain y where y: "exec_entry (world_execs w') i = Some y" "ex_state y = Ex_exited" "ex_exit_code y = Some c"
      "ex_output_bytes y = int (length (encode_all ?kept))" "ex_truncated y \<longleftrightarrow> ?kept \<noteq> entries_of frs broken"
    and f: "dk_file (log_file (execs_of p) i w') = encode_all ?kept"
    using cp by (auto simp: plays.copied_def m simp del: world_views)
  have "\<forall>(st, d)\<in>set (entries_of frs broken). fits d" using fit by (auto simp: entries_of_def fits_def)
  then have "read_loop (encode_all ?kept) 0 = records_from 0 ?kept"
    using read_frames [of ?kept "[]" 0] accepted_fits by simp
  then have "read_records (map_option dk_file (w_logs w' i)) 0 = Inr (records_from 0 ?kept)"
    using f by (cases "w_logs w' i") (auto simp: log_file_def world_parts read_records_def read_loop.simps [of "[]"] header_size_def)
  then show ?thesis using run r y by blast
qed

text \<open>C33 [restart_accounts]: after a restart on a store that does not fail, every exec that was running has an
  outcome (an exit code, or failed without one), or a poller that will give it one; the flag that
  its log was cut stays what the row said before, and no other exec has changed.\<close>

theorem restart_accounts:
  assumes "world_calm w" "exec_reconcile (execs_of p) w = (Inr ps, w')" "e \<in> set (world_execs w)"
  shows "\<exists>y. exec_entry (world_execs w') (ex_id e) = Some y \<and>
    (if ex_state e \<noteq> Ex_running then y = e
     else concluded e y \<and> ex_truncated y = ex_truncated e \<or>
       y = e \<and> (ex_id e, ex_runtime_exec_id e, ex_truncated e) \<in> set ps)"
proof -
  have "distinct (map ex_id (world_execs w))"
    using assms(1) by (auto simp: world_calm_def db_calm_def db_ok_ids)
  from wp_Inr [OF runs.reconcile_law [OF assms(1) this] assms(2)] assms(3) show ?thesis
    by (fastforce simp: recovered_def split: option.splits simp del: world_views)
qed

text \<open>A poller's tick leaves the exec as it is while the runtime says it runs, and otherwise
  gives it its outcome and is done.\<close>

theorem poller_settles:
  assumes "world_calm w" "exec_entry (world_execs w) i = Some e"
  shows "case poll_tick (execs_of p) (i, x, trunc) w of
      (Inr True, w') \<Rightarrow> \<exists>y. exec_entry (world_execs w') i = Some y \<and> concluded e y \<and> ex_truncated y = trunc
    | (Inr False, w') \<Rightarrow> world_execs w' = world_execs w
    | (Inl _, _) \<Rightarrow> False"
proof -
  obtain r w' where run: "poll_tick (execs_of p) (i, x, trunc) w = (r, w')" by fastforce
  then show ?thesis
    using wpD [OF runs.poll_law [OF assms] run] by (auto simp del: world_views split: sum.splits bool.splits)
qed

section \<open>Examples\<close>

definition list_files :: exec_options where
  "list_files = \<lparr>xo_sandbox_id = ''id-0'', xo_command = [''ls''], xo_env = None, xo_working_dir = [], xo_user = []\<rparr>"

definition executing_world :: world where
  "executing_world = snd (exec_create (execs_of sample) list_files scripted_world)"

lemma executing_calm: "world_calm executing_world"
  unfolding executing_world_def
  by (rule wp_snd, rule wp_weaken [OF runs.create_law [OF scripted_calm]]) simp_all

lemma executing_session:
  "world_sessions executing_world ''c1'' =
     Some (map Inr [\<lparr>fr_stream = Stream_stdout, fr_data = [104]\<rparr>, \<lparr>fr_stream = Stream_stderr, fr_data = [33]\<rparr>] @ [], 3)"
  by code_simp

lemma executing_row:
  obtains e where "exec_entry (world_execs executing_world) ''id-1'' = Some e" "ex_state e = Ex_running"
    "ex_runtime_exec_id e = ''c1''" "ex_id e = ''id-1''" "e \<in> set (world_execs executing_world)"
proof -
  have "map_option (\<lambda>e. (ex_state e, ex_runtime_exec_id e)) (exec_entry (world_execs executing_world) ''id-1'') =
      Some (Ex_running, ''c1'')" by code_simp
  then obtain e where "exec_entry (world_execs executing_world) ''id-1'' = Some e" "ex_state e = Ex_running"
    "ex_runtime_exec_id e = ''c1''" by auto
  then show ?thesis using that exec_entry_id [of _ "''id-1''"] by blast
qed

theorem exec_create_result_witness:
  "\<exists>e w'. exec_create (execs_of sample) list_files scripted_world = (Inr e, w') \<and>
     world_execs w' = world_execs scripted_world @ [e] \<and> ex_state e = Ex_running \<and> ex_command e = [''ls'']"
proof -
  have "\<not> isl (fst (exec_create (execs_of sample) list_files scripted_world))" by code_simp
  then obtain e w' where r: "exec_create (execs_of sample) list_files scripted_world = (Inr e, w')"
    using ran_ok [of "exec_create (execs_of sample) list_files" scripted_world] by auto
  then show ?thesis
    using exec_create_result [OF scripted_calm, where p = sample and opts = list_files] by (auto simp: list_files_def simp del: world_views)
qed

theorem supervise_ends_witness:
  "\<exists>w' y. supervise 3 (execs_of sample) ''id-1'' ''c1'' executing_world = (Inr True, w') \<and>
     exec_entry (world_execs w') ''id-1'' = Some y \<and> ex_state y \<noteq> Ex_running"
proof -
  obtain e where e: "exec_entry (world_execs executing_world) ''id-1'' = Some e" by (rule executing_row)
  show ?thesis
    using supervise_ends [OF executing_calm e executing_session, of 3 sample]
    by (auto simp: concluded_def simp del: world_views)
qed

theorem session_reaches_reader_witness:
  "\<exists>w' y. supervise 3 (execs_of sample) ''id-1'' ''c1'' executing_world = (Inr True, w') \<and>
     read_records (map_option dk_file (w_logs w' ''id-1'')) 0 =
       Inr [\<lparr>lr_stream = log_stdout, lr_data = [104], lr_offset = 6\<rparr>,
            \<lparr>lr_stream = log_stderr, lr_data = [33], lr_offset = 12\<rparr>] \<and>
     exec_entry (world_execs w') ''id-1'' = Some y \<and> ex_exit_code y = Some 3 \<and> \<not> ex_truncated y"
proof -
  obtain e where e: "exec_entry (world_execs executing_world) ''id-1'' = Some e" by (rule executing_row)
  have l: "w_logs executing_world ''id-1'' = None" by code_simp
  have cap: "cf_exec_output_max_bytes (dp_config sample) = 67108864" by (simp add: sample_def)
  show ?thesis
    using session_reaches_reader [OF executing_calm e l executing_session, of False 3 sample]
    by (auto simp: ends_with_def fits_def max_frame_payload_def entries_of_def to_log_stream_def cap header_size_def
        simp del: world_views)
qed

theorem restart_accounts_witness:
  "\<exists>ps w' y. exec_reconcile (execs_of sample) executing_world = (Inr ps, w') \<and>
     exec_entry (world_execs w') ''id-1'' = Some y \<and> ex_state y = Ex_running \<and> (''id-1'', ''c1'', False) \<in> set ps"
proof -
  obtain e where e: "ex_id e = ''id-1''" "e \<in> set (world_execs executing_world)" by (rule executing_row)
  have "map_sum (\<lambda>_. ()) (\<lambda>ps. ps) (fst (exec_reconcile (execs_of sample) executing_world)) = Inr [(''id-1'', ''c1'', False)]"
    by code_simp
  then obtain w' where r: "exec_reconcile (execs_of sample) executing_world = (Inr [(''id-1'', ''c1'', False)], w')"
    by (cases "exec_reconcile (execs_of sample) executing_world"; cases "fst (exec_reconcile (execs_of sample) executing_world)") auto
  have "map_option ex_state (exec_entry (world_execs (snd (exec_reconcile (execs_of sample) executing_world))) ''id-1'') = Some Ex_running"
    by code_simp
  then obtain y where y: "exec_entry (world_execs w') ''id-1'' = Some y" "ex_state y = Ex_running"
    using r by auto
  show ?thesis using restart_accounts [OF executing_calm r e(2)] r y e(1) by auto
qed

theorem poller_settles_witness:
  "\<exists>w'. poll_tick (execs_of sample) (''id-1'', ''c1'', False) executing_world = (Inr False, w') \<and>
     world_execs w' = world_execs executing_world"
proof -
  obtain e where e: "exec_entry (world_execs executing_world) ''id-1'' = Some e" by (rule executing_row)
  have "map_sum (\<lambda>_. ()) (\<lambda>b. b) (fst (poll_tick (execs_of sample) (''id-1'', ''c1'', False) executing_world)) = Inr False"
    by code_simp
  then obtain w' where r: "poll_tick (execs_of sample) (''id-1'', ''c1'', False) executing_world = (Inr False, w')"
    by (cases "poll_tick (execs_of sample) (''id-1'', ''c1'', False) executing_world";
        cases "fst (poll_tick (execs_of sample) (''id-1'', ''c1'', False) executing_world)") auto
  show ?thesis
    using poller_settles [OF executing_calm e, where p = sample and x = "''c1''" and trunc = False] r
    by (simp del: world_views)
qed

end
