(* ===== verification/Stream.thy ===== *)
theory Stream
  imports Exec
begin

text \<open>
  Following an exec: the supervisor that writes its log and the handler that streams it run at
  the same time. \<open>Broadcaster\<close> of \<open>internal/exec\<close>, \<open>drain\<close> and the loop of
  \<open>handleExecOutput\<close> in \<open>internal/api\<close>, as a step relation over all their interleavings, with
  the other execs and readers of the same broadcaster.
\<close>

section \<open>The broadcaster\<close>

text \<open>A channel is a number; a closed one stays closed.\<close>

record broadcaster =
  bc_waiters :: "string \<Rightarrow> nat option"
  bc_closed :: "nat list"
  bc_next :: nat

definition new_broadcaster :: broadcaster where
  "new_broadcaster = \<lparr>bc_waiters = Map.empty, bc_closed = [], bc_next = 0\<rparr>"

definition bc_wait :: "string \<Rightarrow> broadcaster \<Rightarrow> nat \<times> broadcaster" where
  "bc_wait i b =
     (case bc_waiters b i of
        Some ch \<Rightarrow> (ch, b)
      | None \<Rightarrow> (bc_next b, b\<lparr>bc_waiters := (bc_waiters b)(i \<mapsto> bc_next b), bc_next := Suc (bc_next b)\<rparr>))"

definition bc_notify :: "string \<Rightarrow> broadcaster \<Rightarrow> broadcaster" where
  "bc_notify i b =
     (case bc_waiters b i of
        Some ch \<Rightarrow> b\<lparr>bc_closed := ch # bc_closed b, bc_waiters := (bc_waiters b)(i := None)\<rparr>
      | None \<Rightarrow> b)"

section \<open>What is sent\<close>

datatype sse =
    Ev_output string "byte list" int
  | Ev_gap int
  | Ev_exit string "int option" bool
  | Ev_keepalive

definition sse_of :: "log_record \<Rightarrow> sse" where
  "sse_of r =
     (if lr_stream r = log_gap then Ev_gap (lr_offset r)
      else if lr_stream r = log_stderr then Ev_output ''stderr'' (lr_data r) (lr_offset r)
      else Ev_output ''stdout'' (lr_data r) (lr_offset r))"

text \<open>\<open>drain\<close>: the events for the records from an offset, and the offset behind the last.\<close>

definition drain :: "byte list option \<Rightarrow> int \<Rightarrow> goerr + sse list \<times> int" where
  "drain file offset =
     (case read_records file offset of
        Inl err \<Rightarrow> Inl err
      | Inr rs \<Rightarrow> Inr (map sse_of rs, if rs = [] then offset else lr_offset (last rs)))"

fun is_data :: "sse \<Rightarrow> bool" where
  "is_data (Ev_output _ _ _) = True"
| "is_data (Ev_gap _) = True"
| "is_data _ = False"

section \<open>The two of them\<close>

text \<open>
  Where the supervisor is: before it has opened the log, between frames, in the middle of
  writing one (a reader may see the first bytes of it), after an append it has not announced,
  after the outcome is stored but not announced, finished.
\<close>

datatype writer_pc =
    Wr_start | Wr_idle | Wr_writing log_stream "byte list" nat | Wr_notify | Wr_over | Wr_done

text \<open>Where the handler is, with the channel it holds, then with the ended row it has read.\<close>

type_synonym outcome_row = "exec_state \<times> int option \<times> bool"

datatype reader_pc = Rd_top | Rd_drain nat | Rd_check nat | Rd_select nat | Rd_last outcome_row | Rd_over

text \<open>\<open>fd_frames\<close>, the frames that are completely in the log, is for the statements only.\<close>

record feed =
  fd_file :: "byte list option"
  fd_frames :: "(log_stream \<times> byte list) list"
  fd_wr :: writer_pc
  fd_row :: outcome_row
  fd_bc :: broadcaster
  fd_rd :: reader_pc
  fd_offset :: int
  fd_sent :: "sse list"

definition file_bytes :: "feed \<Rightarrow> byte list" where
  "file_bytes s = (case fd_file s of None \<Rightarrow> [] | Some f \<Rightarrow> f)"

definition running :: "feed \<Rightarrow> bool" where
  "running s \<longleftrightarrow> fst (fd_row s) = Ex_running"

definition exit_event :: "outcome_row \<Rightarrow> sse" where
  "exit_event row = (case row of (st, code, trunc) \<Rightarrow>
     Ev_exit (case st of Ex_running \<Rightarrow> ''running'' | Ex_exited \<Rightarrow> ''exited'' | Ex_failed \<Rightarrow> ''failed'') code trunc)"

text \<open>The supervisor's steps. \<open>w_lost\<close> is a \<open>finish\<close> whose query or update fails: the row stays running.\<close>

inductive writer_step :: "string \<Rightarrow> feed \<Rightarrow> feed \<Rightarrow> bool" for i where
  w_open: "fd_wr s = Wr_start \<Longrightarrow>
     writer_step i s (s\<lparr>fd_file := Some (file_bytes s), fd_wr := Wr_idle\<rparr>)"
| w_begin: "fd_wr s = Wr_idle \<Longrightarrow> fits d \<Longrightarrow>
     writer_step i s (s\<lparr>fd_wr := Wr_writing st d 0\<rparr>)"
| w_part: "fd_wr s = Wr_writing st d k \<Longrightarrow> k \<le> m \<Longrightarrow> m < length (encode_frame st d) \<Longrightarrow>
     writer_step i s (s\<lparr>fd_file := Some (file_bytes s @ drop k (take m (encode_frame st d))),
       fd_wr := Wr_writing st d m\<rparr>)"
| w_append: "fd_wr s = Wr_writing st d k \<Longrightarrow>
     writer_step i s (s\<lparr>fd_file := Some (file_bytes s @ drop k (encode_frame st d)),
       fd_frames := fd_frames s @ [(st, d)], fd_wr := Wr_notify\<rparr>)"
| w_refuse: "fd_wr s = Wr_idle \<Longrightarrow> writer_step i s (s\<lparr>fd_wr := Wr_notify\<rparr>)"
| w_notify: "fd_wr s = Wr_notify \<Longrightarrow>
     writer_step i s (s\<lparr>fd_bc := bc_notify i (fd_bc s), fd_wr := Wr_idle\<rparr>)"
| w_finish: "fd_wr s \<notin> {Wr_over, Wr_done} \<Longrightarrow> st \<noteq> Ex_running \<Longrightarrow>
     writer_step i s (s\<lparr>fd_row := (st, code, trunc), fd_wr := Wr_over\<rparr>)"
| w_lost: "fd_wr s \<notin> {Wr_over, Wr_done} \<Longrightarrow> writer_step i s (s\<lparr>fd_wr := Wr_over\<rparr>)"
| w_notify_over: "fd_wr s = Wr_over \<Longrightarrow>
     writer_step i s (s\<lparr>fd_bc := bc_notify i (fd_bc s), fd_wr := Wr_done\<rparr>)"

text \<open>The handler's steps. It may stop anywhere: the client is gone, a send or a query failed.\<close>

inductive reader_step :: "string \<Rightarrow> feed \<Rightarrow> feed \<Rightarrow> bool" for i where
  r_wait: "fd_rd s = Rd_top \<Longrightarrow> bc_wait i (fd_bc s) = (c, b) \<Longrightarrow>
     reader_step i s (s\<lparr>fd_bc := b, fd_rd := Rd_drain c\<rparr>)"
| r_drain: "fd_rd s = Rd_drain c \<Longrightarrow> drain (fd_file s) (fd_offset s) = Inr (evs, off) \<Longrightarrow>
     reader_step i s (s\<lparr>fd_sent := fd_sent s @ evs, fd_offset := off, fd_rd := Rd_check c\<rparr>)"
| r_running: "fd_rd s = Rd_check c \<Longrightarrow> running s \<Longrightarrow> reader_step i s (s\<lparr>fd_rd := Rd_select c\<rparr>)"
| r_ended: "fd_rd s = Rd_check c \<Longrightarrow> \<not> running s \<Longrightarrow> reader_step i s (s\<lparr>fd_rd := Rd_last (fd_row s)\<rparr>)"
| r_last: "fd_rd s = Rd_last row \<Longrightarrow> drain (fd_file s) (fd_offset s) = Inr (evs, off) \<Longrightarrow>
     reader_step i s (s\<lparr>fd_sent := fd_sent s @ evs @ [exit_event row], fd_offset := off, fd_rd := Rd_over\<rparr>)"
| r_wake: "fd_rd s = Rd_select c \<Longrightarrow> c \<in> set (bc_closed (fd_bc s)) \<Longrightarrow> reader_step i s (s\<lparr>fd_rd := Rd_top\<rparr>)"

inductive break_step :: "feed \<Rightarrow> feed \<Rightarrow> bool" where
  r_beat: "fd_rd s = Rd_select c \<Longrightarrow>
     break_step s (s\<lparr>fd_sent := fd_sent s @ [Ev_keepalive], fd_rd := Rd_top\<rparr>)"
| r_gone: "fd_rd s \<noteq> Rd_over \<Longrightarrow> break_step s (s\<lparr>fd_rd := Rd_over\<rparr>)"
| r_cut: "fd_rd s = Rd_drain c \<or> fd_rd s = Rd_last row \<Longrightarrow> drain (fd_file s) (fd_offset s) = Inr (evs, off) \<Longrightarrow>
     break_step s (s\<lparr>fd_sent := fd_sent s @ take n evs, fd_rd := Rd_over\<rparr>)"

inductive feed_step :: "string \<Rightarrow> feed \<Rightarrow> feed \<Rightarrow> bool" for i where
  writes: "writer_step i s s' \<Longrightarrow> feed_step i s s'"
| reads: "reader_step i s s' \<Longrightarrow> feed_step i s s'"
| breaks: "break_step s s' \<Longrightarrow> feed_step i s s'"
| other_waits: "feed_step i s (s\<lparr>fd_bc := snd (bc_wait j (fd_bc s))\<rparr>)"
| other_notifies: "feed_step i s (s\<lparr>fd_bc := bc_notify j (fd_bc s)\<rparr>)"

text \<open>
  A handler called with the cursor behind the first \<open>n\<close> frames of a log that holds \<open>old\<close>.
\<close>

definition feed_start :: "(log_stream \<times> byte list) list \<Rightarrow> nat \<Rightarrow> feed" where
  "feed_start old n =
     \<lparr>fd_file = (if old = [] then None else Some (encode_all old)), fd_frames = old, fd_wr = Wr_start,
      fd_row = (Ex_running, None, False), fd_bc = new_broadcaster, fd_rd = Rd_top,
      fd_offset = int (length (encode_all (take n old))), fd_sent = []\<rparr>"

definition feed_reachable :: "string \<Rightarrow> (log_stream \<times> byte list) list \<Rightarrow> nat \<Rightarrow> feed \<Rightarrow> bool" where
  "feed_reachable i old n s \<longleftrightarrow> (feed_step i)\<^sup>*\<^sup>* (feed_start old n) s"

inductive_cases writer_stepE: "writer_step i s s'"
inductive_cases reader_stepE: "reader_step i s s'"
inductive_cases break_stepE: "break_step s s'"
inductive_cases feed_stepE: "feed_step i s s'"

section \<open>The log as the reader finds it\<close>

lemma records_from_append:
  "records_from off (xs @ ys) = records_from off xs @ records_from (off + int (length (encode_all xs))) ys"
  by (induction off xs rule: records_from.induct) (auto simp: Let_def add.assoc)

lemma records_from_last:
  "fs \<noteq> [] \<Longrightarrow> lr_offset (last (records_from off fs)) = off + int (length (encode_all fs))"
proof (induction off fs rule: records_from.induct)
  case (2 off st d fs)
  then show ?case by (cases fs) (auto simp: Let_def)
qed simp

lemma records_from_Nil [simp]: "records_from off fs = [] \<longleftrightarrow> fs = []"
  by (cases fs) (auto simp: Let_def)

text \<open>Reading from the end of the first \<open>j\<close> frames gives the others.\<close>

lemma drain_frames:
  assumes "list_all (\<lambda>(st, d). fits d) fs" "no_frame rest" "j \<le> length fs"
  shows "drain (Some (encode_all fs @ rest)) (int (length (encode_all (take j fs)))) =
    Inr (map sse_of (records_from (int (length (encode_all (take j fs)))) (drop j fs)), int (length (encode_all fs)))"
proof -
  let ?n = "length (encode_all (take j fs))"
  have cut: "encode_all fs = encode_all (take j fs) @ encode_all (drop j fs)"
    by (simp flip: encode_all_simps(3))
  have "drop ?n (encode_all fs @ rest) = encode_all (drop j fs) @ rest" by (simp add: cut)
  moreover have "\<forall>(st, d)\<in>set (drop j fs). fits d"
    using assms(1) by (auto simp: list_all_iff dest: in_set_dropD)
  ultimately have r: "read_records (Some (encode_all fs @ rest)) (int ?n) = Inr (records_from (int ?n) (drop j fs))"
    using read_frames [of "drop j fs" rest "int ?n"] assms(2) by (simp add: read_records_def)
  have "length (encode_all fs) = ?n + length (encode_all (drop j fs))" unfolding cut by simp
  then have "(if drop j fs = [] then int ?n else lr_offset (last (records_from (int ?n) (drop j fs)))) = int (length (encode_all fs))"
    using records_from_last [of "drop j fs" "int ?n"] by (cases "drop j fs = []") simp_all
  then show ?thesis unfolding drain_def r by (simp only: sum.case records_from_Nil)
qed

section \<open>What holds in every interleaving\<close>

text \<open>The file is the complete frames and, at most, the first bytes of one more.\<close>

definition log_sound :: "feed \<Rightarrow> bool" where
  "log_sound s \<longleftrightarrow> list_all (\<lambda>(st, d). fits d) (fd_frames s) \<and>
     (\<exists>torn. file_bytes s = encode_all (fd_frames s) @ torn \<and> no_frame torn \<and>
        (case fd_wr s of
           Wr_writing st d k \<Rightarrow> fits d \<and> k < length (encode_frame st d) \<and> torn = take k (encode_frame st d)
         | Wr_over \<Rightarrow> True | Wr_done \<Rightarrow> True
         | _ \<Rightarrow> torn = [])) \<and>
     (fd_wr s \<noteq> Wr_over \<and> fd_wr s \<noteq> Wr_done \<longrightarrow> running s)"

lemma file_bytes_simps [simp]:
  "file_bytes (s\<lparr>fd_file := Some f\<rparr>) = f" "file_bytes (s\<lparr>fd_frames := a\<rparr>) = file_bytes s"
  "file_bytes (s\<lparr>fd_wr := b\<rparr>) = file_bytes s" "file_bytes (s\<lparr>fd_row := c\<rparr>) = file_bytes s"
  "file_bytes (s\<lparr>fd_bc := d\<rparr>) = file_bytes s" "file_bytes (s\<lparr>fd_rd := e\<rparr>) = file_bytes s"
  "file_bytes (s\<lparr>fd_offset := x\<rparr>) = file_bytes s" "file_bytes (s\<lparr>fd_sent := y\<rparr>) = file_bytes s"
  by (simp_all add: file_bytes_def)

lemma running_simps [simp]:
  "running (s\<lparr>fd_file := a\<rparr>) = running s" "running (s\<lparr>fd_frames := a'\<rparr>) = running s"
  "running (s\<lparr>fd_wr := b\<rparr>) = running s" "running (s\<lparr>fd_row := c\<rparr>) \<longleftrightarrow> fst c = Ex_running"
  "running (s\<lparr>fd_bc := d\<rparr>) = running s" "running (s\<lparr>fd_rd := e\<rparr>) = running s"
  "running (s\<lparr>fd_offset := x\<rparr>) = running s" "running (s\<lparr>fd_sent := y\<rparr>) = running s"
  by (simp_all add: running_def)

lemma log_sound_frame:
  "fd_file s' = fd_file s \<Longrightarrow> fd_frames s' = fd_frames s \<Longrightarrow> fd_wr s' = fd_wr s \<Longrightarrow> fd_row s' = fd_row s \<Longrightarrow>
     log_sound s' = log_sound s"
  by (simp add: log_sound_def file_bytes_def running_def)

lemma writer_keeps_log:
  assumes "writer_step i s s'" "log_sound s"
  shows "log_sound s'"
  using assms
proof (cases rule: writer_step.cases)
  case (w_part st d k m)
  have "take k (encode_frame st d) @ drop k (take m (encode_frame st d)) = take m (encode_frame st d)"
    using w_part(3) by (metis append_take_drop_id min.absorb1 take_take)
  then show ?thesis
    using assms(2) w_part torn_no_frame [of d m st] by (auto simp: log_sound_def)
next
  case (w_append st d k)
  then show ?thesis using assms(2) by (auto simp: log_sound_def)
next
  case (w_finish st code trunc)
  have "\<exists>torn. file_bytes s = encode_all (fd_frames s) @ torn \<and> no_frame torn"
    using assms(2) by (auto simp: log_sound_def)
  then show ?thesis using assms(2) w_finish by (auto simp: log_sound_def)
next
  case w_lost
  have "\<exists>torn. file_bytes s = encode_all (fd_frames s) @ torn \<and> no_frame torn"
    using assms(2) by (auto simp: log_sound_def)
  then show ?thesis using assms(2) w_lost by (auto simp: log_sound_def)
qed (auto simp: log_sound_def header_size_def torn_no_frame)

lemma reader_leaves_log:
  "reader_step i s s' \<Longrightarrow> fd_file s' = fd_file s \<and> fd_frames s' = fd_frames s \<and> fd_wr s' = fd_wr s \<and> fd_row s' = fd_row s"
  by (erule reader_step.cases) auto

lemma break_leaves_log:
  "break_step s s' \<Longrightarrow> fd_file s' = fd_file s \<and> fd_frames s' = fd_frames s \<and> fd_wr s' = fd_wr s \<and> fd_row s' = fd_row s"
  by (erule break_step.cases) auto

text \<open>What the supervisor owns changes by its steps only.\<close>

definition same_log :: "feed \<Rightarrow> feed \<Rightarrow> bool" where
  "same_log s s' \<longleftrightarrow> fd_file s' = fd_file s \<and> fd_frames s' = fd_frames s \<and> fd_wr s' = fd_wr s \<and> fd_row s' = fd_row s"

lemma feed_step_log: "feed_step i s s' \<Longrightarrow> writer_step i s s' \<or> same_log s s'"
  unfolding same_log_def by (erule feed_step.cases) (simp_all add: reader_leaves_log break_leaves_log)

lemma feed_keeps_log:
  assumes "feed_step i s s'" "log_sound s"
  shows "log_sound s'"
  using feed_step_log [OF assms(1)]
proof
  assume "same_log s s'"
  then have "log_sound s' = log_sound s" unfolding same_log_def by (intro log_sound_frame) simp_all
  then show ?thesis using assms(2) by simp
qed (rule writer_keeps_log [OF _ assms(2)])

subsection \<open>What was delivered\<close>

text \<open>The events of the frames from the \<open>a\<close>-th up to the \<open>b\<close>-th.\<close>

definition events_of_frames :: "(log_stream \<times> byte list) list \<Rightarrow> nat \<Rightarrow> nat \<Rightarrow> sse list" where
  "events_of_frames fs a b = map sse_of (records_from (int (length (encode_all (take a fs)))) (take (b - a) (drop a fs)))"

lemma events_join:
  assumes "a \<le> b" "b \<le> c" "c \<le> length fs"
  shows "events_of_frames fs a b @ events_of_frames fs b c = events_of_frames fs a c"
proof -
  have m: "take (c - a) (drop a fs) = take (b - a) (drop a fs) @ take (c - b) (drop b fs)"
    using take_add [of "b - a" "c - b" "drop a fs"] assms by simp
  have "take b fs = take a fs @ take (b - a) (drop a fs)" using take_add [of a "b - a" fs] assms by simp
  then have "length (encode_all (take b fs)) = length (encode_all (take a fs)) + length (encode_all (take (b - a) (drop a fs)))"
    by simp
  then show ?thesis unfolding events_of_frames_def m records_from_append by simp
qed

lemma events_empty [simp]: "events_of_frames fs a a = []"
  by (simp add: events_of_frames_def)

lemma events_grow: "b \<le> length fs \<Longrightarrow> a \<le> b \<Longrightarrow> events_of_frames (fs @ [f]) a b = events_of_frames fs a b"
  by (simp add: events_of_frames_def)

lemma events_prefix:
  assumes "a \<le> length fs"
  shows "take n (events_of_frames fs a (length fs)) = events_of_frames fs a (min (a + n) (length fs))"
proof -
  have "take n (records_from off gs) = records_from off (take n gs)" for off gs
    by (induction off gs arbitrary: n rule: records_from.induct) (auto simp: Let_def take_Cons split: nat.splits)
  then show ?thesis using assms by (simp add: events_of_frames_def take_map min_def)
qed

lemma sse_data [simp]: "is_data (sse_of r)"
  by (simp add: sse_of_def)

lemma sse_data_all [simp]: "filter is_data (map sse_of rs) = map sse_of rs"
  by (simp add: filter_id_conv)

lemma events_data [simp]: "filter is_data (events_of_frames fs a b) = events_of_frames fs a b"
  by (simp add: events_of_frames_def)

lemma drain_sound:
  assumes "log_sound s" "j \<le> length (fd_frames s)" "fd_offset s = int (length (encode_all (take j (fd_frames s))))"
  shows "drain (fd_file s) (fd_offset s) =
    Inr (events_of_frames (fd_frames s) j (length (fd_frames s)), int (length (encode_all (fd_frames s))))"
proof (cases "fd_file s")
  case None
  then have "encode_all (fd_frames s) = []" using assms(1) by (auto simp: log_sound_def file_bytes_def)
  then have "fd_frames s = []" by (cases "fd_frames s") (auto simp: encode_frame_def)
  then show ?thesis using None assms(2,3) by (simp add: drain_def read_records_def)
next
  case (Some f)
  then obtain torn where "f = encode_all (fd_frames s) @ torn" "no_frame torn"
    using assms(1) by (auto simp: log_sound_def file_bytes_def)
  then show ?thesis
    using drain_frames [of "fd_frames s" torn j] assms Some by (simp add: log_sound_def events_of_frames_def)
qed

definition progress :: "nat \<Rightarrow> feed \<Rightarrow> bool" where
  "progress n s \<longleftrightarrow> (\<exists>j. n \<le> j \<and> j \<le> length (fd_frames s) \<and>
     filter is_data (fd_sent s) = events_of_frames (fd_frames s) n j \<and>
     (fd_rd s \<noteq> Rd_over \<longrightarrow> fd_offset s = int (length (encode_all (take j (fd_frames s))))))"

lemma progress_frame:
  "fd_frames s' = fd_frames s \<Longrightarrow> fd_sent s' = fd_sent s \<Longrightarrow> fd_offset s' = fd_offset s \<Longrightarrow>
     (fd_rd s = Rd_over \<Longrightarrow> fd_rd s' = Rd_over) \<Longrightarrow> progress n s \<Longrightarrow> progress n s'"
  by (auto simp: progress_def)

lemma progress_append:
  assumes "progress n s" "fd_frames s' = fd_frames s @ [f]" "fd_sent s' = fd_sent s" "fd_offset s' = fd_offset s" "fd_rd s' = fd_rd s"
  shows "progress n s'"
proof -
  obtain j where "n \<le> j" "j \<le> length (fd_frames s)" "filter is_data (fd_sent s) = events_of_frames (fd_frames s) n j"
    "fd_rd s \<noteq> Rd_over \<longrightarrow> fd_offset s = int (length (encode_all (take j (fd_frames s))))"
    using assms(1) by (auto simp: progress_def)
  then show ?thesis using assms(2-5) unfolding progress_def by (intro exI [of _ j]) (simp add: events_grow)
qed

lemma progress_drain:
  assumes "progress n s" "log_sound s" "fd_rd s \<noteq> Rd_over" "drain (fd_file s) (fd_offset s) = Inr (evs, off)"
  shows "filter is_data (fd_sent s) @ evs = events_of_frames (fd_frames s) n (length (fd_frames s))"
    and "off = int (length (encode_all (fd_frames s)))" "filter is_data evs = evs"
    and "\<exists>j. n \<le> j \<and> j \<le> length (fd_frames s) \<and> filter is_data (fd_sent s) @ take m evs = events_of_frames (fd_frames s) n j"
proof -
  obtain j where j: "n \<le> j" "j \<le> length (fd_frames s)" "filter is_data (fd_sent s) = events_of_frames (fd_frames s) n j"
    "fd_offset s = int (length (encode_all (take j (fd_frames s))))"
    using assms(1,3) by (auto simp: progress_def)
  have e: "evs = events_of_frames (fd_frames s) j (length (fd_frames s))" "off = int (length (encode_all (fd_frames s)))"
    using drain_sound [OF assms(2) j(2,4)] assms(4) by auto
  show "off = int (length (encode_all (fd_frames s)))" "filter is_data evs = evs" using e by simp_all
  show "filter is_data (fd_sent s) @ evs = events_of_frames (fd_frames s) n (length (fd_frames s))"
    using j e events_join by simp
  let ?k = "min (j + m) (length (fd_frames s))"
  have "filter is_data (fd_sent s) @ take m evs = events_of_frames (fd_frames s) n ?k"
    using j e events_prefix [OF j(2), of m] events_join [of n j ?k] by simp
  then show "\<exists>j. n \<le> j \<and> j \<le> length (fd_frames s) \<and> filter is_data (fd_sent s) @ take m evs = events_of_frames (fd_frames s) n j"
    using j(1,2) by (intro exI [of _ ?k]) simp
qed

lemma take_data: "filter is_data evs = evs \<Longrightarrow> filter is_data (take m evs) = take m evs"
  by (auto simp: filter_id_conv dest: in_set_takeD)

lemma feed_keeps_progress:
  assumes "feed_step i s s'" "log_sound s" "progress n s"
  shows "progress n s'"
  using assms(1)
proof (cases rule: feed_step.cases)
  case writes
  then show ?thesis
    by (cases rule: writer_step.cases)
      (rule progress_append [OF assms(3)] progress_frame [OF _ _ _ _ assms(3)]; simp)+
next
  case reads
  then show ?thesis
  proof (cases rule: reader_step.cases)
    case (r_drain c evs off)
    then show ?thesis
      using progress_drain(1-3) [OF assms(3,2) _ r_drain(3)] assms(3)
      by (auto simp: progress_def intro!: exI [of _ "length (fd_frames s)"])
  next
    case (r_last row evs off)
    then show ?thesis
      using progress_drain(1-3) [OF assms(3,2) _ r_last(3)] assms(3)
      by (auto simp: progress_def exit_event_def split: prod.splits intro!: exI [of _ "length (fd_frames s)"])
  qed (rule progress_frame [OF _ _ _ _ assms(3)]; simp)+
next
  case breaks
  then show ?thesis
  proof (cases rule: break_step.cases)
    case (r_beat c)
    then show ?thesis using assms(3) by (auto simp: progress_def)
  next
    case (r_cut c row evs off m)
    then show ?thesis
      using progress_drain(3) [OF assms(3,2) _ r_cut(3)] progress_drain(4) [OF assms(3,2) _ r_cut(3), of m] by (auto simp: progress_def take_data)
  qed (rule progress_frame [OF _ _ _ _ assms(3)]; simp)
qed (rule progress_frame [OF _ _ _ _ assms(3)]; simp)+

subsection \<open>The end of the stream\<close>

fun is_exit :: "sse \<Rightarrow> bool" where
  "is_exit (Ev_exit _ _ _) = True"
| "is_exit _ = False"

lemma exit_not_data [simp]: "is_data x \<Longrightarrow> \<not> is_exit x"
  by (cases x) auto

definition ended :: "nat \<Rightarrow> feed \<Rightarrow> bool" where
  "ended n s \<longleftrightarrow> fd_rd s = Rd_over \<and> \<not> running s \<and> fd_sent s \<noteq> [] \<and> last (fd_sent s) = exit_event (fd_row s) \<and>
     filter is_data (fd_sent s) = events_of_frames (fd_frames s) n (length (fd_frames s))"

definition ends_well :: "nat \<Rightarrow> feed \<Rightarrow> bool" where
  "ends_well n s \<longleftrightarrow> (list_ex is_exit (fd_sent s) \<longrightarrow> ended n s) \<and> (\<forall>row. fd_rd s = Rd_last row \<longrightarrow> row = fd_row s \<and> \<not> running s)"

lemma ended_frame:
  "fd_frames s' = fd_frames s \<Longrightarrow> fd_sent s' = fd_sent s \<Longrightarrow> fd_row s' = fd_row s \<Longrightarrow> fd_rd s' = fd_rd s \<Longrightarrow>
     ended n s' = ended n s"
  by (simp add: ended_def running_def exit_event_def)

lemma writer_after_row:
  "writer_step i s s' \<Longrightarrow> log_sound s \<Longrightarrow> \<not> running s \<Longrightarrow> fd_frames s' = fd_frames s \<and> fd_row s' = fd_row s"
  by (erule writer_step.cases) (auto simp: log_sound_def)

lemma writer_leaves_reader:
  "writer_step i s s' \<Longrightarrow> fd_rd s' = fd_rd s \<and> fd_sent s' = fd_sent s \<and> fd_offset s' = fd_offset s"
  by (erule writer_step.cases) auto

lemma no_exit_in_data: "filter is_data evs = evs \<Longrightarrow> \<not> list_ex is_exit evs"
  by (auto simp: filter_id_conv list_ex_iff)

lemma ends_well_frame:
  "fd_frames s' = fd_frames s \<Longrightarrow> fd_sent s' = fd_sent s \<Longrightarrow> fd_row s' = fd_row s \<Longrightarrow> fd_rd s' = fd_rd s \<Longrightarrow>
     ends_well n s' = ends_well n s"
  using ended_frame [of s' s n] by (simp add: ends_well_def running_def)

lemma feed_keeps_ends:
  assumes "feed_step i s s'" "log_sound s" "progress n s" "ends_well n s"
  shows "ends_well n s'"
  using assms(1)
proof (cases rule: feed_step.cases)
  case writes
  note w = writer_leaves_reader [OF writes] and r = writer_after_row [OF writes assms(2)]
  have "running s' \<longrightarrow> running s" using r by (cases "running s") (simp_all add: running_def)
  moreover have "ended n s'" if e: "ended n s"
    using e w r ended_frame [of s' s n] by (simp add: ended_def)
  ultimately show ?thesis using assms(4) w r by (fastforce simp: ends_well_def)
next
  case reads
  then show ?thesis
  proof (cases rule: reader_step.cases)
    case (r_drain c evs off)
    then show ?thesis
      using progress_drain(3) [OF assms(3,2) _ r_drain(3)] assms(4)
      by (auto simp: ends_well_def ended_def dest: no_exit_in_data)
  next
    case (r_last row evs off)
    then show ?thesis
      using progress_drain(1,3) [OF assms(3,2) _ r_last(3)] assms(4)
      by (auto simp: ends_well_def ended_def exit_event_def split: prod.splits)
  qed (use assms(4) in \<open>auto simp: ends_well_def ended_def running_def\<close>)
next
  case breaks
  then show ?thesis
  proof (cases rule: break_step.cases)
    case (r_cut c row evs off m)
    then show ?thesis
      using progress_drain(3) [OF assms(3,2) _ r_cut(3)] assms(4)
      by (auto simp: ends_well_def ended_def dest: no_exit_in_data [OF take_data])
  qed (use assms(4) in \<open>auto simp: ends_well_def ended_def running_def\<close>)
qed (rule ends_well_frame [THEN iffD2, OF _ _ _ _ assms(4)]; simp)+

subsection \<open>No wake-up is lost\<close>

fun channel_of :: "reader_pc \<Rightarrow> nat option" where
  "channel_of (Rd_drain c) = Some c"
| "channel_of (Rd_check c) = Some c"
| "channel_of (Rd_select c) = Some c"
| "channel_of _ = None"

text \<open>A channel the handler holds is closed already, or is the one the next \<open>Notify\<close> closes.\<close>

definition holds_open :: "string \<Rightarrow> feed \<Rightarrow> nat \<Rightarrow> bool" where
  "holds_open i s c \<longleftrightarrow> channel_of (fd_rd s) = Some c \<and> c \<notin> set (bc_closed (fd_bc s))"

definition attached :: "string \<Rightarrow> feed \<Rightarrow> bool" where
  "attached i s \<longleftrightarrow> (\<forall>c. holds_open i s c \<longrightarrow> bc_waiters (fd_bc s) i = Some c)"

definition seen_all :: "feed \<Rightarrow> bool" where
  "seen_all s \<longleftrightarrow> fd_offset s = int (length (encode_all (fd_frames s)))"

text \<open>While it is open, something unseen means that a \<open>Notify\<close> is on its way.\<close>

definition awake :: "string \<Rightarrow> feed \<Rightarrow> bool" where
  "awake i s \<longleftrightarrow> (\<forall>c. holds_open i s c \<longrightarrow>
     (fd_rd s = Rd_drain c \<or> seen_all s \<or> fd_wr s = Wr_notify \<or> fd_wr s = Wr_over) \<and>
     (fd_rd s = Rd_select c \<longrightarrow> running s \<or> fd_wr s = Wr_over))"

lemma closed_after [simp]:
  "set (bc_closed (bc_notify j b)) = set (bc_closed b) \<union> set_option (bc_waiters b j)"
  "bc_closed (snd (bc_wait j b)) = bc_closed b"
  by (auto simp: bc_notify_def bc_wait_def split: option.splits)

lemma waiters_after:
  "bc_waiters (bc_notify j b) i = (if i = j then None else bc_waiters b i)"
  "bc_waiters b i = Some c \<Longrightarrow> bc_waiters (snd (bc_wait j b)) i = Some c"
  "bc_wait i b = (c, b') \<Longrightarrow> bc_waiters b' i = Some c"
  by (auto simp: bc_notify_def bc_wait_def split: option.splits)

lemma holds_open_simps [simp]:
  "holds_open i (s\<lparr>fd_file := a\<rparr>) c = holds_open i s c" "holds_open i (s\<lparr>fd_frames := a'\<rparr>) c = holds_open i s c"
  "holds_open i (s\<lparr>fd_wr := w\<rparr>) c = holds_open i s c" "holds_open i (s\<lparr>fd_row := r\<rparr>) c = holds_open i s c"
  "holds_open i (s\<lparr>fd_offset := x\<rparr>) c = holds_open i s c" "holds_open i (s\<lparr>fd_sent := y\<rparr>) c = holds_open i s c"
  "holds_open i (s\<lparr>fd_bc := bc_notify j (fd_bc s)\<rparr>) c \<longleftrightarrow> holds_open i s c \<and> bc_waiters (fd_bc s) j \<noteq> Some c"
  "holds_open i (s\<lparr>fd_bc := snd (bc_wait j (fd_bc s))\<rparr>) c = holds_open i s c"
  by (auto simp: holds_open_def)

lemma feed_keeps_attached:
  assumes "feed_step i s s'" "attached i s"
  shows "attached i s'"
  using assms(1)
proof (cases rule: feed_step.cases)
  case writes
  then show ?thesis
    by (cases rule: writer_step.cases) (use assms(2) in \<open>auto simp: attached_def waiters_after\<close>)
next
  case reads
  then show ?thesis
    by (cases rule: reader_step.cases)
      (use assms(2) in \<open>auto simp: attached_def holds_open_def waiters_after\<close>)
next
  case breaks
  then show ?thesis
    by (cases rule: break_step.cases) (use assms(2) in \<open>auto simp: attached_def holds_open_def\<close>)
qed (use assms(2) in \<open>auto simp: attached_def waiters_after\<close>)

lemma seen_all_simps [simp]:
  "seen_all (s\<lparr>fd_file := a\<rparr>) = seen_all s" "seen_all (s\<lparr>fd_wr := w\<rparr>) = seen_all s"
  "seen_all (s\<lparr>fd_row := r\<rparr>) = seen_all s" "seen_all (s\<lparr>fd_bc := b\<rparr>) = seen_all s"
  "seen_all (s\<lparr>fd_rd := q\<rparr>) = seen_all s" "seen_all (s\<lparr>fd_sent := y\<rparr>) = seen_all s"
  by (simp_all add: seen_all_def)

lemma feed_keeps_awake:
  assumes "feed_step i s s'" "log_sound s" "progress n s" "attached i s" "awake i s"
  shows "awake i s'"
  using assms(1)
proof (cases rule: feed_step.cases)
  case writes
  then show ?thesis
    by (cases rule: writer_step.cases)
      (use assms(2,4,5) in \<open>auto simp: awake_def attached_def log_sound_def\<close>)
next
  case reads
  then show ?thesis
  proof (cases rule: reader_step.cases)
    case (r_drain c evs off)
    then show ?thesis
      using progress_drain(2) [OF assms(3,2) _ r_drain(3)] by (auto simp: awake_def holds_open_def seen_all_def)
  qed (use assms(5) in \<open>auto simp: awake_def holds_open_def seen_all_def\<close>)
next
  case breaks
  then show ?thesis
    by (cases rule: break_step.cases) (use assms(5) in \<open>auto simp: awake_def holds_open_def seen_all_def\<close>)
qed (use assms(5) in \<open>auto simp: awake_def\<close>)

subsection \<open>Everything together\<close>

definition feed_inv :: "string \<Rightarrow> nat \<Rightarrow> feed \<Rightarrow> bool" where
  "feed_inv i n s \<longleftrightarrow> log_sound s \<and> progress n s \<and> ends_well n s \<and> attached i s \<and> awake i s"

lemma feed_start_inv:
  assumes "list_all (\<lambda>(st, d). fits d) old" "n \<le> length old"
  shows "feed_inv i n (feed_start old n)"
proof -
  have "log_sound (feed_start old n)" using assms(1) by (simp add: log_sound_def feed_start_def file_bytes_def running_def)
  moreover have "progress n (feed_start old n)"
    using assms(2) by (auto simp: progress_def feed_start_def intro!: exI [of _ n])
  ultimately show ?thesis
    by (simp add: feed_inv_def ends_well_def attached_def awake_def holds_open_def feed_start_def)
qed

lemma feed_reachable_inv:
  assumes "feed_reachable i old n s" "list_all (\<lambda>(st, d). fits d) old" "n \<le> length old"
  shows "feed_inv i n s"
  using assms(1) unfolding feed_reachable_def
proof (induction rule: rtranclp_induct)
  case base
  then show ?case by (rule feed_start_inv [OF assms(2,3)])
next
  case (step s s')
  then show ?case
    using feed_keeps_log feed_keeps_progress feed_keeps_ends feed_keeps_attached feed_keeps_awake
    unfolding feed_inv_def by blast
qed

section \<open>The contract of a stream\<close>

text \<open>
  A stream from the \<open>n\<close>-th frame on, without offsets, files and channels: what was produced,
  whether it is over, what was delivered, and the closing event.
\<close>

record feed_spec =
  sp_frames :: "(log_stream \<times> byte list) list"
  sp_over :: bool
  sp_out :: "sse list"
  sp_exit :: "sse option"

inductive spec_step :: "nat \<Rightarrow> feed_spec \<Rightarrow> feed_spec \<Rightarrow> bool" for n where
  produce: "\<not> sp_over a \<Longrightarrow> spec_step n a (a\<lparr>sp_frames := sp_frames a @ [f]\<rparr>)"
| conclude: "\<not> sp_over a \<Longrightarrow> spec_step n a (a\<lparr>sp_over := True\<rparr>)"
| deliver: "sp_exit a = None \<Longrightarrow> prefix (sp_out a) out \<Longrightarrow> prefix out (events_of_frames (sp_frames a) n (length (sp_frames a))) \<Longrightarrow>
     spec_step n a (a\<lparr>sp_out := out\<rparr>)"
| close: "sp_over a \<Longrightarrow> sp_exit a = None \<Longrightarrow>
     spec_step n a (a\<lparr>sp_out := events_of_frames (sp_frames a) n (length (sp_frames a)), sp_exit := Some e\<rparr>)"

definition abs_feed :: "feed \<Rightarrow> feed_spec" where
  "abs_feed s = \<lparr>sp_frames = fd_frames s, sp_over = (\<not> running s), sp_out = filter is_data (fd_sent s),
     sp_exit = find is_exit (fd_sent s)\<rparr>"

lemma events_prefix_iff:
  "n \<le> j \<Longrightarrow> j \<le> length fs \<Longrightarrow> prefix (events_of_frames fs n j) (events_of_frames fs n (length fs))"
  using events_join [of n j "length fs" fs] unfolding prefix_def
  by (intro exI [of _ "events_of_frames fs j (length fs)"]) simp

lemma find_append_none: "find P xs = None \<Longrightarrow> find P (xs @ ys) = find P ys"
  by (induction xs) (auto split: if_splits)

lemma find_data_none: "filter is_data evs = evs \<Longrightarrow> find is_exit evs = None"
  by (auto simp: find_None_iff filter_id_conv)

lemma open_stream:
  assumes "feed_inv i n s" "fd_rd s \<noteq> Rd_over"
  shows "find is_exit (fd_sent s) = None"
  using assms by (auto simp: feed_inv_def ends_well_def ended_def find_None_iff list_ex_iff)

lemma abs_deliver:
  assumes "feed_inv i n s" "fd_rd s \<noteq> Rd_over" "filter is_data evs = evs"
    and "fd_frames s' = fd_frames s" "running s' = running s" "fd_sent s' = fd_sent s @ evs"
    and "prefix (filter is_data (fd_sent s) @ evs) (events_of_frames (fd_frames s) n (length (fd_frames s)))"
  shows "spec_step n (abs_feed s) (abs_feed s')"
proof -
  have "abs_feed s' = (abs_feed s)\<lparr>sp_out := filter is_data (fd_sent s) @ evs\<rparr>"
    using open_stream [OF assms(1,2)] find_data_none [OF assms(3)] assms(3-6)
    by (simp add: abs_feed_def find_append_none)
  moreover have "spec_step n (abs_feed s) ((abs_feed s)\<lparr>sp_out := filter is_data (fd_sent s) @ evs\<rparr>)"
    using open_stream [OF assms(1,2)] assms(7) by (intro deliver) (simp_all add: abs_feed_def prefixI)
  ultimately show ?thesis by simp
qed

lemma feed_refines:
  assumes "feed_step i s s'" "feed_inv i n s"
  shows "abs_feed s' = abs_feed s \<or> spec_step n (abs_feed s) (abs_feed s')"
  using assms(1)
proof (cases rule: feed_step.cases)
  case writes
  then show ?thesis
  proof (cases rule: writer_step.cases)
    case (w_append st d k)
    have "\<not> sp_over (abs_feed s)" using assms(2) w_append(2) by (simp add: abs_feed_def feed_inv_def log_sound_def)
    from produce [OF this, of n "(st, d)"] show ?thesis using w_append(1) by (simp add: abs_feed_def running_def)
  next
    case (w_finish st code trunc)
    have "\<not> sp_over (abs_feed s)" using assms(2) w_finish(2) by (simp add: abs_feed_def feed_inv_def log_sound_def)
    from conclude [OF this, of n] show ?thesis using w_finish(1,3) by (simp add: abs_feed_def)
  qed (auto simp: abs_feed_def)
next
  case reads
  have I: "log_sound s" "progress n s" "ends_well n s" using assms(2) by (simp_all add: feed_inv_def)
  from reads show ?thesis
  proof (cases rule: reader_step.cases)
    case (r_drain c evs off)
    then show ?thesis
      using progress_drain(1,3) [OF I(2,1) _ r_drain(3)] by (intro disjI2 abs_deliver [OF assms(2)]) auto
  next
    case (r_last row evs off)
    have d: "filter is_data (fd_sent s) @ evs = events_of_frames (fd_frames s) n (length (fd_frames s))" "filter is_data evs = evs"
      using progress_drain(1,3) [OF I(2,1) _ r_last(3)] r_last(2) by simp_all
    have x: "is_exit (exit_event row)" "\<not> is_data (exit_event row)" by (simp_all add: exit_event_def split: prod.splits)
    have o: "find is_exit (fd_sent s) = None" using open_stream [OF assms(2)] r_last(2) by simp
    have "abs_feed s' = (abs_feed s)\<lparr>sp_out := events_of_frames (fd_frames s) n (length (fd_frames s)), sp_exit := Some (exit_event row)\<rparr>"
      using r_last(1) d x o find_data_none [OF d(2)] by (simp add: abs_feed_def find_append_none)
    moreover have "sp_over (abs_feed s)" "sp_exit (abs_feed s) = None"
      using I(3) r_last(2) o by (simp_all add: ends_well_def abs_feed_def)
    ultimately show ?thesis using close [of "abs_feed s" n "exit_event row"] by (simp add: abs_feed_def)
  qed (auto simp: abs_feed_def)
next
  case breaks
  have I: "log_sound s" "progress n s" using assms(2) by (simp_all add: feed_inv_def)
  from breaks show ?thesis
  proof (cases rule: break_step.cases)
    case (r_beat c)
    then show ?thesis using open_stream [OF assms(2)] by (simp add: abs_feed_def find_append_none)
  next
    case (r_cut c row evs off m)
    have "fd_rd s \<noteq> Rd_over" using r_cut(2) by auto
    note p = progress_drain(3) [OF I(2,1) this r_cut(3)] progress_drain(4) [OF I(2,1) this r_cut(3), of m]
    show ?thesis
      using p r_cut \<open>fd_rd s \<noteq> Rd_over\<close>
      by (intro disjI2 abs_deliver [OF assms(2), of "take m evs"]) (auto simp: take_data events_prefix_iff)
  qed (auto simp: abs_feed_def)
qed (auto simp: abs_feed_def)

section \<open>What a follower of an exec gets\<close>

text \<open>C36 [stream_in_order]: In every interleaving of the supervisor, the handler, other handlers and
  other execs, and wherever the client stops, the stream is the frames of the log from the cursor on,
  in order, none twice and none left out: what was sent is the events of the frames \<open>n\<close> to \<open>j\<close>; and once
  the exit event is sent, it is the last one, it shows the stored outcome, and \<open>j\<close> is the end.\<close>

theorem stream_in_order:
  assumes "feed_reachable i old n s" "list_all (\<lambda>(st, d). fits d) old" "n \<le> length old"
  shows "\<exists>j. n \<le> j \<and> j \<le> length (fd_frames s) \<and> filter is_data (fd_sent s) = events_of_frames (fd_frames s) n j \<and>
    (list_ex is_exit (fd_sent s) \<longrightarrow>
       j = length (fd_frames s) \<and> \<not> running s \<and> last (fd_sent s) = exit_event (fd_row s))"
proof -
  have inv: "progress n s" "ends_well n s" using feed_reachable_inv [OF assms] by (simp_all add: feed_inv_def)
  show ?thesis
  proof (cases "list_ex is_exit (fd_sent s)")
    case True
    then show ?thesis using inv by (intro exI [of _ "length (fd_frames s)"]) (auto simp: ends_well_def ended_def progress_def)
  next
    case False
    then show ?thesis using inv(1) by (auto simp: progress_def)
  qed
qed

text \<open>C37 [no_lost_wakeup]: A handler that sleeps on a channel nobody has closed, while no \<open>Notify\<close> of the
  supervisor is due, misses nothing: the exec still runs and every complete frame was delivered.\<close>

theorem no_lost_wakeup:
  assumes "feed_reachable i old n s" "list_all (\<lambda>(st, d). fits d) old" "n \<le> length old"
    and "fd_rd s = Rd_select c" "c \<notin> set (bc_closed (fd_bc s))" "fd_wr s \<noteq> Wr_notify" "fd_wr s \<noteq> Wr_over"
  shows "running s \<and> fd_offset s = int (length (encode_all (fd_frames s)))"
proof -
  have "awake i s" using feed_reachable_inv [OF assms(1-3)] by (simp add: feed_inv_def)
  then show ?thesis using assms(4-7) by (auto simp: awake_def holds_open_def seen_all_def)
qed

lemma steps_to_end:
  assumes "feed_reachable i old n s" "list_all (\<lambda>(st, d). fits d) old" "n \<le> length old"
    and "fd_wr s = Wr_done" "fd_rd s \<noteq> Rd_over" "\<not> running s"
  shows "\<exists>s'. reader_step i s s' \<and> fd_wr s' = Wr_done \<and> fd_row s' = fd_row s \<and> (case fd_rd s of
      Rd_select c \<Rightarrow> fd_rd s' = Rd_top | Rd_top \<Rightarrow> \<exists>c. fd_rd s' = Rd_drain c | Rd_drain c \<Rightarrow> fd_rd s' = Rd_check c
    | Rd_check c \<Rightarrow> \<exists>row. fd_rd s' = Rd_last row | Rd_last row \<Rightarrow> fd_rd s' = Rd_over \<and> list_ex is_exit (fd_sent s') | Rd_over \<Rightarrow> True)"
  (is "\<exists>t. reader_step i s t \<and> ?next t")
proof -
  have inv: "log_sound s" "progress n s" "awake i s" using feed_reachable_inv [OF assms(1-3)] by (simp_all add: feed_inv_def)
  obtain evs off where d: "drain (fd_file s) (fd_offset s) = Inr (evs, off)"
    using inv(2) drain_sound [OF inv(1)] assms(5) by (auto simp: progress_def)
  show ?thesis
  proof (cases "fd_rd s")
    case Rd_top
    obtain c b where "bc_wait i (fd_bc s) = (c, b)" by (cases "bc_wait i (fd_bc s)")
    from r_wait [OF Rd_top this] show ?thesis
      by (rule exI [where P = "\<lambda>t. reader_step i s t \<and> ?next t", OF conjI]) (simp add: assms(4) Rd_top)
  next
    case (Rd_drain c)
    from r_drain [OF this d] show ?thesis by (rule exI [where P = "\<lambda>t. reader_step i s t \<and> ?next t", OF conjI]) (simp add: assms(4) Rd_drain)
  next
    case (Rd_check c)
    from r_ended [OF this assms(6)] show ?thesis by (rule exI [where P = "\<lambda>t. reader_step i s t \<and> ?next t", OF conjI]) (simp add: assms(4) Rd_check, cases "fd_row s", simp)
  next
    case (Rd_select c)
    have "c \<in> set (bc_closed (fd_bc s))"
      using inv(3) assms(4,6) Rd_select by (auto simp: awake_def holds_open_def)
    from r_wake [OF Rd_select this] show ?thesis by (rule exI [where P = "\<lambda>t. reader_step i s t \<and> ?next t", OF conjI]) (simp add: assms(4) Rd_select)
  next
    case (Rd_last row)
    have "is_exit (exit_event row)" by (simp add: exit_event_def split: prod.splits)
    then show ?thesis using r_last [OF Rd_last d, of i]
      by (intro exI [of _ "s\<lparr>fd_sent := fd_sent s @ evs @ [exit_event row], fd_offset := off, fd_rd := Rd_over\<rparr>"])
        (simp add: assms(4) Rd_last)
  qed (use assms(5) in simp)
qed

lemma feed_reachable_step: "feed_reachable i old n s \<Longrightarrow> feed_step i s s' \<Longrightarrow> feed_reachable i old n s'"
  unfolding feed_reachable_def by (rule rtranclp.rtrancl_into_rtrancl)

fun steps_left :: "reader_pc \<Rightarrow> nat" where
  "steps_left Rd_over = 0"
| "steps_left (Rd_last _) = 1"
| "steps_left (Rd_check _) = 2"
| "steps_left (Rd_drain _) = 3"
| "steps_left Rd_top = 4"
| "steps_left (Rd_select _) = 5"

lemma runs_to_end:
  assumes "feed_reachable i old n s" "list_all (\<lambda>(st, d). fits d) old" "n \<le> length old"
    and "fd_wr s = Wr_done" "fd_rd s \<noteq> Rd_over" "\<not> running s"
  shows "\<exists>s'. (reader_step i ^^ steps_left (fd_rd s)) s s' \<and> ended n s'"
  using assms(1,4-6)
proof (induction "steps_left (fd_rd s)" arbitrary: s rule: less_induct)
  case less
  from steps_to_end [OF less.prems(1) assms(2,3) less.prems(2-4)] obtain t where
    t: "reader_step i s t" "fd_wr t = Wr_done" "\<not> running t" "steps_left (fd_rd s) = Suc (steps_left (fd_rd t))"
      "fd_rd t = Rd_over \<longrightarrow> list_ex is_exit (fd_sent t)"
    using less.prems(3,4) by (cases "fd_rd s") (auto simp: running_def)
  have r: "feed_reachable i old n t" by (rule feed_reachable_step [OF less.prems(1) reads [OF t(1)]])
  show ?case
  proof (cases "fd_rd t = Rd_over")
    case True
    then have "ended n t" using feed_reachable_inv [OF r assms(2,3)] t(5) by (auto simp: feed_inv_def ends_well_def)
    then show ?thesis using t(1,4) True by auto
  next
    case False
    from less.hyps [OF _ r t(2) False t(3)] t(4) obtain u where "(reader_step i ^^ steps_left (fd_rd t)) t u" "ended n u" by auto
    then show ?thesis unfolding t(4) using t(1) relpowp_Suc_I2 by metis
  qed
qed

text \<open>C38 [stream_ends]: Once the supervisor has finished and stored the outcome, a handler that is still there, wherever it was in its
  loop, gets the whole rest of the log and the exit event out in at most five of its steps, without the
  heartbeat: it cannot stay asleep.\<close>

theorem stream_ends:
  assumes "feed_reachable i old n s" "list_all (\<lambda>(st, d). fits d) old" "n \<le> length old"
    and "fd_wr s = Wr_done" "fd_rd s \<noteq> Rd_over" "\<not> running s"
  shows "\<exists>k s'. k \<le> 5 \<and> (reader_step i ^^ k) s s' \<and> ended n s'"
proof -
  have "steps_left (fd_rd s) \<le> 5" by (cases "fd_rd s") simp_all
  then show ?thesis using runs_to_end [OF assms] by blast
qed

text \<open>C39 [stream_refines]: Each step of supervisor, handler and everyone else, with the partial writes, the
  offsets and the channels, is a step of the contract or changes nothing it speaks of.\<close>

theorem stream_refines:
  assumes "feed_reachable i old n s" "list_all (\<lambda>(st, d). fits d) old" "n \<le> length old" "feed_step i s s'"
  shows "(spec_step n)\<^sup>=\<^sup>= (abs_feed s) (abs_feed s')"
  using feed_refines [OF assms(4) feed_reachable_inv [OF assms(1-3)]] by auto

subsection \<open>A run\<close>

text \<open>A log of one frame, a handler that has sent it and sleeps; then the process exits.\<close>

definition sample_frames :: "(log_stream \<times> byte list) list" where
  "sample_frames = [(log_stdout, [104, 105])]"

definition asleep_feed :: feed where
  "asleep_feed =
     \<lparr>fd_file = Some (encode_all sample_frames), fd_frames = sample_frames, fd_wr = Wr_start,
      fd_row = (Ex_running, None, False), fd_bc = \<lparr>bc_waiters = Map.empty(''e'' \<mapsto> 0), bc_closed = [], bc_next = 1\<rparr>,
      fd_rd = Rd_select 0, fd_offset = 7, fd_sent = [Ev_output ''stdout'' [104, 105] 7]\<rparr>"

definition over_feed :: feed where
  "over_feed = asleep_feed\<lparr>fd_row := (Ex_exited, Some 0, False),
     fd_bc := bc_notify ''e'' (fd_bc asleep_feed), fd_wr := Wr_done\<rparr>"

lemma sample_frames_ok [simp]: "list_all (\<lambda>(st, d). fits d) sample_frames" "0 \<le> length sample_frames"
  by (simp_all add: sample_frames_def fits_def max_frame_payload_def)

lemma asleep_reachable: "feed_reachable ''e'' sample_frames 0 asleep_feed"
proof -
  let ?s = "feed_start sample_frames 0"
  let ?b = "\<lparr>bc_waiters = Map.empty(''e'' \<mapsto> 0), bc_closed = [], bc_next = 1\<rparr>"
  let ?t = "?s\<lparr>fd_bc := ?b, fd_rd := Rd_drain 0\<rparr>"
  let ?u = "?t\<lparr>fd_sent := fd_sent ?t @ [Ev_output ''stdout'' [104, 105] 7], fd_offset := 7, fd_rd := Rd_check 0\<rparr>"
  have "reader_step ''e'' ?s ?t"
    by (rule r_wait) (simp_all add: feed_start_def bc_wait_def new_broadcaster_def)
  moreover have "drain (fd_file ?t) (fd_offset ?t) = Inr ([Ev_output ''stdout'' [104, 105] 7], 7)"
    by code_simp
  then have "reader_step ''e'' ?t ?u" by (rule r_drain [rotated]) simp
  moreover have "reader_step ''e'' ?u (?u\<lparr>fd_rd := Rd_select 0\<rparr>)"
    by (rule r_running) (simp_all add: feed_start_def running_def)
  moreover have "?u\<lparr>fd_rd := Rd_select 0\<rparr> = asleep_feed"
    by (simp add: asleep_feed_def feed_start_def sample_frames_def)
  ultimately have "(feed_step ''e'')\<^sup>*\<^sup>* ?s asleep_feed"
    by (metis (no_types, lifting) reads rtranclp.rtrancl_into_rtrancl rtranclp.rtrancl_refl)
  then show ?thesis by (simp add: feed_reachable_def)
qed

lemma over_reachable: "feed_reachable ''e'' sample_frames 0 over_feed"
proof -
  let ?s = "asleep_feed\<lparr>fd_row := (Ex_exited, Some 0, False), fd_wr := Wr_over\<rparr>"
  have "writer_step ''e'' asleep_feed ?s" by (rule w_finish) (simp_all add: asleep_feed_def)
  moreover have "writer_step ''e'' ?s (?s\<lparr>fd_bc := bc_notify ''e'' (fd_bc ?s), fd_wr := Wr_done\<rparr>)"
    by (rule w_notify_over) simp
  then have "writer_step ''e'' ?s over_feed" by (simp add: over_feed_def)
  ultimately show ?thesis by (metis feed_reachable_step [OF _ writes] asleep_reachable)
qed

theorem stream_in_order_witness:
  "\<exists>j. j \<le> length (fd_frames over_feed) \<and> filter is_data (fd_sent over_feed) = events_of_frames (fd_frames over_feed) 0 j
     \<and> fd_sent over_feed \<noteq> []"
  using stream_in_order [OF over_reachable sample_frames_ok] by (auto simp: over_feed_def asleep_feed_def)

theorem no_lost_wakeup_witness:
  "running asleep_feed \<and> fd_offset asleep_feed = int (length (encode_all (fd_frames asleep_feed)))"
  by (rule no_lost_wakeup [OF asleep_reachable sample_frames_ok, of 0]) (simp_all add: asleep_feed_def)

theorem stream_ends_witness: "\<exists>k s'. k \<le> 5 \<and> (reader_step ''e'' ^^ k) over_feed s' \<and> ended 0 s'"
  by (rule stream_ends [OF over_reachable sample_frames_ok]) (simp_all add: over_feed_def asleep_feed_def running_def)

theorem stream_refines_witness:
  "(spec_step 0)\<^sup>=\<^sup>= (abs_feed over_feed) (abs_feed (over_feed\<lparr>fd_rd := Rd_top\<rparr>))"
proof (rule stream_refines [OF over_reachable sample_frames_ok])
  have "reader_step ''e'' over_feed (over_feed\<lparr>fd_rd := Rd_top\<rparr>)"
    by (rule r_wake) (simp_all add: over_feed_def asleep_feed_def bc_notify_def)
  then show "feed_step ''e'' over_feed (over_feed\<lparr>fd_rd := Rd_top\<rparr>)" by (rule reads)
qed

end
