(* ===== verification/Api_Types.thy ===== *)
theory Api_Types
  imports Exec Auth Audit_Log Snapshot Sandbox
begin

text \<open>
  The wire types of \<open>internal/apigen\<close> with their validity checks, the conversions of
  \<open>internal/api/convert.go\<close> and the error answers of \<open>internal/api/errors.go\<close>. A pointer
  field is an option; a value is its JSON only up to rendering.
\<close>

section \<open>Error codes\<close>

datatype error_code =
    Code_exec_not_found | Code_forbidden | Code_internal_error | Code_invalid_request | Code_invalid_state
  | Code_name_taken | Code_path_not_found | Code_resource_exhausted | Code_runtime_unavailable
  | Code_sandbox_not_found | Code_snapshot_not_found | Code_token_not_found | Code_unauthorized

fun code_string :: "error_code \<Rightarrow> string" where
  "code_string Code_exec_not_found = ''exec_not_found''"
| "code_string Code_forbidden = ''forbidden''"
| "code_string Code_internal_error = ''internal_error''"
| "code_string Code_invalid_request = ''invalid_request''"
| "code_string Code_invalid_state = ''invalid_state''"
| "code_string Code_name_taken = ''name_taken''"
| "code_string Code_path_not_found = ''path_not_found''"
| "code_string Code_resource_exhausted = ''resource_exhausted''"
| "code_string Code_runtime_unavailable = ''runtime_unavailable''"
| "code_string Code_sandbox_not_found = ''sandbox_not_found''"
| "code_string Code_snapshot_not_found = ''snapshot_not_found''"
| "code_string Code_token_not_found = ''token_not_found''"
| "code_string Code_unauthorized = ''unauthorized''"

definition error_code_valid :: "string \<Rightarrow> bool" where
  "error_code_valid e \<longleftrightarrow> e \<in> set
     [''exec_not_found'', ''forbidden'', ''internal_error'', ''invalid_request'', ''invalid_state'',
      ''name_taken'', ''path_not_found'', ''resource_exhausted'', ''runtime_unavailable'',
      ''sandbox_not_found'', ''snapshot_not_found'', ''token_not_found'', ''unauthorized'']"

definition exec_state_valid :: "string \<Rightarrow> bool" where
  "exec_state_valid e \<longleftrightarrow> e \<in> set [''exited'', ''failed'', ''running'']"

definition network_valid :: "string \<Rightarrow> bool" where
  "network_valid e \<longleftrightarrow> e \<in> set [''full'', ''none'']"

definition sandbox_state_valid :: "string \<Rightarrow> bool" where
  "sandbox_state_valid e \<longleftrightarrow> e \<in> set
     [''creating'', ''destroyed'', ''destroying'', ''error'', ''running'', ''stopped'']"

definition scope_valid :: "string \<Rightarrow> bool" where
  "scope_valid e \<longleftrightarrow> e \<in> set
     [''admin'', ''*'', ''audit:read'', ''exec'', ''files:read'', ''files:write'', ''sandboxes:read'',
      ''sandboxes:write'', ''snapshots:read'', ''snapshots:write'']"

fun exec_state_string :: "exec_state \<Rightarrow> string" where
  "exec_state_string Ex_running = ''running''"
| "exec_state_string Ex_exited = ''exited''"
| "exec_state_string Ex_failed = ''failed''"

section \<open>Request bodies\<close>

record create_sandbox_request =
  csr_cpu_millis :: "int option"
  csr_env :: "dict option"
  csr_image :: "string option"
  csr_labels :: "dict option"
  csr_memory_bytes :: "int option"
  csr_name :: "string option"
  csr_network :: "string option"
  csr_pids_limit :: "int option"
  csr_snapshot :: "string option"

record create_exec_request =
  cer_command :: "string list"
  cer_env :: "dict option"
  cer_user :: "string option"
  cer_working_dir :: "string option"

record create_snapshot_request =
  cnr_name :: "string option"

record create_token_request =
  ctr_expires_in_seconds :: "int option"
  ctr_name :: string
  ctr_scopes :: "string list"

record restore_request =
  rsr_snapshot :: string

section \<open>Response bodies\<close>

record api_resources =
  ar_cpu_millis :: int
  ar_memory_bytes :: int
  ar_pids_limit :: int

record api_sandbox =
  as_created_at :: time
  as_env :: "dict option"
  as_id :: string
  as_image :: string
  as_labels :: "dict option"
  as_name :: "string option"
  as_network :: string
  as_oci_runtime :: "string option"
  as_parent_snapshot_id :: "string option"
  as_resources :: api_resources
  as_runtime :: string
  as_state :: string
  as_updated_at :: time

record api_snapshot =
  an_created_at :: time
  an_id :: string
  an_image :: string
  an_name :: "string option"
  an_network :: "string option"
  an_parent_id :: "string option"
  an_runtime_ref :: string
  an_sandbox_id :: string
  an_size_bytes :: int

record api_exec =
  ax_command :: "string list"
  ax_env :: "dict option"
  ax_exit_code :: "int option"
  ax_finished_at :: "time option"
  ax_id :: string
  ax_output_bytes :: int
  ax_sandbox_id :: string
  ax_started_at :: time
  ax_state :: string
  ax_truncated :: bool
  ax_user :: "string option"
  ax_working_dir :: "string option"

record api_token =
  at_created_at :: time
  at_expires_at :: "time option"
  at_id :: string
  at_last_used_at :: "time option"
  at_name :: string
  at_prefix :: string
  at_revoked_at :: "time option"
  at_scopes :: "string list"

record created_token = api_token +
  at_token :: string

record api_event =
  ae_action :: string
  ae_actor_name :: "string option"
  ae_actor_token_id :: "string option"
  ae_details :: "(string \<times> detail) list option"
  ae_id :: string
  ae_remote_addr :: "string option"
  ae_request_id :: string
  ae_resource_id :: "string option"
  ae_resource_type :: "string option"
  ae_status :: int
  ae_ts :: time

record api_file_info =
  af_is_dir :: bool
  af_link_target :: "string option"
  af_mode :: string
  af_mtime :: time
  af_name :: string
  af_size :: int

text \<open>
  The error body. Message texts are not modelled: \<open>eb_message\<close> is the error whose text is
  shown, none when it is the fixed text for internal errors.
\<close>

record error_body =
  eb_code :: error_code
  eb_details :: "(string \<times> detail) list"
  eb_message :: "goerr option"

section \<open>Conversions\<close>

definition nonempty :: "'a list \<Rightarrow> 'a list option" where
  "nonempty s = (if s \<noteq> [] then Some s else None)"

definition nonempty_dict :: "dict \<Rightarrow> dict option" where
  "nonempty_dict d = (if d \<noteq> Map.empty then Some d else None)"

definition to_api_sandbox :: "sandbox \<Rightarrow> api_sandbox" where
  "to_api_sandbox s =
     \<lparr>as_created_at = sb_created_at s, as_env = nonempty_dict (sb_env s), as_id = sb_id s,
      as_image = sb_image s, as_labels = nonempty_dict (sb_labels s), as_name = nonempty (sb_name s),
      as_network = sb_network s, as_oci_runtime = nonempty (sb_oci_runtime s),
      as_parent_snapshot_id = sb_parent_snapshot_id s,
      as_resources = \<lparr>ar_cpu_millis = cpu_millis (sb_resources s),
        ar_memory_bytes = memory_bytes (sb_resources s), ar_pids_limit = pids_limit (sb_resources s)\<rparr>,
      as_runtime = sb_runtime s, as_state = state_string (sb_state s), as_updated_at = sb_updated_at s\<rparr>"

definition to_api_snapshot :: "snapshot \<Rightarrow> api_snapshot" where
  "to_api_snapshot s =
     \<lparr>an_created_at = sn_created_at s, an_id = sn_id s, an_image = sn_image s,
      an_name = nonempty (sn_name s), an_network = nonempty (sn_network s), an_parent_id = sn_parent_id s,
      an_runtime_ref = sn_runtime_ref s, an_sandbox_id = sn_sandbox_id s, an_size_bytes = sn_size_bytes s\<rparr>"

text \<open>\<open>fmt.Sprintf("%04o", mode.Perm())\<close>: the nine permission bits in octal, four digits.\<close>

fun octal :: "nat \<Rightarrow> string" where
  "octal n = (if n < 8 then [char_of (48 + n)] else octal (n div 8) @ [char_of (48 + n mod 8)])"

declare octal.simps [simp del]

definition pad_zeros :: "nat \<Rightarrow> string \<Rightarrow> string" where
  "pad_zeros n s = replicate (n - length s) CHR ''0'' @ s"

definition mode_perm :: "file_mode \<Rightarrow> file_mode" where
  "mode_perm m = and m 0x1ff"

definition to_api_file_info :: "file_info \<Rightarrow> api_file_info" where
  "to_api_file_info i =
     \<lparr>af_is_dir = fi_is_dir i, af_link_target = nonempty (fi_link_target i),
      af_mode = pad_zeros 4 (octal (unat (mode_perm (fi_mode i)))), af_mtime = fi_mod_time i,
      af_name = fi_name i, af_size = fi_size i\<rparr>"

definition api_scopes :: "scopes \<Rightarrow> string list" where
  "api_scopes ss = map (\<lambda>s. s) ss"

definition to_api_token :: "token \<Rightarrow> api_token" where
  "to_api_token t =
     \<lparr>at_created_at = tk_created_at t, at_expires_at = tk_expires_at t, at_id = tk_id t,
      at_last_used_at = tk_last_used_at t, at_name = tk_name t, at_prefix = tk_prefix t,
      at_revoked_at = tk_revoked_at t, at_scopes = api_scopes (tk_scopes t)\<rparr>"

definition to_api_event :: "event \<Rightarrow> api_event" where
  "to_api_event e =
     \<lparr>ae_action = ev_action e, ae_actor_name = nonempty (ev_actor_name e),
      ae_actor_token_id = nonempty (ev_actor_token_id e), ae_details = nonempty (ev_details e),
      ae_id = ev_id e, ae_remote_addr = nonempty (ev_remote_addr e), ae_request_id = ev_request_id e,
      ae_resource_id = nonempty (ev_resource_id e), ae_resource_type = nonempty (ev_resource_type e),
      ae_status = ev_status e, ae_ts = ev_timestamp e\<rparr>"

definition to_api_exec :: "exec_row \<Rightarrow> api_exec" where
  "to_api_exec e =
     \<lparr>ax_command = ex_command e, ax_env = nonempty_dict (ex_env e), ax_exit_code = ex_exit_code e,
      ax_finished_at = ex_finished_at e, ax_id = ex_id e, ax_output_bytes = ex_output_bytes e,
      ax_sandbox_id = ex_sandbox_id e, ax_started_at = ex_started_at e,
      ax_state = exec_state_string (ex_state e), ax_truncated = ex_truncated e,
      ax_user = nonempty (ex_user e), ax_working_dir = nonempty (ex_working_dir e)\<rparr>"

section \<open>Error answers\<close>

text \<open>\<open>classify\<close>: the first arm that matches wins.\<close>

definition classify_arms :: "(sentinel list \<times> int \<times> error_code) list" where
  "classify_arms =
     [([Snap_not_found], 404, Code_snapshot_not_found),
      ([Snap_has_children], 409, Code_invalid_state),
      ([Snap_name_taken], 409, Code_name_taken),
      ([Snap_invalid_name, Snap_name_looks_like_id], 400, Code_invalid_request),
      ([Files_path_not_found], 404, Code_path_not_found),
      ([Files_too_large], 413, Code_resource_exhausted),
      ([Files_invalid_path, Files_not_regular, Files_unsafe_entry, Files_not_directory], 400, Code_invalid_request),
      ([Api_forbidden, Auth_scope_escalation], 403, Code_forbidden),
      ([Auth_not_found], 404, Code_token_not_found),
      ([Auth_last_admin_token], 409, Code_invalid_state),
      ([Auth_name_taken], 409, Code_name_taken),
      ([Auth_invalid_scope, Auth_invalid_name], 400, Code_invalid_request),
      ([Sb_not_found], 404, Code_sandbox_not_found),
      ([Exec_not_found], 404, Code_exec_not_found),
      ([Sb_name_taken], 409, Code_name_taken),
      ([Sb_invalid_state], 409, Code_invalid_state),
      ([Sb_invalid_name, Sb_name_looks_like_id, Sb_invalid_image, Sb_invalid_resources, Sb_invalid_network,
        Api_invalid_request, Rt_invalid_spec], 400, Code_invalid_request),
      ([Sb_resource_exhausted], 429, Code_resource_exhausted),
      ([Rt_unavailable], 503, Code_runtime_unavailable),
      ([Rt_not_found, Rt_conflict], 409, Code_invalid_state)]"

definition classify :: "goerr \<Rightarrow> int \<times> error_code" where
  "classify err =
     (case find (\<lambda>(ws, _). list_ex (errors_is err) ws) classify_arms of
        Some (_, answer) \<Rightarrow> answer
      | None \<Rightarrow> (500, Code_internal_error))"

text \<open>\<open>errors.As(err, &scopeErr)\<close>.\<close>

fun as_missing_scope :: "goerr \<Rightarrow> string option" where
  "as_missing_scope (Missing_scope w) = Some w"
| "as_missing_scope (Wrapped es) = foldr (\<lambda>e r. case as_missing_scope e of Some w \<Rightarrow> Some w | None \<Rightarrow> r) es None"
| "as_missing_scope e = None"

text \<open>\<open>writeError\<close>: the status, and the body with the request's id.\<close>

definition write_error :: "string \<Rightarrow> goerr \<Rightarrow> int \<times> error_body" where
  "write_error request_id err =
     (case classify err of (status, code) \<Rightarrow>
       (status, \<lparr>eb_code = code,
          eb_details = (''request_id'', Text request_id) #
            (case as_missing_scope err of Some w \<Rightarrow> [(''required_scope'', Text w)] | None \<Rightarrow> []),
          eb_message = (if code = Code_internal_error then None else Some err)\<rparr>))"

section \<open>What the answers say\<close>

lemma find_arm:
  "find P xs = Some x \<Longrightarrow> P x \<and> x \<in> set xs"
  by (auto simp: find_Some_iff)

lemma list_ex_is_mono: "list_ex (errors_is e) ws \<longleftrightarrow> (\<exists>w\<in>set ws. errors_is e w)"
  by (simp add: list_ex_iff)

text \<open>The sentinels some arm names.\<close>

definition classified :: "sentinel list" where
  "classified = concat (map fst classify_arms)"

text \<open>The statuses each code is sent with.\<close>

fun code_statuses :: "error_code \<Rightarrow> int list" where
  "code_statuses Code_invalid_request = [400]"
| "code_statuses Code_unauthorized = [401]"
| "code_statuses Code_forbidden = [403]"
| "code_statuses Code_token_not_found = [404]"
| "code_statuses Code_sandbox_not_found = [404]"
| "code_statuses Code_exec_not_found = [404]"
| "code_statuses Code_snapshot_not_found = [404]"
| "code_statuses Code_path_not_found = [404]"
| "code_statuses Code_name_taken = [409]"
| "code_statuses Code_invalid_state = [409]"
| "code_statuses Code_resource_exhausted = [413, 429]"
| "code_statuses Code_runtime_unavailable = [503]"
| "code_statuses Code_internal_error = [500]"

lemma arms_consistent:
  "list_all (\<lambda>(ws, st, c). st \<in> set (code_statuses c) \<and> c \<noteq> Code_internal_error \<and> c \<noteq> Code_unauthorized) classify_arms"
  by (simp add: classify_arms_def)

lemma classify_cases:
  obtains (arm) ws st c where "(ws, st, c) \<in> set classify_arms" "list_ex (errors_is err) ws" "classify err = (st, c)"
    | (none) "classify err = (500, Code_internal_error)" "\<And>w. w \<in> set classified \<Longrightarrow> \<not> errors_is err w"
proof (cases "find (\<lambda>(ws, _). list_ex (errors_is err) ws) classify_arms")
  case None
  then have "\<not> errors_is err w" if "w \<in> set classified" for w
    using that by (fastforce simp: classified_def find_None_iff list_ex_iff)
  then show ?thesis using None by (intro none) (simp_all add: classify_def)
next
  case (Some a)
  then show ?thesis
    using find_arm [OF Some] by (cases a) (auto simp: classify_def intro!: arm)
qed

text \<open>C28 [error_answers]: every error is answered with a code of the API and a status that belongs to the code;
  it is an internal error exactly when no arm names what it wraps, and then (only then) its
  text is withheld; a missing snapshot is reported as such whatever else the error wraps, and
  the answer names a scope only when one was missing.\<close>

theorem error_answers:
  "case write_error rid err of (st, body) \<Rightarrow>
     error_code_valid (code_string (eb_code body)) \<and> st \<in> set (code_statuses (eb_code body)) \<and>
     (st = 500 \<longleftrightarrow> list_all (\<lambda>w. \<not> errors_is err w) classified) \<and>
     eb_message body = (if st = 500 then None else Some err) \<and>
     (if errors_is err Snap_not_found then eb_code body = Code_snapshot_not_found else True) \<and>
     ((''required_scope'', Text w) \<in> set (eb_details body) \<longleftrightarrow> as_missing_scope err = Some w)"
proof -
  obtain st c where a: "classify err = (st, c)" by fastforce
  have valid: "error_code_valid (code_string c)" by (cases c) (simp_all add: error_code_valid_def)
  have snap: "errors_is err Snap_not_found \<Longrightarrow> c = Code_snapshot_not_found"
    using a by (simp add: classify_def classify_arms_def)
  have st: "st \<in> set (code_statuses c) \<and> (st = 500 \<longleftrightarrow> list_all (\<lambda>w. \<not> errors_is err w) classified) \<and>
      (st = 500 \<longleftrightarrow> c = Code_internal_error)"
  proof (cases rule: classify_cases [of err])
    case (arm ws st' c')
    then have "st' \<in> set (code_statuses c')" "c' \<noteq> Code_internal_error"
      using arms_consistent by (auto simp: list_all_iff)
    moreover from this have "st' \<noteq> 500" by (cases c') auto
    moreover have "\<not> list_all (\<lambda>w. \<not> errors_is err w) classified"
      using arm(1,2) by (fastforce simp: classified_def list_all_iff list_ex_iff)
    ultimately show ?thesis using arm(3) a by simp
  next
    case none
    then show ?thesis using a by (simp add: list_all_iff)
  qed
  show ?thesis
    using valid snap st by (auto simp: write_error_def a split: option.splits)
qed

text \<open>C29 [wire_values_valid]: the strings the daemon puts on the wire are the ones the API declares, and its own
  checks of networks and scopes accept exactly what the API's do.\<close>

theorem wire_values_valid:
  "sandbox_state_valid (as_state (to_api_sandbox sb)) \<and> exec_state_valid (ax_state (to_api_exec ex)) \<and>
   (network_valid n \<longleftrightarrow> validate_network n = Inr ()) \<and> (scope_valid sc \<longleftrightarrow> valid_scope sc)"
proof -
  have "sandbox_state_valid (state_string st)" for st by (cases st) (simp_all add: sandbox_state_valid_def)
  moreover have "exec_state_valid (exec_state_string st)" for st by (cases st) (simp_all add: exec_state_valid_def)
  moreover have "scope_valid sc \<longleftrightarrow> valid_scope sc"
    by (auto simp: scope_valid_def valid_scope_def known_scopes_def scope_all_def)
  ultimately show ?thesis
    by (simp add: to_api_sandbox_def to_api_exec_def network_valid_def validate_network_def network_full_def network_none_def)
qed

end
