(* ===== verification/File_Entries.thy ===== *)
theory File_Entries
  imports Paths Runtime_Iface
begin

unbundle bit_operations_syntax

text \<open>
  Path and archive-entry validation (\<open>internal/files/validate.go\<close>): what an accepted
  path looks like, what an accepted tar entry may name, and what is cleared from it.
\<close>

definition validate_path :: "string \<Rightarrow> goerr + string" where
  "validate_path p =
     (if p = [] then Inl (wrapf Files_invalid_path)
      else if \<not> has_prefix p ''/'' then Inl (wrapf Files_invalid_path)
      else if ''..'' \<in> set (split_on slash p) then Inl (wrapf Files_invalid_path)
      else Inr (path_clean p))"

definition escapes :: "string \<Rightarrow> bool" where
  "escapes p \<longleftrightarrow> p = ''..'' \<or> has_prefix p ''../''"

definition tar_mode_setuid :: "64 word" where "tar_mode_setuid = 0x800"
definition tar_mode_setgid :: "64 word" where "tar_mode_setgid = 0x400"

definition supported_type :: "tar_type \<Rightarrow> bool" where
  "supported_type t \<longleftrightarrow> t \<in> {Type_reg, Type_dir, Type_symlink, Type_link}"

text \<open>What a link entry's target resolves to, relative to the destination.\<close>

definition link_resolved :: "tar_header \<Rightarrow> string" where
  "link_resolved h =
     (let rel = path_clean (th_name h);
          base = (if th_typeflag h = Type_symlink then path_dir rel else ''.'')
      in path_clean (path_join [base, th_linkname h]))"

definition sanitize_entry :: "tar_header \<Rightarrow> goerr + tar_header" where
  "sanitize_entry h =
     (if \<not> supported_type (th_typeflag h) then Inl (wrapf Files_unsafe_entry)
      else if has_prefix (th_name h) ''/'' then Inl (wrapf Files_unsafe_entry)
      else
        let rel = path_clean (th_name h) in
        if escapes rel then Inl (wrapf Files_unsafe_entry)
        else if (th_typeflag h = Type_symlink \<or> th_typeflag h = Type_link) \<and>
                (has_prefix (th_linkname h) ''/'' \<or> escapes (link_resolved h))
        then Inl (wrapf Files_unsafe_entry)
        else Inr (h\<lparr>th_mode := and (th_mode h) (not (or tar_mode_setuid tar_mode_setgid)),
                    th_uid := 0, th_gid := 0, th_uname := [], th_gname := [],
                    th_name := (if th_typeflag h = Type_dir then rel @ ''/'' else rel)\<rparr>))"

section \<open>Accepted paths\<close>

lemma validate_path_Inr:
  "validate_path p = Inr q \<longleftrightarrow>
     is_abs p \<and> ''..'' \<notin> set (split_on slash p) \<and> q = path_clean p"
  by (auto simp: validate_path_def is_abs_def has_prefix_def)

lemma validate_path_elems:
  assumes "validate_path p = Inr q"
  shows "is_abs q" and "path_clean q = q" and "\<forall>e\<in>set (path_elems q). plain_elem e"
  using assms path_elems_abs_plain [of q]
  by (auto simp: validate_path_Inr path_clean_idem)

text \<open>Elements cleaning drops; without \<open>..\<close> nothing else is dropped.\<close>

lemma clean_stack_no_dotdot:
  "''..'' \<notin> set es \<Longrightarrow> clean_stack r st es = rev (filter (\<lambda>e. e \<noteq> '''' \<and> e \<noteq> ''.'') es) @ st"
  by (induction es arbitrary: st) auto

lemma validate_path_filter:
  assumes "validate_path p = Inr q"
  shows "path_elems q = filter (\<lambda>e. e \<noteq> '''' \<and> e \<noteq> ''.'') (split_on slash p)"
  using assms clean_stack_no_dotdot [of "split_on slash p" "is_abs p" "[]"]
  by (simp add: validate_path_Inr) (simp add: path_elems_def)

section \<open>Accepted entries\<close>

lemma escapes_iff:
  "\<not> is_abs p \<Longrightarrow> escapes (path_clean p) \<longleftrightarrow> ''..'' \<in> set (path_elems p)"
  by (simp add: escapes_def dotdot_prefix_iff)

lemma sanitize_entry_Inr:
  assumes "sanitize_entry h = Inr h'"
  shows "supported_type (th_typeflag h)" "\<not> is_abs (th_name h)"
    and "''..'' \<notin> set (path_elems (th_name h))"
    and "th_typeflag h = Type_symlink \<or> th_typeflag h = Type_link \<Longrightarrow>
           \<not> is_abs (th_linkname h) \<and> \<not> escapes (link_resolved h)"
    and "th_name h' = (if th_typeflag h = Type_dir then path_clean (th_name h) @ ''/''
                       else path_clean (th_name h))"
    and "th_typeflag h' = th_typeflag h" "th_linkname h' = th_linkname h" "th_size h' = th_size h"
    and "th_mode h' = and (th_mode h) (not (or tar_mode_setuid tar_mode_setgid))"
    and "th_uid h' = 0" "th_gid h' = 0" "th_uname h' = []" "th_gname h' = []"
  using assms escapes_iff [of "th_name h"]
  by (auto simp: sanitize_entry_def is_abs_def Let_def split: if_splits)

text \<open>A trailing slash does not change where a path leads.\<close>

lemma path_elems_trailing_slash:
  assumes "p \<noteq> []"
  shows "path_elems (p @ ''/'') = path_elems p"
proof -
  have "is_abs (p @ ''/'') = is_abs p"
    using assms by (simp add: is_abs_hd)
  moreover have "split_on slash (p @ ''/'') = split_on slash p @ ['''']"
    using split_on_append_sep [of slash p "[]"] by simp
  ultimately show ?thesis by (simp add: path_elems_def clean_stack_append)
qed

lemma path_clean_nonempty [simp]: "path_clean p \<noteq> []"
proof (cases "path_elems p")
  case (Cons e es)
  then have "e \<noteq> []" using path_elems_nonempty [of e p] by simp
  then show ?thesis using Cons by (cases es) (auto simp: path_clean_def render_path_def)
qed (simp add: path_clean_def render_path_def)

lemma sanitize_entry_elems:
  assumes "sanitize_entry h = Inr h'"
  shows "path_elems (th_name h') = path_elems (th_name h)"
    and "\<not> is_abs (th_name h')" and "th_name h' \<noteq> []"
proof -
  note S = sanitize_entry_Inr [OF assms]
  show "path_elems (th_name h') = path_elems (th_name h)"
    using S(5) by (simp add: path_elems_trailing_slash)
  have "\<not> is_abs (path_clean (th_name h))" using S(2) by simp
  then show "\<not> is_abs (th_name h')" using S(5) by (auto simp: is_abs_hd)
  show "th_name h' \<noteq> []" using S(5) by simp
qed

lemma sanitize_entry_target:
  assumes "sanitize_entry h = Inr h'" "d \<noteq> []"
  shows "path_elems (path_join [d, th_name h']) = path_elems d @ path_elems (th_name h)"
  using path_elems_join2 [OF assms(2), of "th_name h'"] sanitize_entry_elems [OF assms(1)]
    sanitize_entry_Inr(3) [OF assms(1)]
  by simp

text \<open>\<open>path.Dir\<close> of a clean relative path that does not escape drops the last element.\<close>

lemma join_with_snoc:
  "xs \<noteq> [] \<Longrightarrow> join_with c (xs @ [x]) = join_with c xs @ c # x"
  by (induction c xs rule: join_with.induct) auto

lemma path_split_dir_append:
  "slash \<notin> set x \<Longrightarrow> path_split_dir (p @ slash # x) = p @ ''/''"
  by (auto simp: path_split_dir_def dropWhile_append3)

lemma path_split_dir_plain: "slash \<notin> set x \<Longrightarrow> path_split_dir x = []"
  by (auto simp: path_split_dir_def)

lemma path_elems_dir:
  assumes "clean_form r (rev es)"
  shows "path_elems (path_dir (render_path r es)) = butlast es"
    and "is_abs (path_dir (render_path r es)) = r"
proof -
  have ns: "\<forall>e\<in>set es. e \<noteq> '''' \<and> slash \<notin> set e"
    using clean_form_elem [OF assms] by simp
  have "path_elems (path_dir (render_path r es)) = butlast es \<and>
        is_abs (path_dir (render_path r es)) = r"
  proof (cases es rule: rev_cases)
    case Nil
    then show ?thesis
      by (cases r) (simp_all add: render_path_def path_dir_def path_split_dir_def path_elems_def is_abs_hd
          path_clean_def)
  next
    case (snoc es' e)
    then have e: "slash \<notin> set e" using ns by simp
    have cf: "clean_form r (rev es')" using assms snoc by simp
    show ?thesis
    proof (cases "es' = []")
      case True
      then show ?thesis
        using snoc e path_split_dir_append [OF e, of "[]"]
        by (cases r) (simp_all add: render_path_def path_dir_def path_split_dir_plain path_elems_def is_abs_hd
            path_clean_def)
    next
      case False
      then have "render_path r es = render_path r es' @ slash # e"
        using snoc by (simp add: render_path_def join_with_snoc)
      then have "path_split_dir (render_path r es) = render_path r es' @ ''/''"
        using path_split_dir_append [OF e] by simp
      moreover have ne: "render_path r es' \<noteq> []"
        using False ns snoc join_with_hd [of es' slash] by (cases es') (auto simp: render_path_def)
      moreover have "is_abs (render_path r es') = r"
        using render_path_rel [of es'] ns snoc by (cases r) auto
      then have "is_abs (render_path r es' @ ''/'') = r"
        using ne by (auto simp: is_abs_hd)
      ultimately show ?thesis
        using snoc path_elems_trailing_slash [OF ne] path_elems_render [OF cf]
        by (simp add: path_dir_def)
    qed
  qed
  then show "path_elems (path_dir (render_path r es)) = butlast es"
    and "is_abs (path_dir (render_path r es)) = r" by auto
qed

lemma path_dir_clean:
  shows "path_elems (path_dir (path_clean p)) = butlast (path_elems p)"
    and "is_abs (path_dir (path_clean p)) = is_abs p"
  using path_elems_dir [OF path_elems_form, of p] by (simp_all add: path_clean_def)

lemma path_elems_join_general:
  assumes "d \<noteq> []" "p \<noteq> []"
  shows "path_elems (path_join [d, p]) =
           rev (clean_stack (is_abs d) (rev (path_elems d)) (split_on slash p))"
    and "is_abs (path_join [d, p]) = is_abs d"
proof -
  have j: "path_join [d, p] = path_clean (d @ slash # p)"
    using assms by (simp add: path_join_def)
  have "is_abs (d @ slash # p) = is_abs d"
    using assms(1) by (simp add: is_abs_hd)
  then show "path_elems (path_join [d, p]) =
      rev (clean_stack (is_abs d) (rev (path_elems d)) (split_on slash p))"
    and "is_abs (path_join [d, p]) = is_abs d"
    by (simp_all add: j) (simp add: path_elems_def split_on_append_sep clean_stack_append)
qed

text \<open>
  Resolving a relative link from a directory below \<open>d\<close>: if the resolution relative to
  \<open>d\<close> does not escape, the resolution from the real place stays under \<open>d\<close>.
\<close>

lemma join_below:
  assumes "b \<noteq> []" "\<not> is_abs b" "b' \<noteq> []" "path_elems b' = ds @ path_elems b"
    and "''..'' \<notin> set (path_elems (path_join [b, l]))"
  shows "path_elems (path_join [b', l]) = ds @ path_elems (path_join [b, l])"
proof (cases "l = []")
  case True
  then show ?thesis using assms by (simp add: path_join_single path_join_def)
next
  case False
  then show ?thesis
    using assms clean_stack_over [of "rev (path_elems b)" "split_on slash l" "is_abs b'" "rev ds"]
    by (simp add: path_elems_join_general)
qed

lemma join_rel_not_abs:
  assumes "b \<noteq> []" "\<not> is_abs b"
  shows "\<not> is_abs (path_join [b, l])"
  using assms path_elems_join_general(2) [of b l]
  by (cases "l = []") (simp_all add: path_join_def)

text \<open>The two bits the sanitizer clears from a mode.\<close>

lemma setuid_bit: "bit tar_mode_setuid n \<longleftrightarrow> n = 11"
proof -
  have e: "tar_mode_setuid = push_bit 11 1" by (simp add: tar_mode_setuid_def)
  show ?thesis unfolding e bit_push_bit_iff bit_1_iff by auto
qed

lemma setgid_bit: "bit tar_mode_setgid n \<longleftrightarrow> n = 10"
proof -
  have e: "tar_mode_setgid = push_bit 10 1" by (simp add: tar_mode_setgid_def)
  show ?thesis unfolding e bit_push_bit_iff bit_1_iff by auto
qed

lemma cleared_bit:
  "bit (and (m :: 64 word) (not (or tar_mode_setuid tar_mode_setgid))) n \<longleftrightarrow>
     bit m n \<and> n \<noteq> 10 \<and> n \<noteq> 11"
  using bit_imp_le_length [of m n]
  by (auto simp only: bit_and_iff bit_not_iff bit_or_iff setuid_bit setgid_bit) (simp_all add: possible_bit_word)

section \<open>Properties\<close>

text \<open>\<open>p\<close> lies, lexically, at or below the directory \<open>d\<close>.\<close>

definition under_dir :: "string \<Rightarrow> string \<Rightarrow> bool" where
  "under_dir d p \<longleftrightarrow> prefix (path_elems d) (path_elems p)"

text \<open>A path the file service accepts is absolute, is a
  fixed point of path cleaning, and consists of the input's own elements in order (only empty
  ones and single dots are dropped): no parent reference is ever resolved away.\<close>

theorem validate_path_absolute_clean:
  assumes "validate_path p = Inr q"
  shows "is_abs q \<and> path_clean q = q \<and>
    path_elems q = filter (\<lambda>e. e \<noteq> '''' \<and> e \<noteq> ''.'') (split_on slash p) \<and>
    list_all plain_elem (path_elems q)"
  using validate_path_elems [OF assms] validate_path_filter [OF assms]
  by (simp add: list_all_iff)

lemma validate_path_absolute_clean_witness:
  "validate_path ''/a//./b/'' = Inr ''/a/b'' \<and>
   path_elems ''/a/b'' = filter (\<lambda>e. e \<noteq> '''' \<and> e \<noteq> ''.'') (split_on slash ''/a//./b/'')"
proof -
  have v: "validate_path ''/a//./b/'' = Inr ''/a/b''" by code_simp
  show ?thesis using v validate_path_absolute_clean [OF v] by simp
qed

text \<open>C22 [sanitize_entry_confined]: every archive entry that passes the sanitizer, written under
  a destination directory, lands at or below that directory; so does the target of a hard
  link, and so does the target of a symbolic link that is not the archive's own root.\<close>

theorem sanitize_entry_confined:
  assumes "sanitize_entry h = Inr h'" and "d \<noteq> []"
  shows "under_dir d (path_join [d, th_name h']) \<and>
    (th_typeflag h' = Type_link \<longrightarrow> under_dir d (path_join [d, th_linkname h'])) \<and>
    (th_typeflag h' = Type_symlink \<and> path_elems (th_name h') \<noteq> [] \<longrightarrow>
       under_dir d (path_join [path_dir (path_join [d, th_name h']), th_linkname h']))"
proof -
  note S = sanitize_entry_Inr [OF assms(1)] and E = sanitize_entry_elems [OF assms(1)]
  note T = sanitize_entry_target [OF assms]
  have "under_dir d (path_join [d, th_name h'])"
    by (simp add: under_dir_def T)
  moreover have "under_dir d (path_join [d, th_linkname h'])" if l: "th_typeflag h' = Type_link"
  proof -
    have esc: "\<not> escapes (path_clean (path_join [''.'', th_linkname h]))"
      using S(4,6) l by (simp add: link_resolved_def)
    moreover have "\<not> is_abs (path_join [''.'', th_linkname h])"
      by (rule join_rel_not_abs) (simp_all add: is_abs_hd)
    ultimately have "''..'' \<notin> set (path_elems (path_join [''.'', th_linkname h]))"
      using escapes_iff by blast
    then have "path_elems (path_join [d, th_linkname h]) =
        path_elems d @ path_elems (path_join [''.'', th_linkname h])"
      using assms(2) by (intro join_below) (simp_all add: is_abs_hd path_elems_def)
    then show ?thesis using S(7) by (simp add: under_dir_def)
  qed
  moreover have "under_dir d (path_join [path_dir (path_join [d, th_name h']), th_linkname h'])"
    if l: "th_typeflag h' = Type_symlink" and ne: "path_elems (th_name h') \<noteq> []"
  proof -
    let ?b = "path_dir (path_clean (th_name h))"
    have b: "path_elems ?b = butlast (path_elems (th_name h))" "\<not> is_abs ?b"
      using S(2) by (simp_all add: path_dir_clean)
    have "path_dir (path_join [d, th_name h']) = path_dir (path_clean (path_join [d, th_name h']))"
      using assms(2) E(3) by (simp add: path_join_def path_clean_idem)
    then have b': "path_elems (path_dir (path_join [d, th_name h'])) = path_elems d @ path_elems ?b"
      using ne E(1) T b(1) by (simp add: path_dir_clean butlast_append)
    have bn: "?b \<noteq> []" "path_dir (path_join [d, th_name h']) \<noteq> []"
      by (simp_all add: path_dir_def)
    have "\<not> escapes (path_clean (path_join [?b, th_linkname h]))"
      using S(4,6) l by (simp add: link_resolved_def)
    moreover have "\<not> is_abs (path_join [?b, th_linkname h])"
      using bn b by (intro join_rel_not_abs)
    ultimately have "''..'' \<notin> set (path_elems (path_join [?b, th_linkname h]))"
      using escapes_iff by blast
    then show ?thesis
      using join_below [OF bn(1) b(2) bn(2) b'] S(7) by (simp add: under_dir_def)
  qed
  ultimately show ?thesis by blast
qed

definition sample_link :: tar_header where
  "sample_link = \<lparr>th_typeflag = Type_symlink, th_name = ''a/b'', th_linkname = ''../c'', th_size = 0,
     th_mode = 0xfff, th_uid = 7, th_gid = 7, th_uname = ''u'', th_gname = ''g'', th_mod_time = 0\<rparr>"

lemma sanitize_entry_confined_witness:
  "\<exists>h'. sanitize_entry sample_link = Inr h' \<and> under_dir ''/dst'' (path_join [''/dst'', th_name h'])"
proof -
  have "case sanitize_entry sample_link of Inl e \<Rightarrow> False | Inr h \<Rightarrow> True" by code_simp
  then obtain h' where h': "sanitize_entry sample_link = Inr h'"
    by (cases "sanitize_entry sample_link") auto
  from sanitize_entry_confined [OF h', of "''/dst''"] h' show ?thesis by blast
qed

text \<open>An accepted entry loses its set-user-id and set-group-id bits
  and its owner, and keeps every other mode bit, its type and its size.\<close>

theorem sanitize_entry_clears:
  assumes "sanitize_entry h = Inr h'"
  shows "(bit (th_mode h') n \<longleftrightarrow> bit (th_mode h) n \<and> n \<noteq> 10 \<and> n \<noteq> 11) \<and>
    th_uid h' = 0 \<and> th_gid h' = 0 \<and> th_uname h' = [] \<and> th_gname h' = [] \<and>
    th_typeflag h' = th_typeflag h \<and> th_size h' = th_size h"
  using sanitize_entry_Inr [OF assms] cleared_bit [of "th_mode h" n] by simp

lemma sanitize_entry_clears_witness:
  "\<exists>h'. sanitize_entry sample_link = Inr h' \<and> \<not> bit (th_mode h') 11"
proof -
  have "case sanitize_entry sample_link of Inl e \<Rightarrow> False | Inr h \<Rightarrow> True" by code_simp
  then obtain h' where h': "sanitize_entry sample_link = Inr h'"
    by (cases "sanitize_entry sample_link") auto
  from sanitize_entry_clears [OF h', of 11] h' show ?thesis by blast
qed

end
