(* ===== verification/Files.thy ===== *)
theory Files
  imports File_Entries
begin

text \<open>
  \<open>internal/files\<close>: the service over a runtime's file interface (\<open>Stat\<close>, \<open>Read\<close>, \<open>List\<close>,
  \<open>Write\<close>, \<open>DownloadArchive\<close>, \<open>UploadArchive\<close>). A tar stream is the sequence of entries
  \<open>archive/tar\<close> reads from it; how many bytes of the stream an entry's header takes
  (\<open>fls_header_bytes\<close>) and which headers its writer can encode (\<open>fls_encodes\<close>) are that
  package's, and parameters.
\<close>

section \<open>The service\<close>

record file_limits =
  fl_file_max_bytes :: int
  fl_archive_max_bytes :: int
  fl_list_max_entries :: int
  fl_list_max_scan_bytes :: int

text \<open>
  \<open>fls_runtime_id_for\<close> and \<open>fls_with_locked\<close> are the methods of \<open>SandboxAccess\<close>.
  \<open>fls_taken\<close>: how many entries of the upload the runtime's \<open>WriteArchive\<close> takes from the
  pipe before it returns, one more when it also takes the end.
\<close>

record 's files_service =
  fls_runtime_id_for :: "string \<Rightarrow> ('s, string) op"
  fls_with_locked :: "string \<Rightarrow> (string \<Rightarrow> ('s, unit) op) \<Rightarrow> ('s, unit) op"
  fls_rt :: "'s runtime"
  fls_limits :: file_limits
  fls_now :: "('s, time) act"
  fls_header_bytes :: "tar_header \<Rightarrow> int"
  fls_encodes :: "tar_header \<Rightarrow> bool"
  fls_taken :: "string \<Rightarrow> string \<Rightarrow> tar_stream \<Rightarrow> 's \<Rightarrow> nat"

text \<open>\<open>int64\<close> arithmetic wraps.\<close>

definition int64 :: "int \<Rightarrow> int" where
  "int64 n = sint (word_of_int n :: 64 word)"

definition path_missing :: "goerr \<Rightarrow> goerr" where
  "path_missing err = (if errors_is err Rt_path_not_found then wrapf Files_path_not_found else err)"

definition stat_in :: "'s files_service \<Rightarrow> string \<Rightarrow> string \<Rightarrow> ('s, file_info) op" where
  "stat_in sv rid p =
     bindE (attempt (rt_stat_path (fls_rt sv) rid p)) (\<lambda>r.
     case r of Inl err \<Rightarrow> throwE (path_missing err) | Inr info \<Rightarrow> returnE info)"

definition archive_of :: "'s files_service \<Rightarrow> string \<Rightarrow> string \<Rightarrow> ('s, tar_stream) op" where
  "archive_of sv rid p =
     bindE (attempt (rt_read_archive (fls_rt sv) rid p)) (\<lambda>r.
     case r of Inl err \<Rightarrow> throwE (path_missing err) | Inr ts \<Rightarrow> returnE ts)"

definition files_stat :: "'s files_service \<Rightarrow> string \<Rightarrow> string \<Rightarrow> ('s, file_info) op" where
  "files_stat sv ref p =
     bindE (liftR (validate_path p)) (\<lambda>cleaned.
     bindE (fls_runtime_id_for sv ref) (\<lambda>rid. stat_in sv rid cleaned))"

text \<open>\<open>tr.Next()\<close>: the next entry, \<open>io.EOF\<close> at the end, or the stream's own error.\<close>

definition tar_end :: "goerr option \<Rightarrow> goerr" where
  "tar_end err = (case err of None \<Rightarrow> Sentinel Io_eof | Some e \<Rightarrow> e)"

definition files_read :: "'s files_service \<Rightarrow> string \<Rightarrow> string \<Rightarrow> ('s, byte list \<times> file_info) op" where
  "files_read sv ref p =
     bindE (liftR (validate_path p)) (\<lambda>cleaned.
     bindE (fls_runtime_id_for sv ref) (\<lambda>rid.
     bindE (stat_in sv rid cleaned) (\<lambda>info.
     if fi_is_dir info then throwE (wrapf Files_not_regular)
     else if \<not> mode_is_regular (fi_mode info) then throwE (wrapf Files_not_regular)
     else
       bindE (archive_of sv rid cleaned) (\<lambda>ts.
       case ts_entries ts of
         [] \<Rightarrow> throwE (Wrapped [tar_end (ts_error ts)])
       | e # _ \<Rightarrow>
           if th_typeflag (te_header e) \<noteq> Type_reg then throwE (wrapf Files_not_regular)
           else returnE (te_body e, info)))))"

section \<open>Listing\<close>

record listing =
  ls_items :: "file_info list"
  ls_truncated :: bool

text \<open>The data blocks of an entry, and the bytes left of them when \<open>copied\<close> were read.\<close>

definition padded :: "int \<Rightarrow> int" where
  "padded n = (n + 511) div 512 * 512"

definition data_left :: "tar_entry \<Rightarrow> int \<Rightarrow> int" where
  "data_left e copied = padded (int (length (te_body e))) - copied"

definition listed_info :: "tar_header \<Rightarrow> string \<Rightarrow> file_info" where
  "listed_info h name =
     \<lparr>fi_name = name, fi_link_target = th_linkname h, fi_size = th_size h, fi_mode = ucast (th_mode h),
      fi_mod_time = th_mod_time h, fi_is_dir = (th_typeflag h = Type_dir)\<rparr>"

text \<open>The loop of \<open>List\<close>: \<open>n\<close> bytes counted so far, \<open>skip\<close> of them still to be skipped.\<close>

fun list_scan ::
    "'s files_service \<Rightarrow> int \<Rightarrow> int \<Rightarrow> tar_entry list \<Rightarrow> goerr option \<Rightarrow> file_info list \<Rightarrow> goerr + listing" where
  "list_scan sv n skip [] err items =
     (if n > fl_list_max_scan_bytes (fls_limits sv) then Inr \<lparr>ls_items = items, ls_truncated = True\<rparr>
      else if errors_is (tar_end err) Io_eof then Inr \<lparr>ls_items = items, ls_truncated = False\<rparr>
      else Inl (Wrapped [tar_end err]))"
| "list_scan sv n skip (e # es) err items =
     (if n > fl_list_max_scan_bytes (fls_limits sv) then Inr \<lparr>ls_items = items, ls_truncated = True\<rparr>
      else
        let h = te_header e;
            n' = n + skip + fls_header_bytes sv h;
            parts = split_on slash (path_clean (trim_suffix (th_name h) ''/''))
        in if length parts \<noteq> 2 then list_scan sv n' (data_left e 0) es err items
           else if int (length items) \<ge> fl_list_max_entries (fls_limits sv)
           then Inr \<lparr>ls_items = items, ls_truncated = True\<rparr>
           else list_scan sv n' (data_left e 0) es err (items @ [listed_info h (parts ! 1)]))"

definition files_list :: "'s files_service \<Rightarrow> string \<Rightarrow> string \<Rightarrow> ('s, listing) op" where
  "files_list sv ref p =
     bindE (liftR (validate_path p)) (\<lambda>cleaned.
     bindE (fls_runtime_id_for sv ref) (\<lambda>rid.
     bindE (stat_in sv rid cleaned) (\<lambda>info.
     if \<not> fi_is_dir info then returnE \<lparr>ls_items = [info], ls_truncated = False\<rparr>
     else
       bindE (archive_of sv rid cleaned) (\<lambda>ts.
       liftR (list_scan sv 0 0 (ts_entries ts) (ts_error ts) [])))))"

section \<open>Writing\<close>

text \<open>A request body: the bytes it yields and the error it ends with, if not with \<open>io.EOF\<close>.\<close>

record upload =
  up_bytes :: "byte list"
  up_error :: "goerr option"

text \<open>\<open>io.ReadAll(io.LimitReader(body, limit))\<close>: an error behind the limit is never seen.\<close>

definition read_limited :: "int \<Rightarrow> upload \<Rightarrow> goerr + byte list" where
  "read_limited limit up =
     (if int (length (up_bytes up)) < limit
      then (case up_error up of None \<Rightarrow> Inr (up_bytes up) | Some e \<Rightarrow> Inl e)
      else Inr (take (nat limit) (up_bytes up)))"

text \<open>
  \<open>deepestExistingAncestor\<close>: the directories that are missing, outermost first. The fuel is
  the number of elements of the path, each of which one step removes.
\<close>

fun deepest_ancestor ::
    "nat \<Rightarrow> 's files_service \<Rightarrow> string \<Rightarrow> string \<Rightarrow> string list \<Rightarrow> ('s, (string \<times> string list) option) op" where
  "deepest_ancestor 0 sv rid dir missing = returnE None"
| "deepest_ancestor (Suc k) sv rid dir missing =
     bindE (attempt (rt_stat_path (fls_rt sv) rid dir)) (\<lambda>r.
     case r of
       Inr info \<Rightarrow>
         if \<not> fi_is_dir info then throwE (wrapf Files_not_directory) else returnE (Some (dir, missing))
     | Inl err \<Rightarrow>
         if \<not> errors_is err Rt_path_not_found then throwE err
         else if dir = ''/'' then throwE (wrapf Files_path_not_found)
         else deepest_ancestor k sv rid (path_dir dir) (path_base dir # missing))"

definition dir_header :: "string \<Rightarrow> time \<Rightarrow> tar_header" where
  "dir_header pre now =
     \<lparr>th_typeflag = Type_dir, th_name = pre @ ''/'', th_linkname = [], th_size = 0, th_mode = 0x1ed,
      th_uid = 0, th_gid = 0, th_uname = [], th_gname = [], th_mod_time = now\<rparr>"

definition file_header :: "string \<Rightarrow> int \<Rightarrow> time \<Rightarrow> tar_header" where
  "file_header entry n now =
     \<lparr>th_typeflag = Type_reg, th_name = entry, th_linkname = [], th_size = n, th_mode = 0x1a4,
      th_uid = 0, th_gid = 0, th_uname = [], th_gname = [], th_mod_time = now\<rparr>"

text \<open>The headers of the missing directories, each named by its path so far.\<close>

fun dir_headers :: "string \<Rightarrow> string list \<Rightarrow> time \<Rightarrow> tar_header list \<times> string" where
  "dir_headers pre [] now = ([], pre)"
| "dir_headers pre (d # ds) now =
     (let pre' = path_join [pre, d]; (hs, whole) = dir_headers pre' ds now
      in (dir_header pre' now # hs, whole))"

definition build_file_tar ::
    "'s files_service \<Rightarrow> string list \<Rightarrow> string \<Rightarrow> byte list \<Rightarrow> time \<Rightarrow> goerr + tar_entry list" where
  "build_file_tar sv missing name body now =
     (let (hs, pre) = dir_headers [] missing now;
          entry = (if pre \<noteq> [] then path_join [pre, name] else name);
          h = file_header entry (int (length body)) now
      in if list_all (fls_encodes sv) (hs @ [h])
         then Inr (map (\<lambda>d. \<lparr>te_header = d, te_body = []\<rparr>) hs @ [\<lparr>te_header = h, te_body = body\<rparr>])
         else Inl Opaque)"

text \<open>What \<open>Write\<close> does under the sandbox's lock.\<close>

definition write_at :: "'s files_service \<Rightarrow> string \<Rightarrow> upload \<Rightarrow> string \<Rightarrow> ('s, unit) op" where
  "write_at sv cleaned up rid =
     (case read_limited (int64 (fl_file_max_bytes (fls_limits sv) + 1)) up of
        Inl e \<Rightarrow> throwE (Wrapped [e])
      | Inr buf \<Rightarrow>
          if int (length buf) > fl_file_max_bytes (fls_limits sv) then throwE (wrapf Files_too_large)
          else
            bindE (attempt (rt_stat_path (fls_rt sv) rid cleaned)) (\<lambda>r.
            bindE (case r of
                Inr info \<Rightarrow>
                  if fi_is_dir info then throwE (wrapf Files_not_regular)
                  else if \<not> mode_is_regular (fi_mode info) then throwE (wrapf Files_not_regular)
                  else returnE ()
              | Inl err \<Rightarrow> if \<not> errors_is err Rt_path_not_found then throwE err else returnE ()) (\<lambda>_.
            bindE (deepest_ancestor (Suc (length (path_elems cleaned))) sv rid (path_dir cleaned) []) (\<lambda>found.
            case found of
              None \<Rightarrow> throwE Opaque
            | Some (anchor, missing) \<Rightarrow>
                bindE (liftE (fls_now sv)) (\<lambda>now.
                bindE (liftR (build_file_tar sv missing (path_base cleaned) buf now)) (\<lambda>es.
                rt_write_archive (fls_rt sv) rid anchor \<lparr>ts_entries = es, ts_error = None\<rparr>))))))"

definition files_write :: "'s files_service \<Rightarrow> string \<Rightarrow> string \<Rightarrow> upload \<Rightarrow> ('s, unit) op" where
  "files_write sv ref p up =
     bindE (liftR (validate_path p)) (\<lambda>cleaned.
     if cleaned = ''/'' then throwE (wrapf Files_invalid_path)
     else fls_with_locked sv ref (write_at sv cleaned up))"

section \<open>Archives\<close>

definition download_archive :: "'s files_service \<Rightarrow> string \<Rightarrow> string \<Rightarrow> ('s, tar_stream) op" where
  "download_archive sv ref p =
     bindE (liftR (validate_path p)) (\<lambda>cleaned.
     bindE (fls_runtime_id_for sv ref) (\<lambda>rid.
     bindE (stat_in sv rid cleaned) (\<lambda>_. archive_of sv rid cleaned)))"

text \<open>
  \<open>sanitizeArchive\<close>: the entries it writes and the error it ends with. \<open>written\<close> is an
  \<open>int64\<close>.
\<close>

fun sanitize_archive ::
    "'s files_service \<Rightarrow> string \<Rightarrow> int \<Rightarrow> int \<Rightarrow> int \<Rightarrow> tar_entry list \<Rightarrow> goerr option \<Rightarrow>
     tar_entry list \<times> goerr option" where
  "sanitize_archive sv dest n skip written [] err =
     (if n > fl_archive_max_bytes (fls_limits sv) then ([], Some (wrapf Files_too_large))
      else if errors_is (tar_end err) Io_eof then ([], None)
      else ([], Some (Wrapped [tar_end err])))"
| "sanitize_archive sv dest n skip written (e # es) err =
     (if n > fl_archive_max_bytes (fls_limits sv) then ([], Some (wrapf Files_too_large))
      else
        case sanitize_entry (te_header e) of
          Inl bad \<Rightarrow> ([], Some bad)
        | Inr h \<Rightarrow>
            let written' = int64 (written + th_size h);
                copied = (if th_typeflag h = Type_reg then int (length (te_body e)) else 0)
            in if written' > fl_archive_max_bytes (fls_limits sv) then ([], Some (wrapf Files_too_large))
               else if \<not> fls_encodes sv h then ([], Some Opaque)
               else
                 (case sanitize_archive sv dest (n + skip + fls_header_bytes sv (te_header e) + copied)
                         (data_left e copied) written' es err of
                    (out, fin) \<Rightarrow>
                      (\<lparr>te_header = h, te_body = (if th_typeflag h = Type_reg then te_body e else [])\<rparr> # out, fin)))"

text \<open>
  The goroutine that sanitizes and the runtime that reads share a pipe: a write to it fails
  when the runtime has returned without taking what is written.
\<close>

definition closed_pipe :: goerr where "closed_pipe = Wrapped [Opaque]"

definition pipe_outcome :: "nat \<Rightarrow> tar_entry list \<times> goerr option \<Rightarrow> goerr option" where
  "pipe_outcome taken cleaned =
     (case cleaned of (out, fin) \<Rightarrow>
        if taken < length out then Some closed_pipe
        else case fin of Some e \<Rightarrow> Some e
        | None \<Rightarrow> if taken = length out then Some closed_pipe else None)"

definition upload_at :: "'s files_service \<Rightarrow> string \<Rightarrow> tar_stream \<Rightarrow> string \<Rightarrow> ('s, unit) op" where
  "upload_at sv cleaned body rid =
     bindE (stat_in sv rid cleaned) (\<lambda>info.
     if \<not> fi_is_dir info then throwE (wrapf Files_not_directory)
     else
       let (out, fin) = sanitize_archive sv cleaned 0 0 0 (ts_entries body) (ts_error body);
           piped = \<lparr>ts_entries = out, ts_error = fin\<rparr>
       in bindE (readE (\<lambda>s. Inr (pipe_outcome (fls_taken sv rid cleaned piped s) (out, fin)))) (\<lambda>failed.
          bindE (attempt (rt_write_archive (fls_rt sv) rid cleaned piped)) (\<lambda>wrote.
          case failed of
            Some e \<Rightarrow> throwE e
          | None \<Rightarrow> liftR wrote)))"

definition upload_archive :: "'s files_service \<Rightarrow> string \<Rightarrow> string \<Rightarrow> tar_stream \<Rightarrow> ('s, unit) op" where
  "upload_archive sv ref dest body =
     bindE (liftR (validate_path dest)) (\<lambda>cleaned. fls_with_locked sv ref (upload_at sv cleaned body))"

section \<open>Uploads stay below their destination and within the cap\<close>

lemma sanitize_cons:
  "fst (sanitize_archive sv dest n skip written (e # es) err) = [] \<or>
   (\<exists>h n' skip'. sanitize_entry (te_header e) = Inr h \<and>
      int64 (written + th_size h) \<le> fl_archive_max_bytes (fls_limits sv) \<and>
      fst (sanitize_archive sv dest n skip written (e # es) err) =
         \<lparr>te_header = h, te_body = (if th_typeflag h = Type_reg then te_body e else [])\<rparr> #
         fst (sanitize_archive sv dest n' skip' (int64 (written + th_size h)) es err))"
  by (cases "sanitize_entry (te_header e)") (auto simp: Let_def case_prod_beta not_less)

lemma sanitize_step:
  obtains (stop) "fst (sanitize_archive sv dest n skip written (e # es) err) = []"
    | (on) h n' skip' where "sanitize_entry (te_header e) = Inr h"
      "int64 (written + th_size h) \<le> fl_archive_max_bytes (fls_limits sv)"
      "fst (sanitize_archive sv dest n skip written (e # es) err) =
         \<lparr>te_header = h, te_body = (if th_typeflag h = Type_reg then te_body e else [])\<rparr> #
         fst (sanitize_archive sv dest n' skip' (int64 (written + th_size h)) es err)"
  using sanitize_cons [of sv dest n skip written e es err] by blast

declare sanitize_archive.simps(2) [simp del]

lemma sanitized_each:
  assumes "e \<in> set (fst (sanitize_archive sv dest n skip written es err))"
  shows "\<exists>e0\<in>set es. sanitize_entry (te_header e0) = Inr (te_header e)"
  using assms
proof (induction es arbitrary: n skip written)
  case (Cons e0 es)
  show ?case
    by (rule sanitize_step [of sv dest n skip written e0 es err]) (use Cons in auto)
qed (auto split: if_splits)

text \<open>The size a header announces is that of the data that follows a regular file, and is not
  negative: \<open>archive/tar\<close> refuses other streams.\<close>

definition honest_entry :: "tar_entry \<Rightarrow> bool" where
  "honest_entry e \<longleftrightarrow> 0 \<le> th_size (te_header e) \<and>
     (th_typeflag (te_header e) = Type_reg \<longrightarrow> int (length (te_body e)) = th_size (te_header e))"

definition total_size :: "tar_entry list \<Rightarrow> int" where
  "total_size es = (\<Sum>e\<leftarrow>es. th_size (te_header e))"

definition total_data :: "tar_entry list \<Rightarrow> int" where
  "total_data es = (\<Sum>e\<leftarrow>es. int (length (te_body e)))"

lemma int64_id: "- (2 ^ 63) \<le> n \<Longrightarrow> n < 2 ^ 63 \<Longrightarrow> int64 n = n"
  unfolding int64_def by (simp add: sint_sbintrunc' signed_take_bit_int_eq_self)

lemma total_size_nonneg: "list_all honest_entry es \<Longrightarrow> 0 \<le> total_size es"
  unfolding total_size_def by (intro sum_list_nonneg) (auto simp: honest_entry_def list_all_iff)

lemma sanitized_data:
  assumes "list_all honest_entry es" "0 \<le> written" "written + total_size es < 2 ^ 63"
    "written \<le> fl_archive_max_bytes (fls_limits sv)"
  shows "written + total_data (fst (sanitize_archive sv dest n skip written es err))
    \<le> fl_archive_max_bytes (fls_limits sv)"
  using assms
proof (induction es arbitrary: n skip written)
  case (Cons e es)
  let ?s = "th_size (te_header e)" and ?max = "fl_archive_max_bytes (fls_limits sv)"
  have nn: "0 \<le> ?s" "0 \<le> total_size es" and reg: "th_typeflag (te_header e) = Type_reg \<Longrightarrow> int (length (te_body e)) = ?s"
    using Cons.prems(1) total_size_nonneg [of es] by (auto simp: honest_entry_def [of e])
  have lt: "written + ?s + total_size es < 2 ^ 63" using Cons.prems(3) by (simp add: total_size_def add.assoc)
  show ?case
  proof (cases rule: sanitize_step [of sv dest n skip written e es err])
    case (on h n' skip')
    note h = sanitize_entry_Inr(6,8) [OF on(1)]
    have w: "int64 (written + th_size h) = written + ?s"
      using nn lt Cons.prems(2) h(2) by (simp add: int64_id)
    show ?thesis
      using Cons.IH [of "written + ?s" n' skip'] Cons.prems(1,2) nn lt reg on(2,3) h w
      by (auto simp: total_data_def)
  qed (use Cons.prems(4) in \<open>simp add: total_data_def\<close>)
qed (simp add: total_data_def)

section \<open>Where a written file goes\<close>

lemma path_base_render:
  assumes "slash \<notin> set e" "e \<noteq> []"
  shows "path_base (d @ slash # e) = e"
proof -
  have "last e \<noteq> slash" using assms by (metis last_in_set)
  then have "dropWhile (\<lambda>c. c = slash) (rev (d @ slash # e)) = rev (d @ slash # e)"
    using assms(2) by (cases e rule: rev_cases) auto
  moreover have "takeWhile (\<lambda>c. c \<noteq> slash) (rev (d @ slash # e)) = rev e"
    using assms(1) by (simp add: takeWhile_append)
  ultimately show ?thesis using assms(2) by (simp add: path_base_def)
qed

lemma path_base_last:
  assumes "is_abs p" "path_clean p = p" "path_elems p \<noteq> []"
  shows "path_base p = last (path_elems p)"
proof -
  obtain es e where es: "path_elems p = es @ [e]" using assms(3) by (cases "path_elems p" rule: rev_cases) auto
  have e: "slash \<notin> set e" "e \<noteq> []"
    using path_elems_no_slash [of e p] path_elems_nonempty [of e p] es by auto
  have "p = slash # join_with slash (es @ [e])"
    using assms(1,2) es by (metis path_clean_def render_path_def)
  then have "\<exists>d. p = d @ slash # e"
    by (cases "es = []") (auto simp: join_with_snoc intro: exI [of _ "[]"] exI [of _ "slash # join_with slash es"])
  then show ?thesis using path_base_render [OF e] es by auto
qed

lemma clean_path_eq:
  "path_clean p = p \<Longrightarrow> path_clean q = q \<Longrightarrow> is_abs p = is_abs q \<Longrightarrow> path_elems p = path_elems q \<Longrightarrow> p = q"
  using path_clean_def [of p] path_clean_def [of q] by simp

lemma root_elems [simp]: "is_abs ''/''" "path_clean ''/'' = ''/''" "path_elems ''/'' = []"
  by code_simp+

lemma clean_root: "is_abs p \<Longrightarrow> path_clean p = p \<Longrightarrow> path_elems p = [] \<longleftrightarrow> p = ''/''"
  using clean_path_eq [of p "''/''"] by auto

text \<open>The walk up from a clean absolute directory ends, at a directory above the missing ones.\<close>

definition above :: "string \<Rightarrow> string \<Rightarrow> string list \<Rightarrow> bool" where
  "above dir anchor missing \<longleftrightarrow> is_abs anchor \<and> path_clean anchor = anchor \<and>
     path_elems dir = path_elems anchor @ missing"

lemma deepest_law:
  assumes "is_abs dir" "path_clean dir = dir" "length (path_elems dir) < k"
  shows "wp (deepest_ancestor k sv rid dir tail)
    (\<lambda>r _. \<exists>anchor missing. r = Some (anchor, missing @ tail) \<and> above dir anchor missing) (\<lambda>_ _. True) s"
  using assms
proof (induction k arbitrary: dir tail s)
  case (Suc k)
  have up: "wp (deepest_ancestor k sv rid (path_dir dir) (path_base dir # tail))
      (\<lambda>r _. \<exists>anchor missing. r = Some (anchor, missing @ tail) \<and> above dir anchor missing) (\<lambda>_ _. True) t"
    if "dir \<noteq> ''/''" for t
  proof -
    have ne: "path_elems dir \<noteq> []" using clean_root [OF Suc.prems(1,2)] that by simp
    have d: "path_elems (path_dir dir) = butlast (path_elems dir)" "is_abs (path_dir dir)"
      using path_dir_clean [of dir] Suc.prems(1,2) by simp_all
    have b: "path_base dir = last (path_elems dir)" by (rule path_base_last [OF Suc.prems(1,2) ne])
    show ?thesis
    proof (rule wp_weaken [OF Suc.IH])
      show "is_abs (path_dir dir)" by (rule d(2))
      show "path_clean (path_dir dir) = path_dir dir" by (simp add: path_dir_def path_clean_idem)
      have "0 < length (path_elems dir)" using ne by simp
      then show "length (path_elems (path_dir dir)) < k" unfolding d(1) length_butlast using Suc.prems(3) by linarith
    next
      fix r s'
      assume "\<exists>anchor missing. r = Some (anchor, missing @ path_base dir # tail) \<and> above (path_dir dir) anchor missing"
      then show "\<exists>anchor missing. r = Some (anchor, missing @ tail) \<and> above dir anchor missing"
        using d(1) b append_butlast_last_id [OF ne] unfolding above_def
        by (elim exE conjE) (rename_tac anchor missing, rule_tac x = anchor in exI, rule_tac x = "missing @ [path_base dir]" in exI,
          simp, metis append.assoc)
    qed simp
  qed
  have here: "above dir dir []" using Suc.prems by (simp add: above_def)
  show ?case
    unfolding deepest_ancestor.simps
  proof (rule wp_bind, rule wp_attempt, rule wpI)
    fix info t
    show "wp (case Inr info of Inl err \<Rightarrow>
          if \<not> errors_is err Rt_path_not_found then throwE err
          else if dir = ''/'' then throwE (wrapf Files_path_not_found)
          else deepest_ancestor k sv rid (path_dir dir) (path_base dir # tail)
        | Inr info \<Rightarrow> if \<not> fi_is_dir info then throwE (wrapf Files_not_directory) else returnE (Some (dir, tail)))
      (\<lambda>r _. \<exists>anchor missing. r = Some (anchor, missing @ tail) \<and> above dir anchor missing) (\<lambda>_ _. True) t"
      using here by (cases "fi_is_dir info") (auto intro!: wp_return wp_throw)
  next
    fix err t
    show "wp (case Inl err of Inl err \<Rightarrow>
          if \<not> errors_is err Rt_path_not_found then throwE err
          else if dir = ''/'' then throwE (wrapf Files_path_not_found)
          else deepest_ancestor k sv rid (path_dir dir) (path_base dir # tail)
        | Inr info \<Rightarrow> if \<not> fi_is_dir info then throwE (wrapf Files_not_directory) else returnE (Some (dir, tail)))
      (\<lambda>r _. \<exists>anchor missing. r = Some (anchor, missing @ tail) \<and> above dir anchor missing) (\<lambda>_ _. True) t"
      using up [of t] by (cases "dir = ''/''"; cases "errors_is err Rt_path_not_found") (simp_all add: wp_throw)
  qed
qed simp

lemma plain_elems: "plain_elem d \<Longrightarrow> path_elems d = [d] \<and> \<not> is_abs d \<and> d \<noteq> []"
  by (cases d) (auto simp: plain_elem_def path_elems_def split_on_plain is_abs_hd)

lemma join_plain:
  assumes "plain_elem d" "\<not> is_abs pre"
  shows "path_elems (path_join [pre, d]) = path_elems pre @ [d]" "\<not> is_abs (path_join [pre, d])" "path_join [pre, d] \<noteq> []"
proof -
  note d = plain_elems [OF assms(1)]
  have nd: "''..'' \<notin> set (path_elems d)" using d assms(1) by (auto simp: plain_elem_def)
  show "path_elems (path_join [pre, d]) = path_elems pre @ [d]"
  proof (cases "pre = []")
    case True
    then show ?thesis using d by (simp add: path_join_def) (simp add: path_elems_def is_abs_hd)
  qed (use d nd path_elems_join2 [of pre d] in simp)
  show "\<not> is_abs (path_join [pre, d])"
    using d assms(2) path_elems_join_general(2) [of pre d] by (cases "pre = []") (auto simp: path_join_def)
  show "path_join [pre, d] \<noteq> []" using d by (simp add: path_join_def)
qed

lemma dir_headers_law:
  assumes "list_all plain_elem missing" "\<not> is_abs pre" "dir_headers pre missing now = (hs, whole)"
  shows "list_all (\<lambda>h. th_typeflag h = Type_dir) hs \<and> path_elems whole = path_elems pre @ missing \<and> \<not> is_abs whole"
  using assms
proof (induction missing arbitrary: pre hs whole)
  case (Cons d ds)
  obtain hs' where "dir_headers (path_join [pre, d]) ds now = (hs', whole)" "hs = dir_header (path_join [pre, d]) now # hs'"
    using Cons.prems(3) by (auto simp: Let_def split: prod.splits)
  then show ?case
    using Cons.IH [of "path_join [pre, d]" hs' whole] join_plain [of d pre] Cons.prems(1,2)
    by (simp add: dir_header_def)
qed simp

text \<open>The archive \<open>Write\<close> builds: directories, then one file, whose name leads through them.\<close>

definition file_archive :: "tar_header list \<Rightarrow> string \<Rightarrow> byte list \<Rightarrow> time \<Rightarrow> tar_stream" where
  "file_archive ds entry body now =
     \<lparr>ts_entries = map (\<lambda>d. \<lparr>te_header = d, te_body = []\<rparr>) ds @
        [\<lparr>te_header = file_header entry (int (length body)) now, te_body = body\<rparr>], ts_error = None\<rparr>"

lemma build_law:
  assumes "build_file_tar sv missing name body now = Inr es" "list_all plain_elem missing" "plain_elem name"
  obtains ds entry where "\<lparr>ts_entries = es, ts_error = None\<rparr> = file_archive ds entry body now"
    "list_all (\<lambda>h. th_typeflag h = Type_dir) ds" "path_elems entry = missing @ [name]" "\<not> is_abs entry" "entry \<noteq> []"
proof -
  obtain hs whole where h: "dir_headers [] missing now = (hs, whole)" by fastforce
  let ?entry = "if whole \<noteq> [] then path_join [whole, name] else name"
  have "\<not> is_abs []" "path_elems [] = []" by (simp_all add: is_abs_hd path_elems_def)
  then have l: "list_all (\<lambda>h. th_typeflag h = Type_dir) hs" "path_elems whole = missing" "\<not> is_abs whole"
    using dir_headers_law [OF assms(2) _ h] by simp_all
  have e: "path_elems ?entry = missing @ [name]" "\<not> is_abs ?entry" "?entry \<noteq> []"
    using join_plain [OF assms(3) l(3)] plain_elems [OF assms(3)] l(2) \<open>path_elems [] = []\<close> by auto
  have "\<lparr>ts_entries = es, ts_error = None\<rparr> = file_archive hs ?entry body now"
    using assms(1) h by (auto simp: build_file_tar_def file_archive_def Let_def split: if_splits)
  then show ?thesis using that l(1) e by blast
qed

text \<open>Joined to the directory the walk ended at, that name is the path of the file.\<close>

lemma archive_target:
  assumes "is_abs cleaned" "path_clean cleaned = cleaned" "path_elems cleaned \<noteq> []"
    and "above (path_dir cleaned) anchor missing" "path_elems entry = missing @ [path_base cleaned]"
    and "\<not> is_abs entry" "entry \<noteq> []"
  shows "path_join [anchor, path_clean entry] = cleaned"
proof -
  have d: "path_elems (path_dir cleaned) = butlast (path_elems cleaned)"
    using path_dir_clean(1) [of cleaned] assms(2) by simp
  have b: "path_base cleaned = last (path_elems cleaned)" by (rule path_base_last [OF assms(1-3)])
  have a: "is_abs anchor" "anchor \<noteq> []" using assms(4) by (auto simp: above_def is_abs_hd)
  have all: "path_elems anchor @ path_elems entry = path_elems cleaned"
    using append_butlast_last_id [OF assms(3)] assms(4,5) d b unfolding above_def by (metis append.assoc)
  have "e \<noteq> ''..''" if "e \<in> set (path_elems cleaned)" for e
    using path_elems_abs_plain [OF assms(1) that] by (auto simp: plain_elem_def)
  then have "''..'' \<notin> set (path_elems (path_clean entry))" using all by (metis Un_iff path_elems_clean set_append)
  then have t: "path_elems (path_join [anchor, path_clean entry]) = path_elems cleaned"
    using path_elems_join2 [of anchor "path_clean entry"] a assms(6) all by simp
  have r: "is_abs (path_join [anchor, path_clean entry]) = is_abs cleaned"
    using path_elems_join_general(2) [of anchor "path_clean entry"] a assms(1) by simp
  have "path_clean (path_join [anchor, path_clean entry]) = path_join [anchor, path_clean entry]"
    using a(2) by (simp add: path_join_def path_clean_idem)
  from clean_path_eq [OF this assms(2) r t] show ?thesis .
qed

text \<open>What a \<open>Write\<close> that returns has done last: written the body, as one file at the path.\<close>

lemma write_at_last:
  assumes "write_at sv cleaned up rid s = (Inr (), s')"
    and "is_abs cleaned" "path_clean cleaned = cleaned" "cleaned \<noteq> ''/''"
  obtains buf anchor ds entry now t where
    "read_limited (int64 (fl_file_max_bytes (fls_limits sv) + 1)) up = Inr buf"
    "int (length buf) \<le> fl_file_max_bytes (fls_limits sv)"
    "rt_write_archive (fls_rt sv) rid anchor (file_archive ds entry buf now) t = (Inr (), s')"
    "list_all (\<lambda>h. th_typeflag h = Type_dir) ds" "path_clean anchor = anchor"
    "path_join [anchor, path_clean entry] = cleaned"
proof -
  have ne: "path_elems cleaned \<noteq> []" using clean_root [OF assms(2,3)] assms(4) by simp
  obtain buf where buf: "read_limited (int64 (fl_file_max_bytes (fls_limits sv) + 1)) up = Inr buf"
      "int (length buf) \<le> fl_file_max_bytes (fls_limits sv)"
    using assms(1) by (auto simp: write_at_def split: sum.splits if_splits)
  let ?walk = "deepest_ancestor (Suc (length (path_elems cleaned))) sv rid (path_dir cleaned) []"
  obtain found t1 t2 anchor missing now t3 es t where run: "?walk t1 = (Inr found, t2)"
      "found = Some (anchor, missing)" "build_file_tar sv missing (path_base cleaned) buf now = Inr es"
      "rt_write_archive (fls_rt sv) rid anchor \<lparr>ts_entries = es, ts_error = None\<rparr> t = (Inr (), s')"
    using assms(1) buf
    by (auto simp: write_at_def elim!: bindE_cases attempt_cases liftE_cases liftR_cases
        split: option.splits if_splits sum.splits simp del: deepest_ancestor.simps)
  have d: "is_abs (path_dir cleaned)" "path_clean (path_dir cleaned) = path_dir cleaned"
      "path_elems (path_dir cleaned) = butlast (path_elems cleaned)"
    using path_dir_clean [of cleaned] assms(2,3) by (simp_all add: path_dir_def path_clean_idem)
  have ab: "above (path_dir cleaned) anchor missing"
    using wp_Inr [OF deepest_law [OF d(1,2)] run(1)] run(2) d(3) by auto
  have plain: "list_all plain_elem (path_elems cleaned)"
    using path_elems_abs_plain [OF assms(2)] by (simp add: list_all_iff)
  have "set missing \<subseteq> set (butlast (path_elems cleaned))" using ab d(3) by (simp add: above_def)
  then have "list_all plain_elem missing"
    using plain by (auto simp: list_all_iff dest: in_set_butlastD)
  moreover have "plain_elem (path_base cleaned)"
    using path_base_last [OF assms(2,3) ne] plain ne by (simp add: list_all_iff)
  ultimately obtain ds entry where b: "\<lparr>ts_entries = es, ts_error = None\<rparr> = file_archive ds entry buf now"
    "list_all (\<lambda>h. th_typeflag h = Type_dir) ds" "path_elems entry = missing @ [path_base cleaned]"
    "\<not> is_abs entry" "entry \<noteq> []"
    by (rule build_law [OF run(3)])
  have "path_clean anchor = anchor" using ab by (simp add: above_def)
  then show ?thesis
    using that buf run(4) b archive_target [OF assms(2,3) ne ab b(3-5)] by metis
qed

section \<open>What the operations leave alone\<close>

text \<open>An operation of the service changes the state through the interfaces it is given only.\<close>

lemma deepest_keeps:
  assumes "\<And>i q. keeps P (rt_stat_path (fls_rt sv) i q)"
  shows "keeps P (deepest_ancestor k sv rid dir missing)"
  by (induction k arbitrary: dir missing) (auto intro!: keeps_rules assms)

lemma write_at_keeps:
  assumes "\<And>i q. keeps P (rt_stat_path (fls_rt sv) i q)" "\<And>i q t. keeps P (rt_write_archive (fls_rt sv) i q t)"
    and "keeps P (liftE (fls_now sv))"
  shows "keeps P (write_at sv cleaned up rid)"
  unfolding write_at_def by (intro keeps_rules assms deepest_keeps)

lemma upload_at_keeps:
  assumes "\<And>i q. keeps P (rt_stat_path (fls_rt sv) i q)" "\<And>i q t. keeps P (rt_write_archive (fls_rt sv) i q t)"
  shows "keeps P (upload_at sv cleaned body rid)"
  unfolding upload_at_def stat_in_def Let_def by (intro keeps_rules assms)

lemma files_keep:
  assumes "\<And>i q. keeps P (rt_stat_path (fls_rt sv) i q)" "\<And>i q t. keeps P (rt_write_archive (fls_rt sv) i q t)"
    and "\<And>i q. keeps P (rt_read_archive (fls_rt sv) i q)" "keeps P (liftE (fls_now sv))"
    and "\<And>ref. keeps P (fls_runtime_id_for sv ref)"
    and "\<And>ref f. (\<And>i. keeps P (f i)) \<Longrightarrow> keeps P (fls_with_locked sv ref f)"
  shows "keeps P (files_stat sv ref q)" "keeps P (files_read sv ref q)" "keeps P (files_list sv ref q)"
    "keeps P (download_archive sv ref q)" "keeps P (files_write sv ref q up)" "keeps P (upload_archive sv ref q body)"
proof -
  note rules = keeps_rules assms write_at_keeps upload_at_keeps
  show "keeps P (files_stat sv ref q)" "keeps P (files_list sv ref q)" "keeps P (download_archive sv ref q)"
    "keeps P (files_write sv ref q up)" "keeps P (upload_archive sv ref q body)"
    unfolding files_stat_def files_list_def download_archive_def files_write_def upload_archive_def stat_in_def archive_of_def
    by (intro rules)+
  show "keeps P (files_read sv ref q)"
    unfolding files_read_def stat_in_def archive_of_def by (intro rules)
qed

end
