(* ===== verification/Requests.thy ===== *)
theory Requests
  imports Api_Types Config Files
begin

text \<open>
  What a handler of \<open>internal/api\<close> reads of a request: the path below the patterns of the
  route table, the query, the headers and the body. \<open>net/http\<close> has taken the message apart
  and \<open>encoding/json\<close> its body; from there on the decoding of the request structs, the
  parameters and the credentials is the code's.
\<close>

section \<open>JSON bodies\<close>

text \<open>A number is an integer literal or one with a fraction or an exponent.\<close>

datatype json =
    J_null | J_bool bool | J_int int | J_real | J_string string | J_array "json list" | J_object "(string \<times> json) list"

text \<open>Decoding a member into a field that may hold a value already; \<open>null\<close> clears a pointer.\<close>

type_synonym 'a member = "json \<Rightarrow> 'a \<Rightarrow> goerr + 'a"

definition get_string :: "json \<Rightarrow> goerr + string" where
  "get_string j = (case j of J_string s \<Rightarrow> Inr s | _ \<Rightarrow> Inl Opaque)"

definition get_int64 :: "json \<Rightarrow> goerr + int" where
  "get_int64 j = (case j of J_int n \<Rightarrow> if - max_int64 - 1 \<le> n \<and> n \<le> max_int64 then Inr n else Inl Opaque | _ \<Rightarrow> Inl Opaque)"

text \<open>An element that is \<open>null\<close> is the zero value.\<close>

definition get_element :: "json \<Rightarrow> goerr + string" where
  "get_element j = (if j = J_null then Inr [] else get_string j)"

fun get_elements :: "json list \<Rightarrow> goerr + string list" where
  "get_elements [] = Inr []"
| "get_elements (j # js) = andThen (get_element j) (\<lambda>s. andThen (get_elements js) (\<lambda>ss. Inr (s # ss)))"

fun get_entries :: "(string \<times> json) list \<Rightarrow> dict \<Rightarrow> goerr + dict" where
  "get_entries [] d = Inr d"
| "get_entries ((k, j) # kjs) d = andThen (get_element j) (\<lambda>s. get_entries kjs (d(k \<mapsto> s)))"

definition optional :: "(json \<Rightarrow> goerr + 'a) \<Rightarrow> json \<Rightarrow> goerr + 'a option" where
  "optional get j = (if j = J_null then Inr None else andThen (get j) (\<lambda>a. Inr (Some a)))"

text \<open>A member of a type that is no pointer keeps what it has on \<open>null\<close>; a list becomes nil.\<close>

definition get_list :: "json \<Rightarrow> goerr + string list" where
  "get_list j = (case j of J_null \<Rightarrow> Inr [] | J_array js \<Rightarrow> get_elements js | _ \<Rightarrow> Inl Opaque)"

definition plain_string :: "json \<Rightarrow> string \<Rightarrow> goerr + string" where
  "plain_string j old = (if j = J_null then Inr old else get_string j)"

definition get_dict :: "json \<Rightarrow> goerr + dict" where
  "get_dict j = (case j of J_object kjs \<Rightarrow> get_entries kjs Map.empty | _ \<Rightarrow> Inl Opaque)"

text \<open>The name of a member is matched without regard to case.\<close>

definition lower_char :: "char \<Rightarrow> char" where
  "lower_char c = (if CHR ''A'' \<le> c \<and> c \<le> CHR ''Z'' then char_of (of_char c + 32 :: nat) else c)"

definition equal_fold :: "string \<Rightarrow> string \<Rightarrow> bool" where
  "equal_fold a b \<longleftrightarrow> map lower_char a = map lower_char b"

text \<open>Members in the order of the object; one the struct does not have is skipped.\<close>

fun fill :: "(string \<times> (json \<Rightarrow> 'r \<Rightarrow> goerr + 'r)) list \<Rightarrow> (string \<times> json) list \<Rightarrow> 'r \<Rightarrow> goerr + 'r" where
  "fill members [] r = Inr r"
| "fill members ((k, j) # kjs) r =
     (case find (\<lambda>(name, _). equal_fold name k) members of
        None \<Rightarrow> fill members kjs r
      | Some (_, put) \<Rightarrow> andThen (put j r) (fill members kjs))"

definition decode :: "(string \<times> (json \<Rightarrow> 'r \<Rightarrow> goerr + 'r)) list \<Rightarrow> 'r \<Rightarrow> goerr + json \<Rightarrow> goerr + 'r" where
  "decode members zero body =
     andThen body (\<lambda>j.
       case j of J_null \<Rightarrow> Inr zero | J_object kjs \<Rightarrow> fill members kjs zero | _ \<Rightarrow> Inl Opaque)"

definition decode_create_sandbox :: "goerr + json \<Rightarrow> goerr + create_sandbox_request" where
  "decode_create_sandbox =
     decode
      [(''cpu_millis'', \<lambda>j r. andThen (optional get_int64 j) (\<lambda>v. Inr (r\<lparr>csr_cpu_millis := v\<rparr>))),
       (''env'', \<lambda>j r. andThen (optional get_dict j) (\<lambda>v. Inr (r\<lparr>csr_env := v\<rparr>))),
       (''image'', \<lambda>j r. andThen (optional get_string j) (\<lambda>v. Inr (r\<lparr>csr_image := v\<rparr>))),
       (''labels'', \<lambda>j r. andThen (optional get_dict j) (\<lambda>v. Inr (r\<lparr>csr_labels := v\<rparr>))),
       (''memory_bytes'', \<lambda>j r. andThen (optional get_int64 j) (\<lambda>v. Inr (r\<lparr>csr_memory_bytes := v\<rparr>))),
       (''name'', \<lambda>j r. andThen (optional get_string j) (\<lambda>v. Inr (r\<lparr>csr_name := v\<rparr>))),
       (''network'', \<lambda>j r. andThen (optional get_string j) (\<lambda>v. Inr (r\<lparr>csr_network := v\<rparr>))),
       (''pids_limit'', \<lambda>j r. andThen (optional get_int64 j) (\<lambda>v. Inr (r\<lparr>csr_pids_limit := v\<rparr>))),
       (''snapshot'', \<lambda>j r. andThen (optional get_string j) (\<lambda>v. Inr (r\<lparr>csr_snapshot := v\<rparr>)))]
      \<lparr>csr_cpu_millis = None, csr_env = None, csr_image = None, csr_labels = None, csr_memory_bytes = None,
       csr_name = None, csr_network = None, csr_pids_limit = None, csr_snapshot = None\<rparr>"

definition decode_create_exec :: "goerr + json \<Rightarrow> goerr + create_exec_request" where
  "decode_create_exec =
     decode
      [(''command'', \<lambda>j r. andThen (get_list j) (\<lambda>v. Inr (r\<lparr>cer_command := v\<rparr>))),
       (''env'', \<lambda>j r. andThen (optional get_dict j) (\<lambda>v. Inr (r\<lparr>cer_env := v\<rparr>))),
       (''user'', \<lambda>j r. andThen (optional get_string j) (\<lambda>v. Inr (r\<lparr>cer_user := v\<rparr>))),
       (''working_dir'', \<lambda>j r. andThen (optional get_string j) (\<lambda>v. Inr (r\<lparr>cer_working_dir := v\<rparr>)))]
      \<lparr>cer_command = [], cer_env = None, cer_user = None, cer_working_dir = None\<rparr>"

definition decode_create_snapshot :: "goerr + json \<Rightarrow> goerr + create_snapshot_request" where
  "decode_create_snapshot =
     decode [(''name'', \<lambda>j r. andThen (optional get_string j) (\<lambda>v. Inr (r\<lparr>cnr_name := v\<rparr>)))] \<lparr>cnr_name = None\<rparr>"

definition decode_create_token :: "goerr + json \<Rightarrow> goerr + create_token_request" where
  "decode_create_token =
     decode
      [(''expires_in_seconds'', \<lambda>j r. andThen (optional get_int64 j) (\<lambda>v. Inr (r\<lparr>ctr_expires_in_seconds := v\<rparr>))),
       (''name'', \<lambda>j r. andThen (plain_string j (ctr_name r)) (\<lambda>v. Inr (r\<lparr>ctr_name := v\<rparr>))),
       (''scopes'', \<lambda>j r. andThen (get_list j) (\<lambda>v. Inr (r\<lparr>ctr_scopes := v\<rparr>)))]
      \<lparr>ctr_expires_in_seconds = None, ctr_name = [], ctr_scopes = []\<rparr>"

definition decode_restore :: "goerr + json \<Rightarrow> goerr + restore_request" where
  "decode_restore =
     decode [(''snapshot'', \<lambda>j r. andThen (plain_string j (rsr_snapshot r)) (\<lambda>v. Inr (r\<lparr>rsr_snapshot := v\<rparr>)))]
      \<lparr>rsr_snapshot = []\<rparr>"

section \<open>A request\<close>

text \<open>
  The path is clean, taken apart at its slashes and unescaped; a missing header is empty. The
  body is what the reader of a handler makes of it: a JSON value (or the decoder's error, which
  is \<open>io.EOF\<close> when there is no body), the bytes, or the tar stream.
\<close>

record request =
  rq_method :: string
  rq_path :: "string list"
  rq_query :: "(string \<times> string) list"
  rq_authorization :: string
  rq_request_id :: string
  rq_remote_addr :: string
  rq_json :: "goerr + json"
  rq_upload :: upload
  rq_tar :: tar_stream

definition query_all :: "request \<Rightarrow> string \<Rightarrow> string list" where
  "query_all rq k = map snd (filter (\<lambda>(k', _). k' = k) (rq_query rq))"

definition query_get :: "request \<Rightarrow> string \<Rightarrow> string" where
  "query_get rq k = (case query_all rq k of [] \<Rightarrow> [] | v # _ \<Rightarrow> v)"

definition default_page_limit :: int where "default_page_limit = 50"

definition page_limit :: "request \<Rightarrow> int" where
  "page_limit rq =
     (let raw = query_get rq ''limit''
      in if raw = [] then default_page_limit
         else (case parse_int64 raw of
                 Inl _ \<Rightarrow> default_page_limit
               | Inr n \<Rightarrow> if n < 1 \<or> n > 200 then default_page_limit else n))"

lemma page_limit_bounds: "1 \<le> page_limit rq \<and> page_limit rq \<le> 200"
  by (simp add: page_limit_def default_page_limit_def Let_def split: sum.split)

section \<open>Credentials\<close>

definition blank :: "char \<Rightarrow> bool" where
  "blank c \<longleftrightarrow> c \<in> {CHR '' '', CHR 0x09, CHR 0x0A, CHR 0x0B, CHR 0x0C, CHR 0x0D}"

definition trim_space :: "string \<Rightarrow> string" where
  "trim_space s = rev (dropWhile blank (rev (dropWhile blank s)))"

definition bearer_token :: "request \<Rightarrow> string" where
  "bearer_token rq =
     (case cut (CHR '' '') (rq_authorization rq) of (scheme, token, found) \<Rightarrow>
        if \<not> found \<or> \<not> equal_fold scheme ''Bearer'' then [] else trim_space token)"

lemma bearer_forms:
  "bearer_token (rq\<lparr>rq_authorization := ''bEARER  tok ''\<rparr>) = ''tok''"
  "bearer_token (rq\<lparr>rq_authorization := ''Basic tok''\<rparr>) = []"
  "bearer_token (rq\<lparr>rq_authorization := ''Bearer''\<rparr>) = []"
  by (simp_all add: bearer_token_def equal_fold_def lower_char_def trim_space_def blank_def) code_simp

section \<open>Times\<close>

text \<open>
  \<open>time.Parse(time.RFC3339, raw)\<close>, in nanoseconds since the first instant of year 1. As the
  library does it, the hour may have one digit, the seconds any fraction, of which nine digits
  count, and an offset of 24 hours or 60 minutes is let through.
\<close>

definition leap :: "int \<Rightarrow> bool" where
  "leap y \<longleftrightarrow> y mod 4 = 0 \<and> (y mod 100 \<noteq> 0 \<or> y mod 400 = 0)"

definition days_in :: "int \<Rightarrow> int \<Rightarrow> int" where
  "days_in y m = (if m = 2 then (if leap y then 29 else 28) else if m \<in> {4, 6, 9, 11} then 30 else 31)"

definition days_before :: "int \<Rightarrow> int \<Rightarrow> int" where
  "days_before y m =
     365 * (y - 1) + (y - 1) div 4 - (y - 1) div 100 + (y - 1) div 400 +
     sum_list (map (days_in y) [1..m - 1])"

text \<open>Exactly \<open>n\<close> digits, one character, an optional fraction.\<close>

definition take_digits :: "nat \<Rightarrow> string \<Rightarrow> (int \<times> string) option" where
  "take_digits n s =
     (if length s < n \<or> \<not> list_all is_digit (take n s) then None else Some (digits_value (take n s), drop n s))"

definition take_hour :: "string \<Rightarrow> (int \<times> string) option" where
  "take_hour s = (case take_digits 2 s of Some r \<Rightarrow> Some r | None \<Rightarrow> take_digits 1 s)"

definition take_char :: "char \<Rightarrow> string \<Rightarrow> string option" where
  "take_char c s = (case s of [] \<Rightarrow> None | x # xs \<Rightarrow> if x = c then Some xs else None)"

definition take_fraction :: "string \<Rightarrow> int \<times> string" where
  "take_fraction s =
     (if length s \<ge> 2 \<and> hd s \<in> {CHR ''.'', CHR '',''} \<and> is_digit (s ! 1)
      then (let ds = takeWhile is_digit (tl s)
            in (digits_value (take 9 (ds @ replicate 9 CHR ''0'')), dropWhile is_digit (tl s)))
      else (0, s))"

text \<open>The offset in seconds; nothing may follow it.\<close>

definition take_zone :: "string \<Rightarrow> int option" where
  "take_zone s =
     (if s = ''Z'' then Some 0
      else if length s \<noteq> 6 \<or> s ! 3 \<noteq> CHR '':'' then None
      else Option.bind (take_digits 2 (take 2 (drop 1 s))) (\<lambda>(hh, _).
           Option.bind (take_digits 2 (drop 4 s)) (\<lambda>(mm, _).
           if hh > 24 \<or> mm > 60 then None
           else if hd s = CHR ''+'' then Some (60 * (60 * hh + mm))
           else if hd s = CHR ''-'' then Some (- (60 * (60 * hh + mm)))
           else None)))"

definition parse_rfc3339 :: "string \<Rightarrow> time option" where
  "parse_rfc3339 s0 =
     Option.bind (take_digits 4 s0) (\<lambda>(y, s1). Option.bind (take_char (CHR ''-'') s1) (\<lambda>s2.
     Option.bind (take_digits 2 s2) (\<lambda>(m, s3). Option.bind (take_char (CHR ''-'') s3) (\<lambda>s4.
     Option.bind (take_digits 2 s4) (\<lambda>(d, s5). Option.bind (take_char (CHR ''T'') s5) (\<lambda>s6.
     Option.bind (take_hour s6) (\<lambda>(hh, s7). Option.bind (take_char (CHR '':'') s7) (\<lambda>s8.
     Option.bind (take_digits 2 s8) (\<lambda>(mm, s9). Option.bind (take_char (CHR '':'') s9) (\<lambda>s10.
     Option.bind (take_digits 2 s10) (\<lambda>(ss, s11).
     (case take_fraction s11 of (ns, s12) \<Rightarrow>
     Option.bind (take_zone s12) (\<lambda>off.
     if m < 1 \<or> m > 12 \<or> d < 1 \<or> d > days_in y m \<or> hh > 23 \<or> mm > 59 \<or> ss > 59 then None
     else Some (1000000000 * (86400 * (days_before y m + d - 1) + 3600 * hh + 60 * mm + ss - off) + ns))))))))))))))"

definition parse_time_param :: "string \<Rightarrow> goerr + time" where
  "parse_time_param raw =
     (if raw = [] then Inr 0
      else (case parse_rfc3339 raw of None \<Rightarrow> Inl (wrapf Api_invalid_request) | Some t \<Rightarrow> Inr t))"

text \<open>The Unix epoch, and the same instant in another zone.\<close>

lemma parse_epoch:
  "parse_rfc3339 ''1970-01-01T00:00:00Z'' = Some 62135596800000000000"
  "parse_rfc3339 ''1970-01-01T2:00:00.0+02:00'' = Some 62135596800000000000"
  by code_simp+

lemma parse_refuses:
  "parse_rfc3339 ''2023-02-29T00:00:00Z'' = None" "parse_rfc3339 ''2024-02-29T24:00:00Z'' = None"
  by code_simp+

end
