(* ===== verification/Api.thy ===== *)
theory Api
  imports Requests
begin

text \<open>
  \<open>internal/api\<close>: the handlers, the route table and the layers around it (request id, audit,
  authentication, scope), over the services they call.
\<close>

section \<open>The server and what a handler has\<close>

record 's server =
  srv_sandboxes :: "'s sandbox_service"
  srv_execs :: "'s exec_service"
  srv_snapshots :: "'s snapshot_service"
  srv_files :: "'s files_service"
  srv_tokens :: "'s auth_service"
  srv_audit :: "'s audit_service"
  srv_version :: string
  srv_request_id :: "('s, string) act"

text \<open>What the layers learn about a request, for its audit event.\<close>

record annotation =
  nt_action :: action
  nt_resource_type :: string
  nt_resource_id :: string
  nt_details :: "(string \<times> detail) list"
  nt_audited :: bool
  nt_actor_token_id :: string
  nt_actor_name :: string

definition no_annotation :: annotation where
  "no_annotation =
     \<lparr>nt_action = [], nt_resource_type = [], nt_resource_id = [], nt_details = [], nt_audited = False,
      nt_actor_token_id = [], nt_actor_name = []\<rparr>"

datatype payload =
    Empty_body | Health_body | Version_body string | Mux_body | Unauthorized_body | Error_body error_body
  | Sandbox_body api_sandbox | Sandbox_page "api_sandbox list" "string option"
  | Snapshot_body api_snapshot | Snapshot_page "api_snapshot list" "string option"
  | Exec_body api_exec | Exec_page "api_exec list" "string option" | Output_stream string int
  | File_body "byte list" file_info | Stat_body api_file_info | Listing_body "api_file_info list" bool
  | Archive_body tar_stream
  | Created_token_body created_token | Token_list_body "api_token list"
  | Event_page "api_event list" "string option"

record response =
  rp_status :: int
  rp_body :: payload

text \<open>
  A handler answers, and says what it adds to the annotation; one that fails does neither: each
  of them passes its error to \<open>writeError\<close> and returns.
\<close>

type_synonym path_values = "string \<Rightarrow> string"

type_synonym 's handler =
  "path_values \<Rightarrow> token option \<Rightarrow> request \<Rightarrow> ('s, (annotation \<Rightarrow> annotation) \<times> response) op"

definition reply :: "int \<Rightarrow> payload \<Rightarrow> (annotation \<Rightarrow> annotation) \<times> response" where
  "reply status body = (\<lambda>a. a, \<lparr>rp_status = status, rp_body = body\<rparr>)"

definition reply_about ::
    "string \<Rightarrow> string \<Rightarrow> (annotation \<Rightarrow> annotation) \<Rightarrow> int \<Rightarrow> payload \<Rightarrow> (annotation \<Rightarrow> annotation) \<times> response" where
  "reply_about kind i extra status body =
     (\<lambda>a. extra (a\<lparr>nt_resource_type := kind, nt_resource_id := i\<rparr>), \<lparr>rp_status = status, rp_body = body\<rparr>)"

text \<open>The cursor of the next page: the last id of a full page.\<close>

definition next_cursor :: "('a \<Rightarrow> string) \<Rightarrow> int \<Rightarrow> 'a list \<Rightarrow> string option" where
  "next_cursor key limit items =
     (if int (length items) = limit \<and> items \<noteq> [] then Some (key (last items)) else None)"

section \<open>Sandboxes\<close>

definition given :: "string option \<Rightarrow> bool" where
  "given s \<longleftrightarrow> s \<noteq> None \<and> s \<noteq> Some []"

definition or_zero :: "'a \<Rightarrow> 'a option \<Rightarrow> 'a" where
  "or_zero z x = (case x of None \<Rightarrow> z | Some a \<Rightarrow> a)"

definition requested :: "create_sandbox_request \<Rightarrow> create_options" where
  "requested req =
     \<lparr>opt_name = or_zero [] (csr_name req), opt_image = [], opt_env = csr_env req, opt_labels = csr_labels req,
      opt_resources = \<lparr>cpu_millis = or_zero 0 (csr_cpu_millis req), memory_bytes = or_zero 0 (csr_memory_bytes req),
        pids_limit = or_zero 0 (csr_pids_limit req)\<rparr>,
      opt_network = or_zero [] (csr_network req)\<rparr>"

definition handle_create_sandbox :: "'s server \<Rightarrow> 's handler" where
  "handle_create_sandbox sv vs pr rq =
     (case decode_create_sandbox (rq_json rq) of
        Inl _ \<Rightarrow> throwE (wrapf Sb_invalid_name)
      | Inr req \<Rightarrow>
          if given (csr_image req) = given (csr_snapshot req) then throwE (wrapf Api_invalid_request)
          else
            bindE (if given (csr_snapshot req)
                   then sandbox_fork (srv_sandboxes sv) (or_zero [] (csr_snapshot req)) (requested req)
                   else sandbox_create (srv_sandboxes sv)
                     ((requested req)\<lparr>opt_image := or_zero [] (csr_image req)\<rparr>)) (\<lambda>created.
            returnE (reply_about ''sandbox'' (sb_id created)
              (\<lambda>a. (if given (csr_snapshot req) then a\<lparr>nt_action := ''sandbox.fork''\<rparr> else a)\<lparr>nt_details :=
                 [(''image'', Text (sb_image created)), (''network'', Text (sb_network created)),
                  (''name'', Text (sb_name created))]\<rparr>)
              201 (Sandbox_body (to_api_sandbox created)))))"

text \<open>A label that is given twice has its last value.\<close>

fun label_filter :: "string list \<Rightarrow> (string \<times> string) list \<Rightarrow> goerr + (string \<times> string) list" where
  "label_filter [] kvs = Inr kvs"
| "label_filter (pair # pairs) kvs =
     (case cut (CHR ''='') pair of (key, value, found) \<Rightarrow>
        if \<not> found then Inl (wrapf Sb_invalid_name)
        else label_filter pairs (filter (\<lambda>(k, _). k \<noteq> key) kvs @ [(key, value)]))"

definition handle_list_sandboxes :: "'s server \<Rightarrow> 's handler" where
  "handle_list_sandboxes sv vs pr rq =
     bindE (liftR (label_filter (query_all rq ''label'') [])) (\<lambda>labels.
     let state = query_get rq ''state'';
         f = \<lparr>sf_states = (if state \<noteq> [] then [state] else []), sf_labels = labels, sf_limit = page_limit rq,
              sf_cursor = query_get rq ''cursor''\<rparr>
     in bindE (sandbox_list (srv_sandboxes sv) f) (\<lambda>items.
        returnE (reply 200 (Sandbox_page (map to_api_sandbox items) (next_cursor sb_id (sf_limit f) items)))))"

definition handle_get_sandbox :: "'s server \<Rightarrow> 's handler" where
  "handle_get_sandbox sv vs pr rq =
     bindE (sandbox_get (srv_sandboxes sv) (vs ''ref'')) (\<lambda>got.
     returnE (reply 200 (Sandbox_body (to_api_sandbox got))))"

definition respond_with_sandbox :: "(string \<Rightarrow> ('s, sandbox) op) \<Rightarrow> 's handler" where
  "respond_with_sandbox act vs pr rq =
     bindE (act (vs ''ref'')) (\<lambda>result.
     returnE (reply_about ''sandbox'' (sb_id result) (\<lambda>a. a) 200 (Sandbox_body (to_api_sandbox result))))"

definition handle_start_sandbox :: "'s server \<Rightarrow> 's handler" where
  "handle_start_sandbox sv = respond_with_sandbox (sandbox_start (srv_sandboxes sv))"

definition handle_stop_sandbox :: "'s server \<Rightarrow> 's handler" where
  "handle_stop_sandbox sv = respond_with_sandbox (sandbox_stop (srv_sandboxes sv))"

definition handle_destroy_sandbox :: "'s server \<Rightarrow> 's handler" where
  "handle_destroy_sandbox sv = respond_with_sandbox (sandbox_destroy (srv_sandboxes sv))"

section \<open>Snapshots\<close>

text \<open>No body at all is let through: the name is optional.\<close>

definition handle_create_snapshot :: "'s server \<Rightarrow> 's handler" where
  "handle_create_snapshot sv vs pr rq =
     bindE (liftR (case decode_create_snapshot (rq_json rq) of
              Inl e \<Rightarrow> if errors_is e Io_eof then Inr \<lparr>cnr_name = None\<rparr> else Inl (wrapf Api_invalid_request)
            | Inr req \<Rightarrow> Inr req)) (\<lambda>req.
     bindE (snapshot_create (srv_snapshots sv)
        \<lparr>sno_sandbox_ref = vs ''ref'', sno_name = or_zero [] (cnr_name req)\<rparr>) (\<lambda>created.
     returnE (reply_about ''snapshot'' (sn_id created) (\<lambda>a. a) 201 (Snapshot_body (to_api_snapshot created)))))"

definition respond_snapshot_list ::
    "'s server \<Rightarrow> snapshot_filter \<Rightarrow> ('s, (annotation \<Rightarrow> annotation) \<times> response) op" where
  "respond_snapshot_list sv f =
     bindE (snapshot_list (srv_snapshots sv) f) (\<lambda>items.
     returnE (reply 200 (Snapshot_page (map to_api_snapshot items) (next_cursor sn_id (snf_limit f) items))))"

definition handle_list_sandbox_snapshots :: "'s server \<Rightarrow> 's handler" where
  "handle_list_sandbox_snapshots sv vs pr rq =
     bindE (sandbox_get (srv_sandboxes sv) (vs ''ref'')) (\<lambda>sb.
     respond_snapshot_list sv
       \<lparr>snf_sandbox_id = sb_id sb, snf_limit = page_limit rq, snf_cursor = query_get rq ''cursor''\<rparr>)"

definition handle_list_snapshots :: "'s server \<Rightarrow> 's handler" where
  "handle_list_snapshots sv vs pr rq =
     (let f = \<lparr>snf_sandbox_id = [], snf_limit = page_limit rq, snf_cursor = query_get rq ''cursor''\<rparr>;
          ref = query_get rq ''sandbox''
      in if ref \<noteq> [] then
           bindE (sandbox_get (srv_sandboxes sv) ref) (\<lambda>sb. respond_snapshot_list sv (f\<lparr>snf_sandbox_id := sb_id sb\<rparr>))
         else respond_snapshot_list sv f)"

definition handle_get_snapshot :: "'s server \<Rightarrow> 's handler" where
  "handle_get_snapshot sv vs pr rq =
     bindE (snapshot_get (srv_snapshots sv) (vs ''ref'')) (\<lambda>got.
     returnE (reply 200 (Snapshot_body (to_api_snapshot got))))"

definition handle_delete_snapshot :: "'s server \<Rightarrow> 's handler" where
  "handle_delete_snapshot sv vs pr rq =
     bindE (snapshot_delete (srv_snapshots sv) (vs ''ref'')) (\<lambda>_.
     returnE (reply_about ''snapshot'' (vs ''ref'') (\<lambda>a. a) 204 Empty_body))"

definition handle_restore_sandbox :: "'s server \<Rightarrow> 's handler" where
  "handle_restore_sandbox sv vs pr rq =
     (case decode_restore (rq_json rq) of
        Inl _ \<Rightarrow> throwE (wrapf Api_invalid_request)
      | Inr req \<Rightarrow>
          if rsr_snapshot req = [] then throwE (wrapf Api_invalid_request)
          else
            bindE (sandbox_restore (srv_sandboxes sv) (vs ''ref'') (rsr_snapshot req)) (\<lambda>restored.
            returnE (reply_about ''sandbox'' (sb_id restored) (\<lambda>a. a) 200 (Sandbox_body (to_api_sandbox restored)))))"

section \<open>Execs\<close>

definition handle_create_exec :: "'s server \<Rightarrow> 's handler" where
  "handle_create_exec sv vs pr rq =
     bindE (sandbox_get (srv_sandboxes sv) (vs ''ref'')) (\<lambda>sb.
     case decode_create_exec (rq_json rq) of
       Inl _ \<Rightarrow> throwE (wrapf Api_invalid_request)
     | Inr req \<Rightarrow>
         if cer_command req = [] then throwE (wrapf Api_invalid_request)
         else
           bindE (exec_create (srv_execs sv)
              \<lparr>xo_sandbox_id = sb_id sb, xo_command = cer_command req, xo_env = cer_env req,
               xo_working_dir = or_zero [] (cer_working_dir req), xo_user = or_zero [] (cer_user req)\<rparr>) (\<lambda>created.
           returnE (reply_about ''exec'' (ex_id created) (\<lambda>a. a) 201 (Exec_body (to_api_exec created)))))"

definition handle_list_execs :: "'s server \<Rightarrow> 's handler" where
  "handle_list_execs sv vs pr rq =
     bindE (sandbox_get (srv_sandboxes sv) (vs ''ref'')) (\<lambda>sb.
     bindE (exec_list (srv_execs sv) (sb_id sb)
        \<lparr>exf_limit = page_limit rq, exf_cursor = query_get rq ''cursor''\<rparr>) (\<lambda>items.
     returnE (reply 200 (Exec_page (map to_api_exec items) (next_cursor ex_id (page_limit rq) items)))))"

definition handle_get_exec :: "'s server \<Rightarrow> 's handler" where
  "handle_get_exec sv vs pr rq =
     bindE (exec_get (srv_execs sv) (vs ''id'')) (\<lambda>got.
     returnE (reply 200 (Exec_body (to_api_exec got))))"

text \<open>Up to the start of the stream, which \<open>Stream\<close> takes from there.\<close>

definition handle_exec_output :: "'s server \<Rightarrow> 's handler" where
  "handle_exec_output sv vs pr rq =
     bindE (exec_get (srv_execs sv) (vs ''id'')) (\<lambda>_.
     let raw = query_get rq ''from''
     in bindE (liftR (if raw = [] then Inr 0
                      else (case parse_int64 raw of
                              Inl _ \<Rightarrow> Inl (wrapf Api_invalid_request)
                            | Inr n \<Rightarrow> if n < 0 then Inl (wrapf Api_invalid_request) else Inr n))) (\<lambda>from_offset.
        returnE (reply 200 (Output_stream (vs ''id'') from_offset))))"

section \<open>Files\<close>

definition about_path :: "string \<Rightarrow> annotation \<Rightarrow> annotation" where
  "about_path path a = a\<lparr>nt_details := [(''path'', Text path)]\<rparr>"

definition handle_read_file :: "'s server \<Rightarrow> 's handler" where
  "handle_read_file sv vs pr rq =
     bindE (files_read (srv_files sv) (vs ''ref'') (query_get rq ''path'')) (\<lambda>(body, info).
     returnE (reply_about ''sandbox'' (vs ''ref'') (about_path (query_get rq ''path'')) 200 (File_body body info)))"

definition handle_write_file :: "'s server \<Rightarrow> 's handler" where
  "handle_write_file sv vs pr rq =
     bindE (files_write (srv_files sv) (vs ''ref'') (query_get rq ''path'') (rq_upload rq)) (\<lambda>_.
     returnE (reply_about ''sandbox'' (vs ''ref'') (about_path (query_get rq ''path'')) 204 Empty_body))"

definition handle_stat_file :: "'s server \<Rightarrow> 's handler" where
  "handle_stat_file sv vs pr rq =
     bindE (files_stat (srv_files sv) (vs ''ref'') (query_get rq ''path'')) (\<lambda>info.
     returnE (reply 200 (Stat_body (to_api_file_info info))))"

definition handle_list_files :: "'s server \<Rightarrow> 's handler" where
  "handle_list_files sv vs pr rq =
     bindE (files_list (srv_files sv) (vs ''ref'') (query_get rq ''path'')) (\<lambda>l.
     returnE (reply 200 (Listing_body (map to_api_file_info (ls_items l)) (ls_truncated l))))"

definition handle_download_archive :: "'s server \<Rightarrow> 's handler" where
  "handle_download_archive sv vs pr rq =
     bindE (download_archive (srv_files sv) (vs ''ref'') (query_get rq ''path'')) (\<lambda>ts.
     returnE (reply_about ''sandbox'' (vs ''ref'') (about_path (query_get rq ''path'')) 200 (Archive_body ts)))"

definition handle_upload_archive :: "'s server \<Rightarrow> 's handler" where
  "handle_upload_archive sv vs pr rq =
     bindE (upload_archive (srv_files sv) (vs ''ref'') (query_get rq ''path'') (rq_tar rq)) (\<lambda>_.
     returnE (reply_about ''sandbox'' (vs ''ref'') (about_path (query_get rq ''path'')) 204 Empty_body))"

section \<open>Tokens\<close>

text \<open>\<open>time.Duration(*req.ExpiresInSeconds) * time.Second\<close> wraps.\<close>

definition expires_in :: "int option \<Rightarrow> int" where
  "expires_in seconds = (case seconds of None \<Rightarrow> 0 | Some n \<Rightarrow> int64 (n * 1000000000))"

definition token_answer :: "token \<Rightarrow> string \<Rightarrow> created_token" where
  "token_answer t plaintext =
     \<lparr>at_created_at = tk_created_at t, at_expires_at = tk_expires_at t, at_id = tk_id t,
      at_last_used_at = tk_last_used_at t, at_name = tk_name t, at_prefix = tk_prefix t,
      at_revoked_at = tk_revoked_at t, at_scopes = api_scopes (tk_scopes t), at_token = plaintext\<rparr>"

definition handle_create_token :: "'s server \<Rightarrow> 's handler" where
  "handle_create_token sv vs pr rq =
     (case decode_create_token (rq_json rq) of
        Inl _ \<Rightarrow> throwE (wrapf Api_invalid_request)
      | Inr req \<Rightarrow>
         (case pr of
            None \<Rightarrow> throwE (Sentinel Api_forbidden)
          | Some caller \<Rightarrow>
              bindE (auth_create (srv_tokens sv)
                 \<lparr>tko_name = ctr_name req, tko_scopes = ctr_scopes req,
                  tko_expires_in = expires_in (ctr_expires_in_seconds req)\<rparr> (tk_scopes caller)) (\<lambda>(created, plaintext).
              returnE (reply_about ''token'' (tk_id created)
                (\<lambda>a. a\<lparr>nt_details := [(''token_id'', Text (tk_id created)), (''scopes'', Texts (tk_scopes created))]\<rparr>)
                201 (Created_token_body (token_answer created plaintext))))))"

definition handle_list_tokens :: "'s server \<Rightarrow> 's handler" where
  "handle_list_tokens sv vs pr rq =
     bindE (auth_list (srv_tokens sv)) (\<lambda>ts. returnE (reply 200 (Token_list_body (map to_api_token ts))))"

definition handle_revoke_token :: "'s server \<Rightarrow> 's handler" where
  "handle_revoke_token sv vs pr rq =
     bindE (auth_revoke (srv_tokens sv) (vs ''id'')) (\<lambda>_.
     returnE (reply_about ''token'' (vs ''id'') (\<lambda>a. a) 204 Empty_body))"

section \<open>Events\<close>

definition handle_list_events :: "'s server \<Rightarrow> 's handler" where
  "handle_list_events sv vs pr rq =
     bindE (liftR (parse_time_param (query_get rq ''since''))) (\<lambda>since.
     bindE (liftR (parse_time_param (query_get rq ''until''))) (\<lambda>until_time.
     bindE (audit_list (srv_audit sv)
        \<lparr>ef_actor = query_get rq ''actor'', ef_action = query_get rq ''action'',
         ef_resource_type = query_get rq ''resource_type'', ef_resource_id = query_get rq ''resource_id'',
         ef_since = since, ef_until = until_time, ef_limit = page_limit rq,
         ef_cursor = query_get rq ''cursor''\<rparr>) (\<lambda>items.
     returnE (reply 200 (Event_page (map to_api_event items) (next_cursor ev_id (page_limit rq) items))))))"

section \<open>The route table\<close>

datatype segment = Lit string | Var string

record 's route =
  ro_method :: string
  ro_path :: "segment list"
  ro_scope :: scope
  ro_public :: bool
  ro_action :: action
  ro_audited :: bool
  ro_handler :: "'s handler"

definition handle_health :: "'s handler" where
  "handle_health vs pr rq = returnE (reply 200 Health_body)"

definition handle_version :: "'s server \<Rightarrow> 's handler" where
  "handle_version sv vs pr rq = returnE (reply 200 (Version_body (srv_version sv)))"

definition public_route :: "string \<Rightarrow> segment list \<Rightarrow> 's handler \<Rightarrow> 's route" where
  "public_route m q h = \<lparr>ro_method = m, ro_path = Lit ''v1'' # q, ro_scope = [], ro_public = True, ro_action = [],
     ro_audited = False, ro_handler = h\<rparr>"

definition plain_route :: "string \<Rightarrow> segment list \<Rightarrow> scope \<Rightarrow> 's handler \<Rightarrow> 's route" where
  "plain_route m q sc h = \<lparr>ro_method = m, ro_path = Lit ''v1'' # q, ro_scope = sc, ro_public = False, ro_action = [],
     ro_audited = False, ro_handler = h\<rparr>"

definition audited_route :: "string \<Rightarrow> segment list \<Rightarrow> scope \<Rightarrow> action \<Rightarrow> 's handler \<Rightarrow> 's route" where
  "audited_route m q sc a h = \<lparr>ro_method = m, ro_path = Lit ''v1'' # q, ro_scope = sc, ro_public = False, ro_action = a,
     ro_audited = True, ro_handler = h\<rparr>"

definition in_sandbox :: "segment list" where
  "in_sandbox = [Lit ''sandboxes'', Var ''ref'']"

definition routes :: "'s server \<Rightarrow> 's route list" where
  "routes sv =
     [public_route ''GET'' [Lit ''healthz''] handle_health,
      public_route ''GET'' [Lit ''version''] (handle_version sv),
      audited_route ''POST'' [Lit ''sandboxes''] ''sandboxes:write'' ''sandbox.create'' (handle_create_sandbox sv),
      plain_route ''GET'' [Lit ''sandboxes''] ''sandboxes:read'' (handle_list_sandboxes sv),
      plain_route ''GET'' in_sandbox ''sandboxes:read'' (handle_get_sandbox sv),
      audited_route ''DELETE'' in_sandbox ''sandboxes:write'' ''sandbox.destroy'' (handle_destroy_sandbox sv),
      audited_route ''POST'' (in_sandbox @ [Lit ''start'']) ''sandboxes:write'' ''sandbox.start'' (handle_start_sandbox sv),
      audited_route ''POST'' (in_sandbox @ [Lit ''stop'']) ''sandboxes:write'' ''sandbox.stop'' (handle_stop_sandbox sv),
      audited_route ''POST'' (in_sandbox @ [Lit ''execs'']) ''exec'' ''exec.create'' (handle_create_exec sv),
      plain_route ''GET'' (in_sandbox @ [Lit ''execs'']) ''exec'' (handle_list_execs sv),
      plain_route ''GET'' [Lit ''execs'', Var ''id''] ''exec'' (handle_get_exec sv),
      plain_route ''GET'' [Lit ''execs'', Var ''id'', Lit ''output''] ''exec'' (handle_exec_output sv),
      audited_route ''POST'' (in_sandbox @ [Lit ''snapshots'']) ''snapshots:write'' ''snapshot.create'' (handle_create_snapshot sv),
      plain_route ''GET'' (in_sandbox @ [Lit ''snapshots'']) ''snapshots:read'' (handle_list_sandbox_snapshots sv),
      audited_route ''POST'' (in_sandbox @ [Lit ''restore'']) ''sandboxes:write'' ''sandbox.restore'' (handle_restore_sandbox sv),
      plain_route ''GET'' [Lit ''snapshots''] ''snapshots:read'' (handle_list_snapshots sv),
      plain_route ''GET'' [Lit ''snapshots'', Var ''ref''] ''snapshots:read'' (handle_get_snapshot sv),
      audited_route ''DELETE'' [Lit ''snapshots'', Var ''ref''] ''snapshots:write'' ''snapshot.delete'' (handle_delete_snapshot sv),
      audited_route ''GET'' (in_sandbox @ [Lit ''files'']) ''files:read'' ''file.read'' (handle_read_file sv),
      audited_route ''PUT'' (in_sandbox @ [Lit ''files'']) ''files:write'' ''file.write'' (handle_write_file sv),
      plain_route ''GET'' (in_sandbox @ [Lit ''files'', Lit ''stat'']) ''files:read'' (handle_stat_file sv),
      plain_route ''GET'' (in_sandbox @ [Lit ''files'', Lit ''list'']) ''files:read'' (handle_list_files sv),
      audited_route ''GET'' (in_sandbox @ [Lit ''archive'']) ''files:read'' ''archive.download'' (handle_download_archive sv),
      audited_route ''PUT'' (in_sandbox @ [Lit ''archive'']) ''files:write'' ''archive.upload'' (handle_upload_archive sv),
      audited_route ''POST'' [Lit ''tokens''] scope_admin ''token.create'' (handle_create_token sv),
      plain_route ''GET'' [Lit ''tokens''] scope_admin (handle_list_tokens sv),
      audited_route ''DELETE'' [Lit ''tokens'', Var ''id''] scope_admin ''token.revoke'' (handle_revoke_token sv),
      plain_route ''GET'' [Lit ''events''] ''audit:read'' (handle_list_events sv)]"

text \<open>
  The patterns of \<open>http.ServeMux\<close>: a literal segment, or a name for one that is not empty; a
  \<open>GET\<close> route takes \<open>HEAD\<close> as well. No two routes take the same request, so the first is the one.
\<close>

fun match_path :: "segment list \<Rightarrow> string list \<Rightarrow> (string \<times> string) list option" where
  "match_path [] [] = Some []"
| "match_path (Lit l # q) (x # xs) = (if x = l then match_path q xs else None)"
| "match_path (Var n # q) (x # xs) =
     (if x = [] then None else map_option (\<lambda>vs. (n, x) # vs) (match_path q xs))"
| "match_path _ _ = None"

definition method_matches :: "string \<Rightarrow> string \<Rightarrow> bool" where
  "method_matches route m \<longleftrightarrow> m = route \<or> (route = ''GET'' \<and> m = ''HEAD'')"

definition route_takes :: "request \<Rightarrow> 's route \<Rightarrow> bool" where
  "route_takes rq r \<longleftrightarrow> method_matches (ro_method r) (rq_method rq) \<and> match_path (ro_path r) (rq_path rq) \<noteq> None"

definition path_values_of :: "'s route \<Rightarrow> request \<Rightarrow> path_values" where
  "path_values_of r rq n = or_zero [] (map_of (or_zero [] (match_path (ro_path r) (rq_path rq))) n)"

text \<open>A mux answers a path of other methods with 405, any other with 404.\<close>

definition mux_error :: "'s route list \<Rightarrow> request \<Rightarrow> response" where
  "mux_error rs rq =
     \<lparr>rp_status = (if list_ex (\<lambda>r. match_path (ro_path r) (rq_path rq) \<noteq> None) rs then 405 else 404),
      rp_body = Mux_body\<rparr>"

section \<open>The layers\<close>

text \<open>A layer ends with an annotation and an answer; the id of the request is given.\<close>

type_synonym 's layer = "annotation \<Rightarrow> 's \<Rightarrow> (annotation \<times> response) \<times> 's"

definition error_response :: "string \<Rightarrow> goerr \<Rightarrow> response" where
  "error_response request_id err =
     (case write_error request_id err of (status, body) \<Rightarrow> \<lparr>rp_status = status, rp_body = Error_body body\<rparr>)"

definition run_handler :: "string \<Rightarrow> ('s, (annotation \<Rightarrow> annotation) \<times> response) op \<Rightarrow> 's layer" where
  "run_handler request_id h a s =
     (case h s of
        (Inl err, s') \<Rightarrow> ((a, error_response request_id err), s')
      | (Inr (note, rsp), s') \<Rightarrow> ((note a, rsp), s'))"

definition require_scope :: "string \<Rightarrow> scope \<Rightarrow> token option \<Rightarrow> 's layer \<Rightarrow> 's layer" where
  "require_scope request_id want pr next_layer a s =
     (if (case pr of None \<Rightarrow> True | Some t \<Rightarrow> \<not> scopes_has (tk_scopes t) want)
      then ((a\<lparr>nt_details := [(''required_scope'', Text want), (''reason'', Text ''insufficient_scope'')]\<rparr>,
             error_response request_id (Missing_scope want)), s)
      else next_layer a s)"

definition with_route :: "'s route \<Rightarrow> 's layer \<Rightarrow> 's layer" where
  "with_route r next_layer a s = next_layer (a\<lparr>nt_action := ro_action r, nt_audited := ro_audited r\<rparr>) s"

definition private_mux :: "'s server \<Rightarrow> string \<Rightarrow> request \<Rightarrow> token option \<Rightarrow> 's layer" where
  "private_mux sv request_id rq pr a s =
     (let rs = filter (\<lambda>r. \<not> ro_public r) (routes sv)
      in case find (route_takes rq) rs of
           None \<Rightarrow> ((a, mux_error rs rq), s)
         | Some r \<Rightarrow>
             with_route r (require_scope request_id (ro_scope r) pr
               (run_handler request_id (ro_handler r (path_values_of r rq) pr rq))) a s)"

definition denied_auth_details :: "string \<Rightarrow> string \<Rightarrow> token option \<Rightarrow> goerr \<Rightarrow> (string \<times> detail) list" where
  "denied_auth_details header raw resolved err =
     (''reason'', Text (if header = [] then ''missing''
                        else if raw = [] then ''malformed''
                        else if errors_is err Auth_token_revoked then ''revoked''
                        else if errors_is err Auth_token_expired then ''expired''
                        else ''unknown'')) #
     (case resolved of None \<Rightarrow> [] | Some t \<Rightarrow> [(''token_prefix'', Text (tk_prefix t))])"

definition unauthorized :: response where
  "unauthorized = \<lparr>rp_status = 401, rp_body = Unauthorized_body\<rparr>"

definition authenticate :: "'s server \<Rightarrow> string \<Rightarrow> request \<Rightarrow> (token \<Rightarrow> 's layer) \<Rightarrow> 's layer" where
  "authenticate sv request_id rq next_layer a s =
     (let raw = bearer_token rq
      in case auth_authenticate (srv_tokens sv) raw s of
           (Inl (err, resolved), s') \<Rightarrow>
             if \<not> errors_is err Auth_unauthorized then ((a, error_response request_id err), s')
             else ((a\<lparr>nt_details := denied_auth_details (rq_authorization rq) raw resolved err\<rparr>, unauthorized), s')
         | (Inr t, s') \<Rightarrow> next_layer t (a\<lparr>nt_actor_token_id := tk_id t, nt_actor_name := tk_name t\<rparr>) s')"

text \<open>The root mux: the two public paths, and everything else behind the credentials.\<close>

definition root_mux :: "'s server \<Rightarrow> string \<Rightarrow> request \<Rightarrow> 's layer" where
  "root_mux sv request_id rq a s =
     (if rq_path rq = [''v1'', ''healthz''] \<or> rq_path rq = [''v1'', ''version'']
      then (let rs = filter ro_public (routes sv)
            in case find (route_takes rq) rs of
                 None \<Rightarrow> ((a, mux_error rs rq), s)
               | Some r \<Rightarrow> run_handler request_id (ro_handler r (path_values_of r rq) None rq) a s)
      else authenticate sv request_id rq (\<lambda>t. private_mux sv request_id rq (Some t)) a s)"

definition build_event :: "request \<Rightarrow> string \<Rightarrow> int \<Rightarrow> annotation \<Rightarrow> event option" where
  "build_event rq request_id status a =
     (let denied = (status = 401 \<or> status = 403)
      in if \<not> denied \<and> \<not> nt_audited a then None
         else Some \<lparr>ev_id = [], ev_timestamp = 0, ev_actor_token_id = nt_actor_token_id a,
                    ev_actor_name = nt_actor_name a,
                    ev_action = (if denied then ''auth.denied'' else nt_action a),
                    ev_resource_type = nt_resource_type a, ev_resource_id = nt_resource_id a,
                    ev_request_id = request_id, ev_status = status, ev_remote_addr = rq_remote_addr rq,
                    ev_details = nt_details a\<rparr>)"

text \<open>An event that cannot be recorded is logged and forgotten.\<close>

definition audit_layer :: "'s server \<Rightarrow> string \<Rightarrow> request \<Rightarrow> 's layer \<Rightarrow> 's \<Rightarrow> response \<times> 's" where
  "audit_layer sv request_id rq next_layer s =
     (case next_layer no_annotation s of
        ((a, rsp), s') \<Rightarrow>
          (case build_event rq request_id (rp_status rsp) a of
             None \<Rightarrow> (rsp, s')
           | Some e \<Rightarrow> (rsp, snd (audit_record (srv_audit sv) e s'))))"

definition pick_request_id :: "'s server \<Rightarrow> request \<Rightarrow> 's \<Rightarrow> string \<times> 's" where
  "pick_request_id sv rq s =
     (if rq_request_id rq = [] then srv_request_id sv s else (rq_request_id rq, s))"

definition serve :: "'s server \<Rightarrow> request \<Rightarrow> 's \<Rightarrow> response \<times> 's" where
  "serve sv rq s =
     (case pick_request_id sv rq s of
        (request_id, s') \<Rightarrow> audit_layer sv request_id rq (root_mux sv request_id rq) s')"

section \<open>The table is well formed\<close>

text \<open>Two patterns of the same length that no path fits both.\<close>

fun apart :: "segment list \<Rightarrow> segment list \<Rightarrow> bool" where
  "apart [] [] = False"
| "apart (Lit a # p) (Lit b # q) = (a \<noteq> b \<or> apart p q)"
| "apart (Lit a # p) (Var n # q) = apart p q"
| "apart (Var n # p) (Lit b # q) = apart p q"
| "apart (Var n # p) (Var m # q) = apart p q"
| "apart _ _ = True"

lemma apart_paths: "apart p q \<Longrightarrow> match_path p xs \<noteq> None \<Longrightarrow> match_path q xs = None"
proof (induction p q arbitrary: xs rule: apart.induct)
  case (2 a p b q)
  then show ?case by (cases xs) (auto split: if_splits)
next
  case (3 a p n q)
  then show ?case by (cases xs) (auto split: if_splits)
next
  case (4 n p b q)
  then show ?case by (cases xs) (auto split: if_splits)
next
  case (5 n p m q)
  then show ?case by (cases xs) (auto split: if_splits)
qed (auto elim: match_path.elims)

text \<open>The mux has no choice: a request fits one route at most.\<close>

definition never_both :: "'s route \<Rightarrow> 's route \<Rightarrow> bool" where
  "never_both r r' \<longleftrightarrow> apart (ro_path r) (ro_path r') \<or>
     (ro_method r \<noteq> ro_method r' \<and> ro_method r \<noteq> ''HEAD'' \<and> ro_method r' \<noteq> ''HEAD'')"

lemma never_both_takes: "never_both r r' \<Longrightarrow> route_takes rq r \<Longrightarrow> \<not> route_takes rq r'"
  by (auto simp: never_both_def route_takes_def method_matches_def dest: apart_paths)

definition route_shapes :: "(string \<times> segment list) list" where
  "route_shapes =
     (let v1 = (\<lambda>q. Lit ''v1'' # q); box = (\<lambda>q. Lit ''v1'' # Lit ''sandboxes'' # Var ''ref'' # q) in
      [(''GET'', v1 [Lit ''healthz'']), (''GET'', v1 [Lit ''version'']), (''POST'', v1 [Lit ''sandboxes'']),
       (''GET'', v1 [Lit ''sandboxes'']), (''GET'', box []), (''DELETE'', box []), (''POST'', box [Lit ''start'']),
       (''POST'', box [Lit ''stop'']), (''POST'', box [Lit ''execs'']), (''GET'', box [Lit ''execs'']),
       (''GET'', v1 [Lit ''execs'', Var ''id'']), (''GET'', v1 [Lit ''execs'', Var ''id'', Lit ''output'']),
       (''POST'', box [Lit ''snapshots'']), (''GET'', box [Lit ''snapshots'']), (''POST'', box [Lit ''restore'']),
       (''GET'', v1 [Lit ''snapshots'']), (''GET'', v1 [Lit ''snapshots'', Var ''ref'']),
       (''DELETE'', v1 [Lit ''snapshots'', Var ''ref'']), (''GET'', box [Lit ''files'']), (''PUT'', box [Lit ''files'']),
       (''GET'', box [Lit ''files'', Lit ''stat'']), (''GET'', box [Lit ''files'', Lit ''list'']),
       (''GET'', box [Lit ''archive'']), (''PUT'', box [Lit ''archive'']), (''POST'', v1 [Lit ''tokens'']),
       (''GET'', v1 [Lit ''tokens'']), (''DELETE'', v1 [Lit ''tokens'', Var ''id'']), (''GET'', v1 [Lit ''events''])])"

lemma routes_shapes: "map (\<lambda>r. (ro_method r, ro_path r)) (routes sv) = route_shapes"
  by (simp add: routes_def public_route_def plain_route_def audited_route_def in_sandbox_def route_shapes_def Let_def)

lemma shapes_apart:
  "sorted_wrt (\<lambda>(m, p) (m', p'). apart p p' \<or> (m \<noteq> m' \<and> m \<noteq> ''HEAD'' \<and> m' \<noteq> ''HEAD'')) route_shapes"
  by code_simp

lemma routes_apart: "sorted_wrt never_both (routes sv)"
proof -
  have "sorted_wrt (\<lambda>x y. never_both x y) (routes sv)"
    using shapes_apart by (simp add: routes_shapes [of sv, symmetric] sorted_wrt_map never_both_def)
  then show ?thesis by simp
qed

lemma at_most_one: "sorted_wrt (\<lambda>x y. P x \<longrightarrow> \<not> P y) xs \<Longrightarrow> length (filter P xs) \<le> 1"
  by (induction xs) (auto simp: filter_eq_nil_iff_all)

lemma one_route: "length (filter (route_takes rq) (routes sv)) \<le> 1"
  by (rule at_most_one, rule sorted_wrt_mono_rel [OF _ routes_apart]) (simp add: never_both_takes)

lemma the_route:
  assumes "r \<in> set (routes sv)" "r' \<in> set (routes sv)" "route_takes rq r" "route_takes rq r'"
  shows "r = r'"
proof -
  have "r \<in> set (filter (route_takes rq) (routes sv))" "r' \<in> set (filter (route_takes rq) (routes sv))"
    using assms by simp_all
  then show ?thesis
    using one_route [of rq sv] by (cases "filter (route_takes rq) (routes sv)") auto
qed

lemma match_path_iff:
  "match_path [] xs \<noteq> None \<longleftrightarrow> xs = []"
  "match_path (Lit l # q) xs \<noteq> None \<longleftrightarrow> (\<exists>ys. xs = l # ys \<and> match_path q ys \<noteq> None)"
  "match_path (Var n # q) xs \<noteq> None \<longleftrightarrow> (\<exists>y ys. xs = y # ys \<and> y \<noteq> [] \<and> match_path q ys \<noteq> None)"
  by (cases xs; auto)+

lemma route_table:
  "list_all (\<lambda>r. (ro_audited r \<longrightarrow> \<not> ro_public r \<and> valid_action (ro_action r)) \<and>
     (\<not> ro_public r \<longrightarrow> ro_scope r \<in> set known_scopes)) (routes sv)"
  by (simp add: routes_def public_route_def plain_route_def audited_route_def valid_action_def known_actions_def
      known_scopes_def scope_admin_def)

lemma route_paths:
  "list_all (\<lambda>r. match_path (ro_path r) xs \<noteq> None \<longrightarrow>
     ro_public r = (xs = [''v1'', ''healthz''] \<or> xs = [''v1'', ''version''])) (routes sv)"
  by (simp add: routes_def public_route_def plain_route_def audited_route_def in_sandbox_def match_path_iff del: not_None_eq)
    (intro conjI impI; elim exE conjE; simp)

lemma route_facts:
  assumes "r \<in> set (routes sv)"
  shows "ro_audited r \<Longrightarrow> \<not> ro_public r" "ro_audited r \<Longrightarrow> valid_action (ro_action r)"
    "\<not> ro_public r \<Longrightarrow> ro_scope r \<in> set known_scopes"
    "route_takes rq r \<Longrightarrow> ro_public r \<longleftrightarrow> rq_path rq = [''v1'', ''healthz''] \<or> rq_path rq = [''v1'', ''version'']"
  using assms route_table [of sv] route_paths [of "rq_path rq" sv] by (simp_all add: list_all_iff route_takes_def)

end
