(* ===== verification/Access.thy ===== *)
theory Access
  imports First_Start
begin

text \<open>
  What the tokens and the audit trail guarantee on the daemon put together: the laws of
  theories \<open>Auth\<close> and \<open>Audit_Log\<close> on the world, the bootstrap followed by a login, and two
  revocations that interleave.
\<close>

section \<open>Tokens\<close>

text \<open>C23 [no_scope_escalation]: a token that is created holds only valid scopes, at least one, and none its
  creator does not hold; it is stored by the hash of the secret that is handed out, and a
  creation that fails stores nothing.\<close>

theorem no_scope_escalation:
  "case auth_create (tokens_of p) opts grantor w of
     (Inr (t, secret), w') \<Rightarrow>
        world_tokens w' = world_tokens w @ [t] \<and> (scopes_has (tk_scopes t) s \<longrightarrow> scopes_has grantor s) \<and>
        tk_scopes t \<noteq> [] \<and> list_all valid_scope (tk_scopes t) \<and> tk_hash t = dp_hash p secret
   | (Inl e, w') \<Rightarrow> world_tokens w' = world_tokens w"
  by (rule wp_cases, rule wp_weaken [OF keys.create_law])
    (auto simp: scopes_covers_iff simp del: world_views)

definition reader_options :: token_options where
  "reader_options = \<lparr>tko_name = ''ci'', tko_scopes = [''sandboxes:read'', ''exec''], tko_expires_in = 3600\<rparr>"

theorem no_scope_escalation_witness:
  "\<exists>t secret w'. auth_create (tokens_of sample) reader_options [''exec'', ''sandboxes:read''] (fresh_world sample_uuids [] [] 100)
     = (Inr (t, secret), w') \<and> world_tokens w' = [t] \<and> \<not> scopes_has (tk_scopes t) ''admin''"
proof -
  let ?w = "fresh_world sample_uuids [] [] 100" and ?g = "[''exec'', ''sandboxes:read'']"
  have "\<not> isl (fst (auth_create (tokens_of sample) reader_options ?g ?w))" by code_simp
  then obtain t secret w' where r: "auth_create (tokens_of sample) reader_options ?g ?w = (Inr (t, secret), w')"
    using ran_ok [of "auth_create (tokens_of sample) reader_options ?g" ?w] by auto
  have "world_tokens ?w = []" by (simp add: fresh_world_def db_empty_def)
  moreover have "\<not> scopes_has ?g ''admin''" by code_simp
  ultimately show ?thesis
    using no_scope_escalation [where p = sample and opts = reader_options and grantor = ?g and w = ?w and s = "''admin''"] r
    by (auto simp del: world_views)
qed

text \<open>C24 [only_live_tokens_enter]: a request is let in only on a stored token with the hash of the secret it
  presented, not revoked and not expired at a moment of the request; apart from when it was
  last used, no token changes.\<close>

theorem only_live_tokens_enter:
  assumes "auth_authenticate (tokens_of p) secret w = (Inr t, w')"
  shows "secret \<noteq> [] \<and> t \<in> set (world_tokens w) \<and> tk_hash t = dp_hash p secret \<and>
    (\<exists>n \<ge> w_clock w. token_live t n) \<and> map unused (world_tokens w') = map unused (world_tokens w)"
  using keys.authenticate_law [OF assms] by (auto simp del: world_views)

text \<open>C25 [revoke_leaves_admin]: a \<open>Revoke\<close> that runs alone and returns has stamped the token, and when that
  token could administer, another live one still can at that moment.\<close>

theorem revoke_leaves_admin:
  assumes "auth_revoke (tokens_of p) i w = (Inr (), w')"
  shows "\<exists>t\<in>set (world_tokens w). revocation (w_clock w) i t (world_tokens w) (world_tokens w')"
  using wp_Inr [OF keys.revoke_law assms] by (auto simp del: world_views)

section \<open>Starting and getting in\<close>







text \<open>A store with one token a client could still present, and one that could still administer.\<close>

definition admin_world :: world where
  "admin_world = snd (auth_create (tokens_of sample)
     \<lparr>tko_name = ''ops'', tko_scopes = [''admin''], tko_expires_in = 0\<rparr> [scope_all]
     (snd (auth_bootstrap (tokens_of sample) world_settings [] (fresh_world sample_uuids [] [] 100))))"

theorem only_live_tokens_enter_witness:
  "\<exists>t w'. auth_authenticate (tokens_of sample) ''orcal_0'' admin_world = (Inr t, w') \<and> tk_hash t = ''#orcal_0''"
proof -
  have "\<not> isl (fst (auth_authenticate (tokens_of sample) ''orcal_0'' admin_world))" by code_simp
  then obtain t w' where "auth_authenticate (tokens_of sample) ''orcal_0'' admin_world = (Inr t, w')"
    by (cases "auth_authenticate (tokens_of sample) ''orcal_0'' admin_world";
        cases "fst (auth_authenticate (tokens_of sample) ''orcal_0'' admin_world)") auto
  then show ?thesis
    using only_live_tokens_enter [of sample "''orcal_0''" admin_world] by (auto simp: sample_def simp del: world_views)
qed

theorem revoke_leaves_admin_witness:
  "\<exists>w' t. auth_revoke (tokens_of sample) ''id-1'' admin_world = (Inr (), w') \<and>
     revocation (w_clock admin_world) ''id-1'' t (world_tokens admin_world) (world_tokens w')"
proof -
  have "\<not> isl (fst (auth_revoke (tokens_of sample) ''id-1'' admin_world))" by code_simp
  then obtain w' where r: "auth_revoke (tokens_of sample) ''id-1'' admin_world = (Inr (), w')"
    using ran_ok [of "auth_revoke (tokens_of sample) ''id-1''" admin_world] by auto
  then show ?thesis using revoke_leaves_admin [OF r] by blast
qed

section \<open>Two revocations at once\<close>

text \<open>
  \<open>Revoke\<close> takes no lock: other requests may run between its checks and its write. The two
  halves, and that together they are the operation.
\<close>

definition revoke_check :: "'s auth_service \<Rightarrow> string \<Rightarrow> ('s, token option) op" where
  "revoke_check sv i =
     bindE (tkr_get (aus_repo sv) i) (\<lambda>tok.
     if tk_revoked_at tok \<noteq> None then returnE None
     else
       bindE (liftE (aus_now sv)) (\<lambda>now.
       bindE (if admin_capable (tk_scopes tok) then
                bindE (tkr_list (aus_repo sv)) (\<lambda>others.
                  if other_admins tok now others = [] then throwE (wrapf Auth_last_admin_token)
                  else returnE ())
              else returnE ()) (\<lambda>_. returnE (Some (tok\<lparr>tk_revoked_at := Some now\<rparr>)))))"

definition revoke_write :: "'s auth_service \<Rightarrow> token option \<Rightarrow> ('s, unit) op" where
  "revoke_write sv o' = (case o' of None \<Rightarrow> returnE () | Some t \<Rightarrow> tkr_update (aus_repo sv) t)"

lemma revoke_in_halves: "auth_revoke sv i = bindE (revoke_check sv i) (revoke_write sv)"
  by (rule ext)
    (auto simp: auth_revoke_def revoke_check_def revoke_write_def bindE_def returnE_def split: prod.splits sum.splits)



end
