(* ===== verification/Transfers.thy ===== *)
theory Transfers
  imports Fleet Files
begin

text \<open>
  The file service on the daemon put together: what a \<open>Write\<close> leaves in the container is what
  a \<open>Read\<close> gives back, uploads stay under their destination, and where the size caps hold.
\<close>

text \<open>What \<open>archive/tar\<close> and the runtime's reader decide.\<close>

record tar_library =
  tl_header_bytes :: "tar_header \<Rightarrow> int"
  tl_encodes :: "tar_header \<Rightarrow> bool"
  tl_taken :: "string \<Rightarrow> string \<Rightarrow> tar_stream \<Rightarrow> world \<Rightarrow> nat"

definition file_service_of :: "deployment \<Rightarrow> tar_library \<Rightarrow> world files_service" where
  "file_service_of p lib =
     \<lparr>fls_runtime_id_for = sandbox_runtime_id_for (sandboxes_of p),
      fls_with_locked = with_locked_runtime_id (sandboxes_of p), fls_rt = world_runtime,
      fls_limits = \<lparr>fl_file_max_bytes = cf_file_max_bytes (dp_config p),
        fl_archive_max_bytes = cf_archive_max_bytes (dp_config p),
        fl_list_max_entries = cf_list_max_entries (dp_config p),
        fl_list_max_scan_bytes = cf_list_max_scan_bytes (dp_config p)\<rparr>,
      fls_now = world_now, fls_header_bytes = tl_header_bytes lib, fls_encodes = tl_encodes lib,
      fls_taken = tl_taken lib\<rparr>"

lemma file_parts [simp]:
  "fls_runtime_id_for (file_service_of p lib) = sandbox_runtime_id_for (sandboxes_of p)"
  "fls_with_locked (file_service_of p lib) = with_locked_runtime_id (sandboxes_of p)"
  "fls_rt (file_service_of p lib) = world_runtime" "fls_now (file_service_of p lib) = world_now"
  "fl_file_max_bytes (fls_limits (file_service_of p lib)) = cf_file_max_bytes (dp_config p)"
  "fl_archive_max_bytes (fls_limits (file_service_of p lib)) = cf_archive_max_bytes (dp_config p)"
  by (simp_all add: file_service_of_def)

section \<open>A file written and read back\<close>

definition file_node :: "byte list \<Rightarrow> time \<Rightarrow> fake_node" where
  "file_node body now = \<lparr>fn_mode = 0x1a4, fn_data = body, fn_is_dir = False, fn_mod_time = now\<rparr>"

text \<open>The container \<open>i\<close> exists and holds the node at the path.\<close>

definition holds_node :: "fake \<Rightarrow> string \<Rightarrow> string \<Rightarrow> fake_node \<Rightarrow> bool" where
  "holds_node f i q n \<longleftrightarrow>
     (\<exists>c. map_of (fk_containers f) i = Some c \<and> fc_state c \<noteq> C_gone \<and> map_of (fc_files c) q = Some n)"

lemma write_file_entries:
  assumes "list_all (\<lambda>h. th_typeflag h = Type_dir) ds"
  shows "\<exists>fs'. write_entries dest (ts_entries (file_archive ds entry body now)) None fs = (Inr (), fs') \<and>
    map_of fs' (path_join [dest, path_clean entry]) = Some (file_node body now)"
  using assms
  by (induction ds arbitrary: fs)
    (simp_all add: file_archive_def Let_def file_header_def file_node_def update_conv')

lemma fake_write_holds:
  assumes "fake_write_archive i anchor (file_archive ds entry body now) f = (Inr (), f')"
    and "list_all (\<lambda>h. th_typeflag h = Type_dir) ds" "path_clean anchor = anchor"
  shows "holds_node f' i (path_join [anchor, path_clean entry]) (file_node body now)"
proof -
  obtain c f1 where c: "fs_for i f = (Inr c, f1)" "fc_state c \<noteq> C_gone"
    using assms(1) by (auto simp: fake_write_archive_def fs_for_def bindE_def Let_def split: option.splits if_splits)
  obtain fs' where fs: "write_entries anchor (ts_entries (file_archive ds entry body now)) None (fc_files c) = (Inr (), fs')"
    "map_of fs' (path_join [anchor, path_clean entry]) = Some (file_node body now)"
    using write_file_entries [OF assms(2)] by blast
  have "ts_error (file_archive ds entry body now) = None" by (simp add: file_archive_def)
  then have "f' = put_container i (c\<lparr>fc_files := fs'\<rparr>) f1"
    using assms(1,3) c fs(1) by (auto simp: fake_write_archive_def bindE_def Let_def split: option.splits if_splits)
  then show ?thesis using c(2) fs(2) by (simp add: holds_node_def put_container_def update_conv')
qed

lemma files_of_holds: "map_of (fc_files c) q = Some n \<Longrightarrow> files_of c = fc_files c"
  by (cases "fc_files c") (simp_all add: files_of_def)

lemma fs_for_holds:
  assumes "holds_node f i q n"
  obtains c f1 where "fs_for i f = (Inr c, f1)" "map_of (fc_files c) q = Some n" "holds_node f1 i q n"
proof -
  obtain c where c: "map_of (fk_containers f) i = Some c" "fc_state c \<noteq> C_gone" "map_of (fc_files c) q = Some n"
    using assms by (auto simp: holds_node_def)
  then have "fs_for i f = (Inr c, put_container i c f)"
    by (simp add: fs_for_def files_of_holds [OF c(3)])
  then show ?thesis using that c by (simp add: holds_node_def put_container_def update_conv')
qed

lemma fake_stat_holds:
  assumes "holds_node f i q n" "path_clean q = q"
  obtains f1 where "fake_stat_path i q f = (Inr \<lparr>fi_name = path_base q, fi_link_target = [],
      fi_size = int (length (fn_data n)), fi_mode = fn_mode n, fi_mod_time = fn_mod_time n, fi_is_dir = fn_is_dir n\<rparr>, f1)"
    "holds_node f1 i q n"
  using assms(2) by (rule_tac fs_for_holds [OF assms(1)]) (auto simp: fake_stat_path_def bindE_def intro!: that)

lemma fake_read_holds:
  assumes "holds_node f i q n" "path_clean q = q" "\<not> fn_is_dir n"
  obtains f1 where "fake_read_archive i q f = (Inr \<lparr>ts_entries = [node_entry (path_base q) n], ts_error = None\<rparr>, f1)"
  using assms(2,3) by (rule_tac fs_for_holds [OF assms(1)]) (auto simp: fake_read_archive_def bindE_def Let_def intro!: that)

subsection \<open>On the daemon\<close>

lemma fs_for_calm: "keeps fake_calm (fs_for i)"
  by (auto intro!: keepsI fake_calm_put simp: fs_for_def Let_def split: option.splits if_splits)

lemma fake_known_after: "fs_for i f = (Inr c, f1) \<Longrightarrow> i \<in> fake_known f1"
  by (auto simp: fs_for_def Let_def split: option.splits if_splits)

lemma fake_files_calm:
  "keeps fake_calm (fake_stat_path i q)" "keeps fake_calm (fake_read_archive i q)" "keeps fake_calm (fake_write_archive i q t)"
proof -
  show "keeps fake_calm (fake_stat_path i q)" "keeps fake_calm (fake_read_archive i q)"
    unfolding fake_stat_path_def fake_read_archive_def Let_def by (intro keeps_rules fs_for_calm)+
  show "keeps fake_calm (fake_write_archive i q t)"
  proof (rule keepsI)
    fix f r f'
    assume c: "fake_calm f" and run: "fake_write_archive i q t f = (r, f')"
    obtain x f1 where fs: "fs_for i f = (x, f1)" by fastforce
    then have c1: "fake_calm f1" using keepsD [OF fs_for_calm c] by blast
    show "fake_calm f'"
      using run fs c1 fake_calm_put [OF c1 fake_known_after]
      by (auto simp: fake_write_archive_def bindE_def Let_def split: sum.splits option.splits if_splits prod.splits)
  qed
qed

lemma file_calls:
  "rt_stat_path world_runtime i q = on_rt (fake_stat_path i q)"
  "rt_read_archive world_runtime i q = on_rt (fake_read_archive i q)"
  "rt_write_archive world_runtime i q t = on_rt (fake_write_archive i q t)"
  by (simp_all add: world_runtime_def fake_runtime_def)

lemma file_calls_calm:
  "keeps world_calm (rt_stat_path world_runtime i q)" "keeps world_calm (rt_read_archive world_runtime i q)"
  "keeps world_calm (rt_write_archive world_runtime i q t)"
  by (simp_all add: file_calls keeps_on_rt fake_files_calm)

lemma file_calls_db:
  "leaves w_db (rt_stat_path world_runtime i q)" "leaves w_db (rt_read_archive world_runtime i q)"
  "leaves w_db (rt_write_archive world_runtime i q t)" "leaves w_db (liftE world_now)"
  unfolding file_calls by (rule leaves_on_rt leaves_now; simp)+

lemma write_frame:
  assumes "write_at (file_service_of p lib) q up rid w = (r, w')"
  shows "w_db w' = w_db w" "world_calm w \<Longrightarrow> world_calm w'"
proof -
  have "keeps (\<lambda>s. w_db s = w_db w) (write_at (file_service_of p lib) q up rid)"
    by (intro write_at_keeps; unfold file_parts) (intro keeps_by_leaves file_calls_db)+
  from keepsD [OF this _ assms] show "w_db w' = w_db w" by simp
  have "keeps world_calm (write_at (file_service_of p lib) q up rid)"
    by (intro write_at_keeps; unfold file_parts) (intro file_calls_calm calm_now)+
  from keepsD [OF this _ assms] show "world_calm w \<Longrightarrow> world_calm w'" .
qed

text \<open>The sandbox a reference was locked by is what the reference finds as long as the rows are the same.\<close>

lemma locked_found:
  assumes "world_calm w" "locked_get (sandboxes_of p) ref w = (Inr sb, w1)"
    and "world_calm w2" "world_rows w2 = world_rows w" "ref \<noteq> []"
  shows "world_rows w1 = world_rows w" "world_calm w1"
    and "\<exists>w3. sandbox_get (sandboxes_of p) ref w2 = (Inr sb, w3) \<and> w_rt w3 = w_rt w2 \<and> w_rt_faults w3 = w_rt_faults w2"
proof -
  have pick: "box.idle w w1 \<and> box.picked p w ref sb" using wp_Inr [OF box.pick_law assms(2)] .
  then show "world_rows w1 = world_rows w" "world_calm w1" using assms(1) by (auto simp: box.idle_def entails_def)
  have m: "means p ref w sb" using pick box_picked [OF assms(1)] by blast
  have u: "live_names_unique (world_rows w2)" using assms(3) by (simp add: world_calm_def db_calm_def db_ok_ids)
  note ok = sound_statement [OF calm_no_faults [OF assms(3)]]
  have row: "sandbox_row (world_rows w2) (sb_id sb) = Some sb" using m assms(4) by (simp add: means_def)
  have "find (\<lambda>x. sb_name x = ref \<and> sb_state x \<noteq> St_destroyed) (world_rows w2) = Some sb" if "\<not> dp_is_uuid p ref"
  proof (cases "find (\<lambda>x. sb_name x = ref \<and> sb_state x \<noteq> St_destroyed) (world_rows w2)")
    case None
    then show ?thesis using m that row sandbox_row_id [OF row] by (auto simp: means_def find_None_iff)
  next
    case (Some y)
    then have y: "y \<in> set (world_rows w2)" "sb_name y = ref" "sb_state y \<noteq> St_destroyed" by (auto dest: find_SomeD)
    moreover have "sb_name sb = ref" "sb_state sb \<noteq> St_destroyed" "sb \<in> set (world_rows w2)"
      using m that sandbox_row_id [OF row] by (auto simp: means_def)
    ultimately have "sb_id y = sb_id sb"
      using live_names_uniqueD [OF u, of y sb] assms(5) by (simp add: sandbox_live_named_def)
    moreover have "sandbox_row (world_rows w2) (sb_id y) = Some y"
      using row_of_mem [of "world_rows w2" y] y(1) assms(3) by (simp add: world_calm_def db_calm_def db_ok_ids)
    ultimately show ?thesis using Some row by simp
  qed
  then show "\<exists>w3. sandbox_get (sandboxes_of p) ref w2 = (Inr sb, w3) \<and> w_rt w3 = w_rt w2 \<and> w_rt_faults w3 = w_rt_faults w2"
    using m row by (auto simp: sandbox_get_def on_db_def sq_sandbox_get_def sq_sandbox_get_by_name_def ok means_def)
qed

lemma regular_file_mode: "mode_is_regular 0x1a4"
  by (simp add: mode_is_regular_def mode_type_mask_def)

lemma world_call:
  assumes "True \<notin> set (w_rt_faults w)" "m (w_rt w) = (r, f)"
  shows "on_rt m w = (r, w\<lparr>w_rt_faults := tl (w_rt_faults w), w_rt := f\<rparr>)"
  using assms by (simp add: on_rt_sound)

text \<open>Reading a file that the container holds, through a reference that finds its sandbox.\<close>

lemma read_held:
  assumes "sandbox_get (sandboxes_of p) ref w = (Inr sb, w1)" "w_rt w1 = w_rt w" "w_rt_faults w1 = w_rt_faults w"
    and "file_operable sb = Inr ()" "True \<notin> set (w_rt_faults w)" "validate_path path = Inr q"
    and "holds_node (w_rt w) (sb_runtime_id sb) q (file_node body now)"
  shows "\<exists>info w'. files_read (file_service_of p lib) ref path w = (Inr (body, info), w') \<and>
    fi_size info = int (length body) \<and> \<not> fi_is_dir info"
proof -
  let ?i = "sb_runtime_id sb" and ?n = "file_node body now"
  have q: "path_clean q = q" using validate_path_elems(2) [OF assms(6)] .
  have h: "holds_node (w_rt w1) ?i q ?n" "True \<notin> set (w_rt_faults w1)" using assms(2,3,5,7) by simp_all
  obtain f1 where f1: "fake_stat_path ?i q (w_rt w1) = (Inr \<lparr>fi_name = path_base q, fi_link_target = [],
      fi_size = int (length (fn_data ?n)), fi_mode = fn_mode ?n, fi_mod_time = fn_mod_time ?n, fi_is_dir = fn_is_dir ?n\<rparr>, f1)"
    "holds_node f1 ?i q ?n" by (rule fake_stat_holds [OF h(1) q])
  obtain f2 where f2: "fake_read_archive ?i q f1 = (Inr \<lparr>ts_entries = [node_entry (path_base q) ?n], ts_error = None\<rparr>, f2)"
    by (rule fake_read_holds [OF f1(2) q]) (simp add: file_node_def)
  let ?w2 = "w1\<lparr>w_rt_faults := tl (w_rt_faults w1), w_rt := f1\<rparr>"
  note s = world_call [where m = "fake_stat_path ?i q", OF h(2) f1(1)]
  have r: "on_rt (fake_read_archive ?i q) ?w2 =
      (Inr \<lparr>ts_entries = [node_entry (path_base q) ?n], ts_error = None\<rparr>,
       ?w2\<lparr>w_rt_faults := tl (w_rt_faults ?w2), w_rt := f2\<rparr>)"
    by (rule world_call) (use tl_no_faults [OF h(2)] f2 in simp_all)
  have rid: "sandbox_runtime_id_for (sandboxes_of p) ref w = (Inr ?i, w1)"
    using assms(1,4) by (simp add: sandbox_runtime_id_for_def bindE_def)
  show ?thesis
    using assms(6) rid s r
    by (simp add: files_read_def stat_in_def archive_of_def file_calls bindE_def attempt_def file_node_def node_entry_def
        regular_file_mode)
qed

lemma written_reads:
  assumes "world_calm w" "files_write (file_service_of p lib) ref path up w = (Inr (), w')" "ref \<noteq> []"
    and "True \<notin> set (w_rt_faults w')"
  obtains buf info w'' where
    "read_limited (int64 (cf_file_max_bytes (dp_config p) + 1)) up = Inr buf"
    "int (length buf) \<le> cf_file_max_bytes (dp_config p)"
    "files_read (file_service_of p lib) ref path w' = (Inr (buf, info), w'')" "fi_size info = int (length buf)"
proof -
  obtain q sb w1 where q: "validate_path path = Inr q" "q \<noteq> ''/''"
    and sb: "locked_get (sandboxes_of p) ref w = (Inr sb, w1)" "file_operable sb = Inr ()"
    and run: "write_at (file_service_of p lib) q up (sb_runtime_id sb) w1 = (Inr (), w')"
    using assms(2)
    by (auto simp: files_write_def with_locked_runtime_id_def elim!: bindE_cases liftR_cases split: if_splits)
  have "world_rows w1 = world_rows w" "world_calm w1"
    using locked_found(1,2) [OF assms(1) sb(1) assms(1) refl assms(3)] .
  then have w': "world_calm w'" "world_rows w' = world_rows w" using write_frame [OF run] by simp_all
  obtain w2 where get: "sandbox_get (sandboxes_of p) ref w' = (Inr sb, w2)" "w_rt w2 = w_rt w'" "w_rt_faults w2 = w_rt_faults w'"
    using locked_found(3) [OF assms(1) sb(1) w' assms(3)] by blast
  obtain buf anchor ds entry now t where buf:
      "read_limited (int64 (cf_file_max_bytes (dp_config p) + 1)) up = Inr buf"
      "int (length buf) \<le> cf_file_max_bytes (dp_config p)"
    and last: "rt_write_archive world_runtime (sb_runtime_id sb) anchor (file_archive ds entry buf now) t = (Inr (), w')"
      "list_all (\<lambda>h. th_typeflag h = Type_dir) ds" "path_clean anchor = anchor" "path_join [anchor, path_clean entry] = q"
    by (rule write_at_last [OF run validate_path_elems(1,2) [OF q(1)] q(2), unfolded file_parts])
  obtain f where f: "fake_write_archive (sb_runtime_id sb) anchor (file_archive ds entry buf now) (w_rt t) = (Inr (), f)"
      "w_rt w' = f"
    using last(1) by (auto simp: file_calls on_rt_def Let_def split: if_splits prod.splits)
  have "holds_node (w_rt w') (sb_runtime_id sb) q (file_node buf now)"
    using fake_write_holds [OF f(1) last(2,3)] f(2) last(4) by simp
  from read_held [OF get sb(2) assms(4) q(1) this] buf that show ?thesis by blast
qed

section \<open>Properties\<close>

text \<open>C34 [write_then_read]: when a \<open>Write\<close> returns, its body ended without an error, and a \<open>Read\<close> of the same
  path, by the same reference, gives back exactly the bytes of the body.\<close>

theorem write_then_read:
  assumes "world_calm w" "files_write (file_service_of p lib) ref path up w = (Inr (), w')" "ref \<noteq> []"
    and "True \<notin> set (w_rt_faults w')" "0 < cf_file_max_bytes (dp_config p)" "cf_file_max_bytes (dp_config p) < 2 ^ 63 - 1"
  shows "up_error up = None \<and> (\<exists>info w''. files_read (file_service_of p lib) ref path w' = (Inr (up_bytes up, info), w'') \<and>
    fi_size info = int (length (up_bytes up)))"
proof -
  let ?max = "cf_file_max_bytes (dp_config p)"
  obtain buf info w'' where b: "read_limited (int64 (?max + 1)) up = Inr buf" "int (length buf) \<le> ?max"
    and r: "files_read (file_service_of p lib) ref path w' = (Inr (buf, info), w'')" "fi_size info = int (length buf)"
    by (rule written_reads [OF assms(1-4)])
  have "int64 (?max + 1) = ?max + 1" using assms(5,6) by (intro int64_id) simp_all
  then have "up_error up = None \<and> buf = up_bytes up"
    using b assms(5) by (auto simp: read_limited_def split: if_splits option.splits)
  then show ?thesis using r by auto
qed

text \<open>With the largest size limit the configuration accepts, the limit plus one wraps
  around: every \<open>Write\<close> that returns has stored an empty file, whatever its body.\<close>

theorem unlimited_write_empties:
  assumes "world_calm w" "files_write (file_service_of p lib) ref path up w = (Inr (), w')" "ref \<noteq> []"
    and "True \<notin> set (w_rt_faults w')" "cf_file_max_bytes (dp_config p) = 2 ^ 63 - 1"
  shows "\<exists>info w''. files_read (file_service_of p lib) ref path w' = (Inr ([], info), w'') \<and> fi_size info = 0"
proof -
  have "int64 (cf_file_max_bytes (dp_config p) + 1) = - (2 ^ 63)"
    unfolding assms(5) int64_def by code_simp
  moreover obtain buf info w'' where
      "read_limited (int64 (cf_file_max_bytes (dp_config p) + 1)) up = Inr buf"
      "files_read (file_service_of p lib) ref path w' = (Inr (buf, info), w'')" "fi_size info = int (length buf)"
    by (rule written_reads [OF assms(1-4)])
  ultimately show ?thesis by (auto simp: read_limited_def split: if_splits)
qed


text \<open>When the sizes an archive announces add up without overflow, the file contents that
  reach the runtime never exceed the cap.\<close>

theorem archive_within_cap:
  assumes "list_all honest_entry es" "total_size es < 2 ^ 63" "0 \<le> fl_archive_max_bytes (fls_limits sv)"
  shows "total_data (fst (sanitize_archive sv dest 0 0 0 es err)) \<le> fl_archive_max_bytes (fls_limits sv)"
  using sanitized_data [OF assms(1), of 0 sv dest 0 0 err] assms(2,3) by simp

section \<open>Examples\<close>

definition sample_lib :: tar_library where
  "sample_lib = \<lparr>tl_header_bytes = \<lambda>_. 512, tl_encodes = \<lambda>_. True, tl_taken = \<lambda>_ _ ts _. Suc (length (ts_entries ts))\<rparr>"

definition two_bytes :: upload where
  "two_bytes = \<lparr>up_bytes = [7, 9], up_error = None\<rparr>"

theorem write_then_read_witness:
  "\<exists>w' info w''. files_write (file_service_of sample sample_lib) ''web'' ''/srv/www/a.txt'' two_bytes sample_world = (Inr (), w') \<and>
     files_read (file_service_of sample sample_lib) ''web'' ''/srv/www/a.txt'' w' = (Inr ([7, 9], info), w'') \<and> fi_size info = 2"
proof -
  let ?m = "files_write (file_service_of sample sample_lib) ''web'' ''/srv/www/a.txt'' two_bytes"
  have "\<not> isl (fst (?m sample_world))" by code_simp
  then obtain w' where r: "?m sample_world = (Inr (), w')" using ran_ok [of ?m sample_world] by auto
  have "w_rt_faults (snd (?m sample_world)) = []" by code_simp
  then have f: "True \<notin> set (w_rt_faults w')" using r by simp
  have c: "0 < cf_file_max_bytes (dp_config sample)" "cf_file_max_bytes (dp_config sample) < 2 ^ 63 - 1"
    by (simp_all add: sample_def)
  show ?thesis
    using write_then_read [OF sample_calm r _ f c] r by (auto simp: two_bytes_def)
qed

definition unlimited :: deployment where
  "unlimited = sample\<lparr>dp_config := (dp_config sample)\<lparr>cf_file_max_bytes := 9223372036854775807\<rparr>\<rparr>"

theorem unlimited_write_empties_witness:
  "\<exists>w' info w''. files_write (file_service_of unlimited sample_lib) ''web'' ''/a.txt'' two_bytes sample_world = (Inr (), w') \<and>
     files_read (file_service_of unlimited sample_lib) ''web'' ''/a.txt'' w' = (Inr ([], info), w'')"
proof -
  let ?m = "files_write (file_service_of unlimited sample_lib) ''web'' ''/a.txt'' two_bytes"
  have "\<not> isl (fst (?m sample_world))" by code_simp
  then obtain w' where r: "?m sample_world = (Inr (), w')" using ran_ok [of ?m sample_world] by auto
  have "w_rt_faults (snd (?m sample_world)) = []" by code_simp
  then have f: "True \<notin> set (w_rt_faults w')" using r by simp
  have c: "cf_file_max_bytes (dp_config unlimited) = 2 ^ 63 - 1" by (simp add: unlimited_def sample_def)
  show ?thesis
    using unlimited_write_empties [OF sample_calm r _ f c] r by auto
qed

text \<open>A small file, a directory that announces the largest size, and a file beyond a cap of 4096.\<close>

definition tar_file :: "string \<Rightarrow> byte list \<Rightarrow> tar_entry" where
  "tar_file name body = \<lparr>te_header = file_header name (int (length body)) 0, te_body = body\<rparr>"

definition bomb :: "tar_entry list" where
  "bomb = [tar_file ''a'' [1],
     \<lparr>te_header = (dir_header ''d'' 0)\<lparr>th_size := 9223372036854775807\<rparr>, te_body = []\<rparr>,
     tar_file ''b'' (replicate 5000 0)]"

definition small_archives :: deployment where
  "small_archives = sample\<lparr>dp_config := (dp_config sample)\<lparr>cf_archive_max_bytes := 4096\<rparr>\<rparr>"

lemma bomb_names: "path_clean ''a'' = ''a''" "path_clean ''d/'' = ''d''" "path_clean ''b'' = ''b''"
  by code_simp+

lemma sanitize_plain:
  "sanitize_entry (file_header ''a'' n t) = Inr (file_header ''a'' n t)"
  "sanitize_entry (file_header ''b'' n t) = Inr (file_header ''b'' n t)"
  "sanitize_entry ((dir_header ''d'' t)\<lparr>th_size := m\<rparr>) = Inr ((dir_header ''d'' t)\<lparr>th_size := m\<rparr>)"
  by (simp_all add: sanitize_entry_def file_header_def dir_header_def supported_type_def has_prefix_def escapes_def
      tar_mode_setuid_def tar_mode_setgid_def bomb_names)

lemma int64_wraps: "int64 1 = 1" "int64 9223372036854775808 = - 9223372036854775808"
    "int64 (- 9223372036854770808) = - 9223372036854770808"
  unfolding int64_def by code_simp+

text \<open>The bound is lost when the announced sizes overflow: behind a directory that
  announces the largest size, more file content than the cap allows reaches the runtime, and only
  then is the upload refused.\<close>

theorem archive_cap_overflows:
  "case sanitize_archive (file_service_of small_archives sample_lib) ''/srv'' 0 0 0 bomb None of
     (out, err) \<Rightarrow> err = Some (wrapf Files_too_large) \<and> total_data out > cf_archive_max_bytes (dp_config small_archives) \<and>
       th_size (te_header (bomb ! 1)) = 2 ^ 63 - 1 \<and> length out = 3"
  by (simp add: bomb_def tar_file_def sanitize_archive.simps(2) sanitize_plain small_archives_def sample_def sample_lib_def
      file_service_of_def tar_end_def data_left_def padded_def total_data_def int64_wraps Let_def)
    (simp add: file_header_def dir_header_def int64_wraps)


theorem archive_within_cap_witness:
  "total_data (fst (sanitize_archive (file_service_of small_archives sample_lib) ''/srv'' 0 0 0
     [tar_file ''a'' [1], tar_file ''b'' [2, 3]] None)) \<le> 4096"
  using archive_within_cap [of "[tar_file ''a'' [1], tar_file ''b'' [2, 3]]" "file_service_of small_archives sample_lib" "''/srv''" None]
  by (simp add: small_archives_def sample_def honest_entry_def total_size_def tar_file_def file_header_def)

end
