(* ===== verification/Serving.thy ===== *)
theory Serving
  imports Api Access Transfers
begin

text \<open>
  The API over the daemon's services: which requests reach a handler, what a request that does
  not leaves alone, and what the audit log says of each request.
\<close>

definition server_of :: "deployment \<Rightarrow> tar_library \<Rightarrow> string \<Rightarrow> world server" where
  "server_of p lib version =
     \<lparr>srv_sandboxes = sandboxes_of p, srv_execs = execs_of p, srv_snapshots = snapshots_of p,
      srv_files = file_service_of p lib, srv_tokens = tokens_of p, srv_audit = events_of p,
      srv_version = version, srv_request_id = world_new_id p\<rparr>"

lemma server_parts [simp]:
  "srv_sandboxes (server_of p lib v) = sandboxes_of p" "srv_execs (server_of p lib v) = execs_of p"
  "srv_snapshots (server_of p lib v) = snapshots_of p" "srv_files (server_of p lib v) = file_service_of p lib"
  "srv_tokens (server_of p lib v) = tokens_of p" "srv_audit (server_of p lib v) = events_of p"
  "srv_request_id (server_of p lib v) = world_new_id p"
  by (simp_all add: server_of_def)

section \<open>What handlers keep\<close>

definition layered :: "('s \<Rightarrow> bool) \<Rightarrow> 's layer \<Rightarrow> bool" where
  "layered P l \<longleftrightarrow> (\<forall>a s. P s \<longrightarrow> P (snd (l a s)))"

lemma layered_handler: "keeps P h \<Longrightarrow> layered P (run_handler rid h)"
  by (auto simp: layered_def run_handler_def split: prod.splits sum.splits dest: keepsD)

lemma layered_scope: "layered P l \<Longrightarrow> layered P (require_scope rid want pr l)"
  by (simp add: layered_def require_scope_def)

lemma layered_route: "layered P l \<Longrightarrow> layered P (with_route r l)"
  by (simp add: layered_def with_route_def)

lemma layered_option: "(x = None \<Longrightarrow> layered P (\<lambda>a s. m a s)) \<Longrightarrow> (\<And>r. x = Some r \<Longrightarrow> layered P (\<lambda>a s. g r a s)) \<Longrightarrow>
    layered P (\<lambda>a s. case x of None \<Rightarrow> m a s | Some r \<Rightarrow> g r a s)"
  by (cases x) simp_all

lemma layered_if: "layered P (\<lambda>a s. l a s) \<Longrightarrow> layered P (\<lambda>a s. m a s) \<Longrightarrow> layered P (\<lambda>a s. if b then l a s else m a s)"
  by (cases b) simp_all

lemma authenticate_preserves:
  assumes "\<And>h. keeps P (on_db (sq_token_get_by_hash h))" "keeps P (liftE world_now)"
    and "\<And>i n. keeps P (on_db (sq_token_touch i n))"
    and "P s" "auth_authenticate (tokens_of p) raw s = (x, s')"
  shows "P s'"
proof -
  have c: "P t'" if "on_db (sq_token_get_by_hash i) t = (y, t')" "P t" for i t y t'
    by (rule keepsD [OF assms(1) that(2,1)])
  have n: "P t'" if "world_now t = (y, t')" "P t" for t y t'
    using keepsD [OF assms(2) that(2), of "Inr y" t'] that(1) by (simp add: liftE_def)
  have u: "P t'" if "on_db (sq_token_touch i m) t = (y, t')" "P t" for i m t y t'
    by (rule keepsD [OF assms(3) that(2,1)])
  show ?thesis
    using assms(4,5) unfolding auth_authenticate_def reject_def
    by (auto split: if_splits prod.splits sum.splits option.splits dest: c n u)
qed

text \<open>
  A predicate that every call of the store, but those on the events, and of the runtime, the
  clock and the sources of identifiers keep.
\<close>

locale steady =
  fixes P :: "world \<Rightarrow> bool" and p :: deployment
  assumes sandbox_statements: "keeps P (on_db (sq_sandbox_create x))" "keeps P (on_db (sq_sandbox_get i))"
      "keeps P (on_db (sq_sandbox_get_by_name i))" "keeps P (on_db (sq_sandbox_list f))"
      "keeps P (on_db (sq_sandbox_update x))"
    and snapshot_statements: "keeps P (on_db (sq_snapshot_create y))" "keeps P (on_db (sq_snapshot_get i))"
      "keeps P (on_db (sq_snapshot_get_by_name i))" "keeps P (on_db (sq_snapshot_list g))"
      "keeps P (on_db (sq_count_children i))" "keeps P (on_db (sq_snapshot_delete i))"
    and exec_statements: "keeps P (on_db (sq_exec_create e))" "keeps P (on_db (sq_exec_get i))"
      "keeps P (on_db (sq_exec_list_by_sandbox i h))" "keeps P (on_db (sq_exec_update e))"
    and token_statements: "keeps P (on_db (sq_token_create t))" "keeps P (on_db (sq_token_get i))"
      "keeps P (on_db (sq_token_get_by_hash i))" "keeps P (on_db sq_token_list)" "keeps P (on_db (sq_token_update t))"
      "keeps P (on_db (sq_token_touch i n))"
    and event_reads: "keeps P (on_db (sq_event_list ef))"
    and containers: "keeps P (on_rt (fake_create cs))" "keeps P (on_rt (fake_start i))" "keeps P (on_rt (fake_stop i n))"
      "keeps P (on_rt (fake_destroy i))" "keeps P (on_rt (fake_inspect i))" "keeps P (on_rt (fake_snapshot i))"
      "keeps P (on_rt (fake_delete_snapshot i))" "keeps P (on_rt (fake_exec i xs))" "keeps P (on_rt (fake_close i))"
      "keeps P (on_rt (fake_stat_path i q))" "keeps P (on_rt (fake_read_archive i q))"
      "keeps P (on_rt (fake_write_archive i q ts))"
    and clocks: "keeps P (liftE world_now)" "keeps P (liftE (world_new_id p))" "keeps P (world_generate p)"
begin

lemmas calls =
  sandbox_statements snapshot_statements exec_statements token_statements event_reads containers clocks

lemma reads: "keeps P (sandbox_get (sandboxes_of p) ref)" "keeps P (sandbox_get (sandboxes_before p) ref)"
  "keeps P (locked_get (sandboxes_of p) ref)" "keeps P (locked_get (sandboxes_before p) ref)"
  "keeps P (snapshot_get (snapshots_of p) ref)" "keeps P (snapshot_resolve (snapshots_of p) ref)"
  unfolding sandbox_get_def locked_get_def snapshot_get_def snapshot_resolve_def world_parts world_repo_ops sq_ops
  by (intro keeps_rules calls)+

lemma writes: "keeps P (write_state (sandboxes_of p) sb st)" "keeps P (mark_error (sandboxes_of p) sb cause)"
  unfolding write_state_def mark_error_def Let_def world_parts world_repo_ops sq_ops by (intro keeps_rules calls)+

lemma marked: "keeps P m \<Longrightarrow> (\<And>a. keeps P (f a)) \<Longrightarrow> keeps P (or_mark (sandboxes_of p) sb m f)"
  unfolding or_mark_def by (intro keeps_rules writes)

lemma booted: "(\<And>x. keeps P (k x)) \<Longrightarrow> keeps P (boot_container (sandboxes_of p) sb img exited k)"
  unfolding boot_container_def Let_def world_parts world_runtime_ops fake_runtime_ops
  by (intro keeps_rules marked writes calls)

lemma dropped: "keeps P k \<Longrightarrow> keeps P (drop_container (sandboxes_of p) sb k)"
  unfolding drop_container_def world_parts world_runtime_ops fake_runtime_ops by (intro keeps_rules writes calls)

lemma created: "keeps P (sandbox_create (sandboxes_of p) opts)"
  unfolding sandbox_create_def Let_def world_parts world_repo_ops sq_ops
  by (intro keeps_rules booted writes calls)

lemma sandbox_calls: "keeps P (sandbox_create (sandboxes_of p) opts)" "keeps P (sandbox_fork (sandboxes_of p) ref opts)"
  "keeps P (sandbox_restore (sandboxes_of p) ref ref')" "keeps P (sandbox_start (sandboxes_of p) ref)"
  "keeps P (sandbox_stop (sandboxes_of p) ref)" "keeps P (sandbox_destroy (sandboxes_of p) ref)"
  "keeps P (sandbox_list (sandboxes_of p) f)"
  unfolding sandbox_fork_def sandbox_restore_def sandbox_start_def sandbox_stop_def sandbox_destroy_def
    sandbox_transition_def fork_link_def sandbox_list_def Let_def world_parts world_repo_ops world_runtime_ops
    fake_runtime_ops sq_ops option.case
  by (intro keeps_rules created booted dropped marked reads writes calls)+

lemma snapshot_calls: "keeps P (snapshot_create (snapshots_of p) sopts)" "keeps P (snapshot_delete (snapshots_of p) ref)"
  "keeps P (snapshot_list (snapshots_of p) g)"
  unfolding snapshot_create_def snapshots_before with_snapshot_source_def snapshot_commit_def snapshot_delete_def
    snapshot_list_def Let_def world_parts world_repo_ops world_runtime_ops fake_runtime_ops sq_ops
  by (intro keeps_rules reads calls)+

lemma exec_calls: "keeps P (exec_create (execs_of p) xopts)" "keeps P (exec_get (execs_of p) i)"
  "keeps P (exec_list (execs_of p) i h)"
proof -
  have "keeps P (exec_mark_failed (execs_of p) e cause)" for e cause
    unfolding exec_mark_failed_def world_parts world_repo_ops sq_ops by (intro keeps_rules calls)
  then show "keeps P (exec_create (execs_of p) xopts)"
    unfolding exec_create_def sandbox_runtime_id_def Let_def world_parts world_repo_ops world_runtime_ops fake_runtime_ops sq_ops
    by (intro keeps_rules calls)
  show "keeps P (exec_get (execs_of p) i)"
    unfolding exec_get_def world_parts world_repo_ops sq_ops by (intro keeps_rules calls) (simp add: keeps_def)
  show "keeps P (exec_list (execs_of p) i h)"
    unfolding exec_list_def world_parts by (simp add: world_exec_repo_def calls)
qed

lemma token_calls: "keeps P (auth_create (tokens_of p) topts grantor)" "keeps P (auth_revoke (tokens_of p) i)"
  "keeps P (auth_list (tokens_of p))"
  unfolding auth_create_def auth_revoke_def auth_list_def Let_def world_parts world_repo_ops sq_ops
  by (intro keeps_rules calls)+

lemma file_service_calls:
  "keeps P (files_stat (file_service_of p lib) ref q)" "keeps P (files_read (file_service_of p lib) ref q)"
  "keeps P (files_list (file_service_of p lib) ref q)" "keeps P (download_archive (file_service_of p lib) ref q)"
  "keeps P (files_write (file_service_of p lib) ref q up)" "keeps P (upload_archive (file_service_of p lib) ref q body)"
proof -
  have rt: "keeps P (rt_stat_path (fls_rt (file_service_of p lib)) i q)"
    "keeps P (rt_write_archive (fls_rt (file_service_of p lib)) i q t)"
    "keeps P (rt_read_archive (fls_rt (file_service_of p lib)) i q)" "keeps P (liftE (fls_now (file_service_of p lib)))" for i q t
    by (simp_all add: world_runtime_def fake_runtime_def calls)
  have id: "keeps P (fls_runtime_id_for (file_service_of p lib) ref)" for ref
    unfolding file_parts sandbox_runtime_id_for_def by (intro keeps_rules reads)
  have locked: "(\<And>i. keeps P (f i)) \<Longrightarrow> keeps P (fls_with_locked (file_service_of p lib) ref f)" for f ref
    unfolding file_parts with_locked_runtime_id_def by (intro keeps_rules reads)
  note keep = files_keep [where P = P and sv = "file_service_of p lib", OF rt(1,2,3,4) id locked]
  show "keeps P (files_stat (file_service_of p lib) ref q)" "keeps P (files_read (file_service_of p lib) ref q)"
    "keeps P (files_list (file_service_of p lib) ref q)" "keeps P (download_archive (file_service_of p lib) ref q)"
    "keeps P (files_write (file_service_of p lib) ref q up)" "keeps P (upload_archive (file_service_of p lib) ref q body)"
    by (rule keep; assumption)+
qed

lemma audit_reads: "keeps P (audit_list (events_of p) ef)"
  unfolding audit_list_def world_parts world_repo_ops sq_ops by (rule calls)

lemmas service_calls =
  reads sandbox_calls snapshot_calls exec_calls token_calls file_service_calls audit_reads

lemma handlers_keep: "r \<in> set (routes (server_of p lib v)) \<Longrightarrow> keeps P (ro_handler r vs pr rq)"
  unfolding routes_def public_route_def plain_route_def audited_route_def
  by (auto simp: handle_health_def handle_version_def handle_create_sandbox_def handle_list_sandboxes_def
      handle_get_sandbox_def handle_start_sandbox_def handle_stop_sandbox_def handle_destroy_sandbox_def
      respond_with_sandbox_def handle_create_snapshot_def respond_snapshot_list_def handle_list_sandbox_snapshots_def
      handle_list_snapshots_def handle_get_snapshot_def handle_delete_snapshot_def handle_restore_sandbox_def
      handle_create_exec_def handle_list_execs_def handle_get_exec_def handle_exec_output_def handle_read_file_def
      handle_write_file_def handle_stat_file_def handle_list_files_def handle_download_archive_def
      handle_upload_archive_def handle_create_token_def handle_list_tokens_def handle_revoke_token_def
      handle_list_events_def Let_def intro!: keeps_rules service_calls)

lemmas authenticate_keeps = authenticate_preserves [OF token_statements(3) clocks(1) token_statements(6)]

lemma layers_keep: "layered P (root_mux (server_of p lib v) rid rq)"
proof -
  have h: "layered P (run_handler rid (ro_handler r vs pr rq))"
    if "find Q (filter R (routes (server_of p lib v))) = Some r" for Q R r vs pr
    using that by (intro layered_handler handlers_keep [of r lib v]) (auto dest: find_row)
  have m: "layered P (private_mux (server_of p lib v) rid rq pr)" for pr
    unfolding private_mux_def Let_def
    by (intro layered_option layered_route layered_scope; (erule h)?) (simp add: layered_def)
  show ?thesis
    unfolding root_mux_def Let_def
  proof (intro layered_if layered_option; (erule h)?)
    show "layered P (authenticate (server_of p lib v) rid rq (\<lambda>t. private_mux (server_of p lib v) rid rq (Some t)))"
      using m authenticate_keeps unfolding layered_def
      by (fastforce simp: authenticate_def Let_def split: prod.splits sum.splits dest: snd_eqD)
  qed (simp add: layered_def)
qed

end

section \<open>Two such predicates\<close>


text \<open>No event is added, no statement is going to fail, identifiers only move on.\<close>

definition untold :: "event list \<Rightarrow> nat \<Rightarrow> world \<Rightarrow> bool" where
  "untold E n w \<longleftrightarrow> world_events w = E \<and> True \<notin> set (db_faults (w_db w)) \<and> n \<le> w_next w"

lemma untold_on_db:
  assumes "\<And>d. db_events (snd (f d)) = db_events d \<and> db_faults (snd (f d)) = db_faults d"
  shows "keeps (untold E n) (on_db (statement f))"
proof (rule keepsI)
  fix w r w'
  assume u: "untold E n w" and r: "on_db (statement f) w = (r, w')"
  let ?d = "(w_db w)\<lparr>db_faults := tl (db_faults (w_db w))\<rparr>"
  have "w' = w\<lparr>w_db := snd (f ?d)\<rparr>"
    using r u by (auto simp: on_db_def sound_statement untold_def split: prod.splits)
  then show "untold E n w'" using u assms [of ?d] by (simp add: untold_def tl_no_faults)
qed

lemma untold_on_rt: "keeps (untold E n) (on_rt m)"
  by (auto simp: keeps_def untold_def on_rt_def Let_def split: prod.splits)

interpretation quiet_calls: steady "untold E n" p for E n p
  by unfold_locales
    (unfold sq_sandbox_create_def sq_sandbox_get_def sq_sandbox_get_by_name_def sq_sandbox_list_def sq_sandbox_update_def
      sq_snapshot_create_def sq_snapshot_get_def sq_snapshot_get_by_name_def sq_snapshot_list_def
      sq_count_children_def sq_snapshot_delete_def sq_exec_create_def sq_exec_get_def sq_exec_update_def
      sq_exec_list_by_sandbox_def sq_token_create_def sq_token_find_def
      sq_token_get_def sq_token_get_by_hash_def sq_token_list_def
      sq_token_update_def sq_token_touch_def sq_event_list_def,
     (rule untold_on_rt | (rule untold_on_db, simp split: option.splits) |
      (auto simp: keeps_def untold_def liftE_def world_now_def world_new_id_def world_generate_def Let_def split: list.splits))+)

section \<open>The audit trail\<close>

text \<open>What a handler's note may change: what the event is about, and \<open>Fork\<close> its action.\<close>

definition polite :: "world route \<Rightarrow> (annotation \<Rightarrow> annotation) \<Rightarrow> bool" where
  "polite r note \<longleftrightarrow> (\<forall>a. nt_audited (note a) = nt_audited a \<and> nt_actor_token_id (note a) = nt_actor_token_id a \<and>
     nt_actor_name (note a) = nt_actor_name a \<and>
     (nt_action (note a) = nt_action a \<or> ro_action r = ''sandbox.create'' \<and> nt_action (note a) = ''sandbox.fork''))"

lemma polite_at: "polite r note \<Longrightarrow> nt_audited (note a) = nt_audited a \<and> nt_actor_token_id (note a) = nt_actor_token_id a \<and>
     nt_actor_name (note a) = nt_actor_name a \<and>
     (nt_action (note a) = nt_action a \<or> ro_action r = ''sandbox.create'' \<and> nt_action (note a) = ''sandbox.fork'')"
  by (simp add: polite_def)

lemma polite_reply [simp]: "polite r (fst (reply st b))"
  by (simp add: polite_def reply_def)

lemma wp_any: "(\<And>a s'. wp (f a) Q (\<lambda>_ _. True) s') \<Longrightarrow> wp (bindE m f) Q (\<lambda>_ _. True) s"
  by (rule wp_bind, rule wpI) simp_all

lemma notes_polite:
  "r \<in> set (routes sv) \<Longrightarrow> wp (ro_handler r vs pr rq) (\<lambda>x _. polite r (fst x)) (\<lambda>_ _. True) w"
  unfolding routes_def public_route_def plain_route_def audited_route_def
  by (auto simp: handle_health_def handle_version_def handle_create_sandbox_def handle_list_sandboxes_def
      handle_get_sandbox_def handle_start_sandbox_def handle_stop_sandbox_def handle_destroy_sandbox_def
      respond_with_sandbox_def handle_create_snapshot_def respond_snapshot_list_def handle_list_sandbox_snapshots_def
      handle_list_snapshots_def handle_get_snapshot_def handle_delete_snapshot_def handle_restore_sandbox_def
      handle_create_exec_def handle_list_execs_def handle_get_exec_def handle_exec_output_def handle_read_file_def
      handle_write_file_def handle_stat_file_def handle_list_files_def handle_download_archive_def
      handle_upload_archive_def handle_create_token_def handle_list_tokens_def handle_revoke_token_def
      handle_list_events_def about_path_def Let_def
      intro!: wp_any wp_return wp_throw wp_if wp_case_option wp_case_sum wp_case_prod)
    (auto simp: polite_def reply_about_def about_path_def split: if_splits)

lemma credentials_checked:
  assumes "True \<notin> set (db_faults (w_db w))" "auth_authenticate (tokens_of p) raw w = (Inl (e, t), w')"
  shows "errors_is e Auth_unauthorized"
proof -
  have u: "tkr_touch world_token_repo i n w1 \<noteq> (Inl e1, w2)" if "True \<notin> set (db_faults (w_db w1))" for i n w1 e1 w2
    using that by (simp add: world_token_repo_def on_db_def sq_token_touch_def sound_statement)
  have g: "True \<notin> set (db_faults (w_db w1)) \<and> (\<forall>e1. r = Inl e1 \<longrightarrow> e1 = Sentinel Auth_not_found)"
    if "tkr_get_by_hash world_token_repo h w = (r, w1)" for h r w1
    using that assms(1)
    by (auto simp: world_token_repo_def on_db_def sq_token_get_by_hash_def sq_token_find_def sound_statement tl_no_faults
        split: option.splits)
  show ?thesis
  proof (cases "raw = []")
    case True
    then show ?thesis using assms(2) by (auto simp: auth_authenticate_def)
  next
    case False
    obtain r w1 where r: "tkr_get_by_hash world_token_repo (dp_hash p raw) w = (r, w1)" by fastforce
    obtain n w2 where n: "world_now w1 = (n, w2)" by fastforce
    have "True \<notin> set (db_faults (w_db w2))" using g [OF r] now_world [OF n] by simp
    then show ?thesis
      using assms(2) False g [OF r] u r n
      by (auto simp: auth_authenticate_def reject_def split: sum.splits prod.splits if_splits option.splits simp del: world_repo_ops)
  qed
qed

text \<open>Who is known to ask: nobody, or the owner of a token with the secret.\<close>

definition asks :: "deployment \<Rightarrow> world \<Rightarrow> request \<Rightarrow> string \<Rightarrow> string \<Rightarrow> bool" where
  "asks p w rq i n \<longleftrightarrow>
     (\<exists>t\<in>set (world_tokens w). tk_hash t = dp_hash p (bearer_token rq) \<and> i = tk_id t \<and> n = tk_name t)"

definition denied :: "response \<Rightarrow> bool" where
  "denied rsp \<longleftrightarrow> rp_status rsp = 401 \<or> rp_status rsp = 403"

definition takes_audited :: "world server \<Rightarrow> request \<Rightarrow> bool" where
  "takes_audited sv rq \<longleftrightarrow> (\<exists>r\<in>set (routes sv). route_takes rq r \<and> ro_audited r)"

definition acts :: "world server \<Rightarrow> request \<Rightarrow> action \<Rightarrow> bool" where
  "acts sv rq a \<longleftrightarrow> (\<exists>r\<in>set (routes sv). route_takes rq r \<and> ro_audited r \<and>
     (a = ro_action r \<or> ro_action r = ''sandbox.create'' \<and> a = ''sandbox.fork''))"

text \<open>The annotation and the answer the audit layer gets.\<close>

definition noted :: "deployment \<Rightarrow> world \<Rightarrow> world server \<Rightarrow> request \<Rightarrow> annotation \<Rightarrow> response \<Rightarrow> bool" where
  "noted p w sv rq a rsp \<longleftrightarrow>
     (rp_status rsp = 401 \<and> \<not> nt_audited a \<and> nt_actor_token_id a = [] \<and> nt_actor_name a = []) \<or>
     (\<not> takes_audited sv rq \<and> \<not> nt_audited a \<and> \<not> denied rsp) \<or>
     ((nt_audited a \<longleftrightarrow> takes_audited sv rq) \<and> (nt_audited a \<longrightarrow> acts sv rq (nt_action a)) \<and>
      asks p w rq (nt_actor_token_id a) (nt_actor_name a))"

lemma mux_error_open [simp]: "\<not> denied (mux_error rs rq)"
  by (simp add: denied_def mux_error_def)

lemma run_polite:
  assumes "run_handler rid (ro_handler r vs pr rq) a s = ((b, rsp), s')" "r \<in> set (routes sv)"
  shows "\<exists>note. polite r note \<and> b = note a"
proof (cases "fst (ro_handler r vs pr rq s)")
  case (Inl e)
  then have "b = id a" using assms(1) by (auto simp: run_handler_def split: prod.splits)
  then show ?thesis by (intro exI [of _ id]) (simp add: polite_def)
next
  case (Inr x)
  then have "b = fst x a" using assms(1) by (auto simp: run_handler_def split: prod.splits)
  moreover have "polite r (fst x)"
    using wp_Inr [OF notes_polite [OF assms(2)], of vs pr rq s x "snd (ro_handler r vs pr rq s)"] Inr
    by (metis prod.collapse)
  ultimately show ?thesis by blast
qed

lemma private_noted:
  assumes "private_mux sv rid rq pr a s = ((b, rsp), s')" "rq_path rq \<noteq> [''v1'', ''healthz'']" "rq_path rq \<noteq> [''v1'', ''version'']"
    and "asks p w rq (nt_actor_token_id a) (nt_actor_name a)" "\<not> nt_audited a"
  shows "noted p w sv rq b rsp"
proof (cases "find (route_takes rq) (filter (\<lambda>r. \<not> ro_public r) (routes sv))")
  case None
  then have "\<not> takes_audited sv rq" by (auto simp: find_None_iff takes_audited_def dest: route_facts(1))
  then show ?thesis using assms None by (auto simp: private_mux_def noted_def)
next
  case (Some r)
  then have r: "r \<in> set (routes sv)" "route_takes rq r" by (auto dest: find_row)
  have t: "takes_audited sv rq \<longleftrightarrow> ro_audited r" unfolding takes_audited_def using r the_route [OF _ r(1) _ r(2)] by blast
  let ?a = "a\<lparr>nt_action := ro_action r, nt_audited := ro_audited r\<rparr>"
  have "\<exists>note. polite r note \<and> nt_audited b = nt_audited (note ?a) \<and> nt_action b = nt_action (note ?a) \<and>
    nt_actor_token_id b = nt_actor_token_id (note ?a) \<and> nt_actor_name b = nt_actor_name (note ?a)"
  proof (cases "case pr of None \<Rightarrow> True | Some u \<Rightarrow> \<not> scopes_has (tk_scopes u) (ro_scope r)")
    case True
    then have "b = ?a\<lparr>nt_details := [(''required_scope'', Text (ro_scope r)), (''reason'', Text ''insufficient_scope'')]\<rparr>"
      using assms(1) Some unfolding private_mux_def with_route_def require_scope_def by (simp only: Let_def option.case if_True) simp
    then show ?thesis by (intro exI [of _ id]) (simp add: polite_def)
  next
    case False
    then have "run_handler rid (ro_handler r (path_values_of r rq) pr rq) ?a s = ((b, rsp), s')"
      using assms(1) Some unfolding private_mux_def with_route_def require_scope_def by (simp only: Let_def option.case if_False)
    from run_polite [OF this r(1)] show ?thesis by (elim exE conjE, intro exI conjI) simp_all
  qed
  then have "nt_audited b = ro_audited r \<and> nt_actor_token_id b = nt_actor_token_id a \<and> nt_actor_name b = nt_actor_name a \<and>
    (nt_action b = ro_action r \<or> ro_action r = ''sandbox.create'' \<and> nt_action b = ''sandbox.fork'')"
    by - (elim exE conjE, drule polite_at [of _ _ ?a], simp)
  then show ?thesis using assms(4) t r by (auto simp: noted_def acts_def)
qed

lemma root_noted:
  assumes "root_mux (server_of p lib v) rid rq no_annotation w = ((a, rsp), w')" "True \<notin> set (db_faults (w_db w))"
  shows "noted p w (server_of p lib v) rq a rsp"
proof (cases "rq_path rq = [''v1'', ''healthz''] \<or> rq_path rq = [''v1'', ''version'']")
  case True
  have n: "\<not> takes_audited (server_of p lib v) rq" unfolding takes_audited_def using True by (blast dest: route_facts(1,4))
  have "\<not> nt_audited a \<and> \<not> denied rsp"
  proof (cases "find (route_takes rq) (filter ro_public (routes (server_of p lib v)))")
    case (Some r)
    then have "r \<in> set (routes (server_of p lib v))" "ro_public r" by (auto dest: find_row)
    then have "ro_handler r = handle_health \<or> ro_handler r = handle_version (server_of p lib v)"
      by (auto simp: routes_def public_route_def plain_route_def audited_route_def)
    then show ?thesis
      using assms(1) True Some
      by (auto simp: root_mux_def run_handler_def handle_health_def handle_version_def reply_def no_annotation_def denied_def)
  qed (use assms(1) True in \<open>auto simp: root_mux_def no_annotation_def\<close>)
  then show ?thesis using n by (simp add: noted_def)
next
  case False
  show ?thesis
  proof (cases "fst (auth_authenticate (tokens_of p) (bearer_token rq) w)")
    case (Inl et)
    then show ?thesis
      using assms False credentials_checked [OF assms(2)]
      by (auto simp: root_mux_def authenticate_def Let_def noted_def unauthorized_def no_annotation_def split: prod.splits)
  next
    case (Inr t)
    then obtain w1 where t: "auth_authenticate (tokens_of p) (bearer_token rq) w = (Inr t, w1)"
      by (cases "auth_authenticate (tokens_of p) (bearer_token rq) w") auto
    have "asks p w rq (tk_id t) (tk_name t)"
      using keys.authenticate_law [OF t] by (auto simp: asks_def simp del: world_views)
    then show ?thesis
      using assms(1) False t
      by (intro private_noted [where a = "no_annotation\<lparr>nt_actor_token_id := tk_id t, nt_actor_name := tk_name t\<rparr>"])
        (auto simp: root_mux_def authenticate_def Let_def no_annotation_def)
  qed
qed

lemma record_works:
  assumes "untold E n w" "\<And>m. n \<le> m \<Longrightarrow> dp_uuid p m \<notin> ev_id ` set E" "valid_action (ev_action e)" "ev_id e = []"
  shows "\<exists>i t. world_events (snd (audit_record (events_of p) e w)) = E @ [e\<lparr>ev_id := i, ev_timestamp := t\<rparr>]"
proof -
  let ?i = "dp_uuid p (w_next w)" and ?w = "w\<lparr>w_next := Suc (w_next w)\<rparr>"
  have append: "world_events (snd (on_db (sq_event_create (e\<lparr>ev_id := ?i, ev_timestamp := t\<rparr>)) w2)) = E @ [e\<lparr>ev_id := ?i, ev_timestamp := t\<rparr>]"
    if "untold E n w2" for t w2
    using that assms(1,2) by (simp add: on_db_def sq_event_create_def sound_statement untold_def)
  have "untold E n ?w" using assms(1) by (simp add: untold_def)
  moreover obtain t w2 where t: "world_now ?w = (t, w2)" by fastforce
  ultimately have u: "untold E n w2" using keepsD [OF quiet_calls.clocks(1), of E n ?w "Inr t" w2] by (simp add: liftE_def)
  show ?thesis
  proof (cases "ev_timestamp e = 0")
    case True
    then have "audit_record (events_of p) e w = on_db (sq_event_create (e\<lparr>ev_id := ?i, ev_timestamp := t\<rparr>)) w2"
      using assms(3,4) t by (simp add: audit_record_def bindE_def liftE_def world_new_id_def)
    then show ?thesis using append [OF u, of t] by auto
  next
    case False
    then have "audit_record (events_of p) e w = on_db (sq_event_create (e\<lparr>ev_id := ?i, ev_timestamp := ev_timestamp e\<rparr>)) ?w"
      using assms(3,4) by (simp add: audit_record_def bindE_def liftE_def world_new_id_def)
    then show ?thesis using append [OF \<open>untold E n ?w\<close>, of "ev_timestamp e"]
      by (intro exI [of _ ?i] exI [of _ "ev_timestamp e"]) simp
  qed
qed

text \<open>An event that tells of a request and its answer.\<close>

definition tells :: "deployment \<Rightarrow> world \<Rightarrow> world server \<Rightarrow> request \<Rightarrow> response \<Rightarrow> event \<Rightarrow> bool" where
  "tells p w sv rq rsp e \<longleftrightarrow>
     ev_status e = rp_status rsp \<and> ev_remote_addr e = rq_remote_addr rq \<and>
     (rq_request_id rq = [] \<or> ev_request_id e = rq_request_id rq) \<and>
     (if denied rsp then ev_action e = ''auth.denied'' else acts sv rq (ev_action e)) \<and>
     (rp_status rsp = 401 \<and> ev_actor_token_id e = [] \<and> ev_actor_name e = [] \<or>
      asks p w rq (ev_actor_token_id e) (ev_actor_name e))"

text \<open>C4 [every_action_recorded]: On a store that does not fail, a request to an audited route, and any request answered
  401 or 403, leaves exactly one new event, whatever else happens to it: with the answer's status, the
  caller's address and request id, the action of the route (\<open>sandbox.fork\<close> for a create from a snapshot,
  \<open>auth.denied\<close> for a refusal) and, unless nobody could be told, the token that asked. No other request leaves one.\<close>

theorem every_action_recorded:
  assumes "serve (server_of p lib v) rq w = (rsp, w')" "True \<notin> set (db_faults (w_db w))"
    and "\<And>m. w_next w \<le> m \<Longrightarrow> dp_uuid p m \<notin> ev_id ` set (world_events w)"
  shows "if takes_audited (server_of p lib v) rq \<or> denied rsp
    then \<exists>e. world_events w' = world_events w @ [e] \<and> tells p w (server_of p lib v) rq rsp e
    else world_events w' = world_events w"
proof -
  let ?sv = "server_of p lib v" and ?E = "world_events w" and ?n = "w_next w"
  obtain rid w1 where i: "pick_request_id ?sv rq w = (rid, w1)" by fastforce
  then have u1: "untold ?E ?n w1" "world_tokens w1 = world_tokens w" "rq_request_id rq = [] \<or> rid = rq_request_id rq"
    using assms(2) by (auto simp: pick_request_id_def world_new_id_def untold_def split: if_splits)
  obtain a rsp1 w2 where r: "root_mux ?sv rid rq no_annotation w1 = ((a, rsp1), w2)" by (metis prod.exhaust)
  have u2: "untold ?E ?n w2"
    using quiet_calls.layers_keep [of ?E ?n p lib v rid rq] u1(1) r by (simp add: layered_def) (metis snd_conv)
  have n: "noted p w ?sv rq a rsp1"
    using root_noted [OF r] u1(1,2) by (simp add: untold_def noted_def asks_def)
  have s: "audit_layer ?sv rid rq (root_mux ?sv rid rq) w1 = (rsp, w')" using assms(1) i by (simp add: serve_def)
  then have rsp: "rsp1 = rsp" using r by (auto simp: audit_layer_def split: option.splits)
  show ?thesis
  proof (cases "build_event rq rid (rp_status rsp) a")
    case None
    then have "w' = w2" "\<not> denied rsp" "\<not> nt_audited a"
      using s r rsp by (auto simp: audit_layer_def build_event_def denied_def Let_def split: if_splits)
    then show ?thesis using n u2 rsp by (auto simp: noted_def untold_def denied_def)
  next
    case (Some e)
    have w': "w' = snd (audit_record (events_of p) e w2)" using s r rsp Some by (simp add: audit_layer_def)
    have e: "denied rsp \<or> nt_audited a" "ev_id e = []" "ev_actor_token_id e = nt_actor_token_id a" "ev_actor_name e = nt_actor_name a"
      "ev_action e = (if denied rsp then ''auth.denied'' else nt_action a)" "ev_request_id e = rid" "ev_status e = rp_status rsp"
      "ev_remote_addr e = rq_remote_addr rq"
      using Some by (auto simp: build_event_def denied_def Let_def split: if_splits)
    have "valid_action (ev_action e)"
    proof (cases "denied rsp")
      case False
      then have "acts ?sv rq (nt_action a)" using n e(1) rsp by (auto simp: noted_def denied_def)
      then show ?thesis using e(5) False route_facts(2) by (auto simp: acts_def) (auto simp: valid_action_def known_actions_def)
    qed (simp add: e(5) valid_action_def known_actions_def)
    from record_works [OF u2 assms(3) this e(2)] obtain i t where
      "world_events w' = ?E @ [e\<lparr>ev_id := i, ev_timestamp := t\<rparr>]" using w' by auto
    moreover have "tells p w ?sv rq rsp (e\<lparr>ev_id := i, ev_timestamp := t\<rparr>)"
      using n e u1(3) rsp by (auto simp: tells_def noted_def denied_def)
    moreover have "takes_audited ?sv rq \<or> denied rsp" using n e(1) rsp by (auto simp: noted_def denied_def)
    ultimately show ?thesis by auto
  qed
qed

section \<open>Who may do what\<close>

definition may_call :: "deployment \<Rightarrow> world server \<Rightarrow> request \<Rightarrow> world \<Rightarrow> bool" where
  "may_call p sv rq w \<longleftrightarrow>
     (\<exists>r\<in>set (routes sv). route_takes rq r \<and> \<not> ro_public r \<and>
       (\<exists>t\<in>set (world_tokens w). tk_hash t = dp_hash p (bearer_token rq) \<and> token_live t (w_clock w) \<and>
          scopes_has (tk_scopes t) (ro_scope r)))"

definition public_path :: "request \<Rightarrow> bool" where
  "public_path rq \<longleftrightarrow> rq_path rq = [''v1'', ''healthz''] \<or> rq_path rq = [''v1'', ''version'']"

text \<open>All there is but the events, the times tokens were last used, the clock and the fresh identifiers.\<close>

definition untouched :: "world \<Rightarrow> world \<Rightarrow> bool" where
  "untouched w w' \<longleftrightarrow> world_rows w' = world_rows w \<and> world_snaps w' = world_snaps w \<and> world_execs w' = world_execs w \<and>
     db_settings (w_db w') = db_settings (w_db w) \<and> map unused (world_tokens w') = map unused (world_tokens w) \<and>
     w_rt w' = w_rt w \<and> w_rt_faults w' = w_rt_faults w \<and> w_logs w' = w_logs w \<and> w_woken w' = w_woken w"

lemma untouched_refl [simp]: "untouched w w"
  by (simp add: untouched_def)

lemma untouched_now: "keeps (untouched w0) (liftE world_now)" "keeps (untouched w0) (liftE (world_new_id p))"
  by (auto simp: keeps_def untouched_def liftE_def world_now_def world_new_id_def Let_def split: list.splits)

lemma untouched_tokens: "keeps (untouched w0) (on_db (sq_token_get_by_hash h))" "keeps (untouched w0) (on_db (sq_token_touch i n))"
proof -
  have u: "map (unused \<circ> (\<lambda>t. if tk_id t = i then t\<lparr>tk_last_used_at := Some n\<rparr> else t)) ts = map unused ts" for ts
    by (auto simp: unused_def)
  show "keeps (untouched w0) (on_db (sq_token_touch i n))"
    by (auto simp: keeps_def untouched_def on_db_def sq_token_touch_def statement_def u split: list.splits)
  show "keeps (untouched w0) (on_db (sq_token_get_by_hash h))"
    by (auto simp: keeps_def untouched_def on_db_def sq_token_get_by_hash_def sq_token_find_def statement_def split: list.splits)
qed

lemma untouched_record: "keeps (untouched w0) (audit_record (events_of p) e)"
proof -
  have "keeps (untouched w0) (on_db (sq_event_create x))" for x
    by (auto simp: keeps_def untouched_def on_db_def sq_event_create_def statement_def split: list.splits)
  then show ?thesis
    unfolding audit_record_def world_parts world_repo_ops sq_ops by (intro keeps_rules untouched_now)
qed

lemma refusing_status: "400 \<le> rp_status (error_response rid e)"
proof -
  have "400 \<le> fst (classify e)"
    by (cases rule: classify_cases [of e]) (auto simp: classify_arms_def)
  then show ?thesis by (cases "classify e") (simp add: error_response_def write_error_def)
qed

text \<open>Without the scope, or without a route, the private part ends where it began.\<close>

lemma private_refuses:
  assumes "private_mux sv rid rq (Some t) a s = ((b, rsp), s')"
    and "\<And>r. r \<in> set (routes sv) \<Longrightarrow> route_takes rq r \<Longrightarrow> \<not> ro_public r \<Longrightarrow> \<not> scopes_has (tk_scopes t) (ro_scope r)"
  shows "s' = s \<and> 400 \<le> rp_status rsp"
proof (cases "find (route_takes rq) (filter (\<lambda>r. \<not> ro_public r) (routes sv))")
  case None
  then show ?thesis using assms(1) by (auto simp: private_mux_def mux_error_def)
next
  case (Some r)
  then have "\<not> scopes_has (tk_scopes t) (ro_scope r)" by (intro assms(2)) (auto dest: find_row)
  then show ?thesis
    using assms(1) Some refusing_status by (auto simp: private_mux_def with_route_def require_scope_def)
qed

lemma root_refuses:
  assumes "root_mux (server_of p lib v) rid rq a s = ((b, rsp), s')" "\<not> may_call p (server_of p lib v) rq s"
  shows "untouched s s' \<and> (public_path rq \<or> 400 \<le> rp_status rsp)"
proof (cases "public_path rq")
  case True
  have "s' = s"
  proof (cases "find (route_takes rq) (filter ro_public (routes (server_of p lib v)))")
    case (Some r)
    then have "r \<in> set (routes (server_of p lib v))" "ro_public r" by (auto dest: find_row)
    then have "ro_handler r = handle_health \<or> ro_handler r = handle_version (server_of p lib v)"
      by (auto simp: routes_def public_route_def plain_route_def audited_route_def)
    then show ?thesis
      using assms(1) True Some
      by (auto simp: public_path_def root_mux_def run_handler_def handle_health_def handle_version_def reply_def)
  qed (use assms(1) True in \<open>auto simp: root_mux_def public_path_def\<close>)
  then show ?thesis using True by simp
next
  case False
  obtain x s1 where auth: "auth_authenticate (tokens_of p) (bearer_token rq) s = (x, s1)" by fastforce
  have u: "untouched s s1"
    by (rule authenticate_preserves [OF untouched_tokens(1) untouched_now(1) untouched_tokens(2) untouched_refl auth])
  show ?thesis
  proof (cases x)
    case (Inl et)
    then show ?thesis
      using assms(1) False auth u refusing_status
      by (auto simp: public_path_def root_mux_def authenticate_def Let_def unauthorized_def split: prod.splits if_splits)
  next
    case (Inr t)
    obtain n where n: "w_clock s \<le> n" "t \<in> set (world_tokens s)" "tk_hash t = dp_hash p (bearer_token rq)" "token_live t n"
      using keys.authenticate_law [of p "bearer_token rq" s t s1] auth Inr by (auto simp del: world_views)
    then have "token_live t (w_clock s)" by (auto simp: token_live_def split: if_splits option.splits)
    then have "\<not> scopes_has (tk_scopes t) (ro_scope r)"
      if "r \<in> set (routes (server_of p lib v))" "route_takes rq r" "\<not> ro_public r" for r
      using that assms(2) n unfolding may_call_def by blast
    moreover have "private_mux (server_of p lib v) rid rq (Some t) (a\<lparr>nt_actor_token_id := tk_id t, nt_actor_name := tk_name t\<rparr>) s1 = ((b, rsp), s')"
      using assms(1) False auth Inr by (simp add: public_path_def root_mux_def authenticate_def Let_def)
    ultimately show ?thesis using private_refuses [of "server_of p lib v" rid rq t _ s1 b rsp s'] u by blast
  qed
qed

text \<open>C3 [no_scope_no_effect]: A request that no live token with the scope of its route stands behind changes nothing: not a
  sandbox, snapshot, exec, token, setting, container or log. What it leaves is an audit event and, if the
  token was good, when it was used; and unless it asks for one of the two public paths it is answered with an error.\<close>

theorem no_scope_no_effect:
  assumes "serve (server_of p lib v) rq w = (rsp, w')" "\<not> may_call p (server_of p lib v) rq w"
  shows "untouched w w' \<and> (public_path rq \<or> 400 \<le> rp_status rsp)"
proof -
  let ?sv = "server_of p lib v"
  obtain rid w1 where i: "pick_request_id ?sv rq w = (rid, w1)" by fastforce
  then have u1: "untouched w w1" "world_tokens w1 = world_tokens w" "w_clock w1 = w_clock w"
    by (auto simp: pick_request_id_def world_new_id_def untouched_def split: if_splits)
  obtain a rsp1 w2 where r: "root_mux ?sv rid rq no_annotation w1 = ((a, rsp1), w2)" by (metis prod.exhaust)
  have "\<not> may_call p ?sv rq w1" using assms(2) u1 by (simp add: may_call_def del: world_views)
  from root_refuses [OF r this] have u2: "untouched w w2" "public_path rq \<or> 400 \<le> rp_status rsp1"
    using u1(1) by (simp_all add: untouched_def)
  have s: "audit_layer ?sv rid rq (root_mux ?sv rid rq) w1 = (rsp, w')" using assms(1) i by (simp add: serve_def)
  then have "rsp = rsp1" "w' = w2 \<or> (\<exists>e. w' = snd (audit_record (events_of p) e w2))"
    using r by (auto simp: audit_layer_def split: option.splits)
  moreover have "untouched w (snd (audit_record (events_of p) e w2))" for e
    using untouched_record [of w p e] u2(1) by (simp add: keeps_def)
  ultimately show ?thesis using u2 by auto
qed

section \<open>The store under requests\<close>





section \<open>When a token expires\<close>

text \<open>The seconds a token is asked to live are multiplied in 64 bits. Up to 9223372036 they are
  what the token gets; of 18446744074, 585 years, a third of a second is left.\<close>

theorem token_expiry_wraps:
  assumes "handle_create_token (server_of p lib v) vs (Some caller) rq w = (Inr x, w')"
    and "decode_create_token (rq_json rq) = Inr req" "ctr_expires_in_seconds req = Some n"
    and "0 < n \<and> n \<le> 9223372036 \<and> ns = n * 1000000000 \<or> n = 18446744074 \<and> ns = 290448384"
  shows "\<exists>t. world_tokens w' = world_tokens w @ [t] \<and> tk_expires_at t = Some (tk_created_at t + ns)"
proof -
  have "int64 18446744074000000000 = 290448384" unfolding int64_def by code_simp
  then have ns: "expires_in (Some n) = ns \<and> 0 < ns"
    using assms(4) int64_id [of ns] by (auto simp: expires_in_def)
  let ?o = "\<lparr>tko_name = ctr_name req, tko_scopes = ctr_scopes req, tko_expires_in = ns\<rparr>"
  obtain t plain where "auth_create (tokens_of p) ?o (tk_scopes caller) w = (Inr (t, plain), w')"
    using assms(1-3) ns by (auto simp: handle_create_token_def bindE_def split: prod.splits sum.splits)
  from wp_Inr [OF keys.create_law this] show ?thesis using ns by (auto simp del: world_views)
qed

section \<open>Examples\<close>

definition sample_server :: "world server" where
  "sample_server = server_of sample sample_lib ''test''"

definition request_to :: "string \<Rightarrow> string list \<Rightarrow> string \<Rightarrow> goerr + json \<Rightarrow> request" where
  "request_to m path secret body =
     \<lparr>rq_method = m, rq_path = path, rq_query = [], rq_authorization = ''Bearer '' @ secret, rq_request_id = ''r1'',
      rq_remote_addr = ''10.0.0.1:5555'', rq_json = body, rq_upload = \<lparr>up_bytes = [], up_error = None\<rparr>,
      rq_tar = \<lparr>ts_entries = [], ts_error = None\<rparr>\<rparr>"

definition create_web :: request where
  "create_web = request_to ''POST'' [''v1'', ''sandboxes''] ''orcal_0''
     (Inr (J_object [(''image'', J_string ''alpine''), (''name'', J_string ''web'')]))"

text \<open>The second token of \<open>admin_world\<close> may administer, but read no sandbox.\<close>

definition peek :: request where
  "peek = request_to ''GET'' [''v1'', ''sandboxes''] ''orcal_2'' (Inl (Sentinel Io_eof))"

lemmas table_simps =
  routes_def public_route_def plain_route_def audited_route_def in_sandbox_def route_takes_def method_matches_def
  create_web_def peek_def request_to_def

theorem every_action_recorded_witness:
  "\<exists>rsp w' e. serve sample_server create_web admin_world = (rsp, w') \<and> world_events w' = [e] \<and>
     ev_status e = rp_status rsp \<and> ev_request_id e = ''r1''"
proof -
  let ?s = "server_of sample sample_lib ''test''"
  obtain rsp w' where r: "serve ?s create_web admin_world = (rsp, w')" by fastforce
  have e: "world_events admin_world = []" and f: "True \<notin> set (db_faults (w_db admin_world))"
    by code_simp+
  have a: "takes_audited ?s create_web" by (simp add: takes_audited_def table_simps)
  obtain ev where ev: "world_events w' = [ev]" "tells sample admin_world ?s create_web rsp ev"
    using every_action_recorded [OF r f] e a by auto
  have "rq_request_id create_web = ''r1''" by code_simp
  then show ?thesis using ev r by (auto simp: tells_def sample_server_def simp del: world_views)
qed

theorem no_scope_no_effect_witness:
  "\<exists>rsp w'. serve sample_server peek admin_world = (rsp, w') \<and> untouched admin_world w' \<and> 400 \<le> rp_status rsp"
proof -
  let ?s = "server_of sample sample_lib ''test''"
  obtain rsp w' where r: "serve ?s peek admin_world = (rsp, w')" by fastforce
  have "list_all (\<lambda>t. tk_hash t = dp_hash sample (bearer_token peek) \<longrightarrow> \<not> scopes_has (tk_scopes t) ''sandboxes:read'') (world_tokens admin_world)"
    by code_simp
  moreover have "list_all (\<lambda>r. route_takes peek r \<longrightarrow> ro_scope r = ''sandboxes:read'') (routes ?s)"
    by (simp add: table_simps)
  ultimately have m: "\<not> may_call sample ?s peek admin_world" by (auto simp: may_call_def list_all_iff simp del: world_views)
  have "\<not> public_path peek" by code_simp
  then show ?thesis using no_scope_no_effect [OF r m] r by (auto simp: sample_server_def)
qed


definition long_token :: request where
  "long_token = request_to ''POST'' [''v1'', ''tokens''] ''orcal_0''
     (Inr (J_object [(''name'', J_string ''ci''), (''scopes'', J_array [J_string ''exec'']),
        (''expires_in_seconds'', J_int 18446744074)]))"

theorem token_expiry_wraps_witness:
  "\<exists>x w' t. handle_create_token sample_server (\<lambda>_. []) (Some (bootstrap_token ''i'' ''h'' ''p'' 0)) long_token admin_world = (Inr x, w') \<and>
     t \<in> set (world_tokens w') \<and> tk_expires_at t = Some (tk_created_at t + 290448384)"
proof -
  let ?c = "bootstrap_token ''i'' ''h'' ''p'' 0"
  let ?m = "handle_create_token (server_of sample sample_lib ''test'') (\<lambda>_. []) (Some ?c) long_token"
  have "\<not> isl (fst (?m admin_world))" by code_simp
  then obtain x w' where r: "?m admin_world = (Inr x, w')" using ran_ok [of ?m admin_world] by auto
  have d: "decode_create_token (rq_json long_token) =
      Inr \<lparr>ctr_expires_in_seconds = Some 18446744074, ctr_name = ''ci'', ctr_scopes = [''exec'']\<rparr>" by code_simp
  show ?thesis using token_expiry_wraps [OF r d, of 18446744074 290448384] r by (auto simp: sample_server_def simp del: world_views)
qed

end
