(* ===== verification/Pages.thy ===== *)
theory Pages
  imports Serving
begin

text \<open>
  Paging through a listing: the pages of \<open>handleListSandboxes\<close>, each asked for with the
  cursor the one before it gave, are the listing.
\<close>

definition at_cursor :: "string \<Rightarrow> request \<Rightarrow> request" where
  "at_cursor c rq = rq\<lparr>rq_query := (''cursor'', c) # filter (\<lambda>(k, _). k \<noteq> ''cursor'') (rq_query rq)\<rparr>"

lemma query_at_cursor [simp]:
  "query_get (at_cursor c rq) ''cursor'' = c" "k \<noteq> ''cursor'' \<Longrightarrow> query_all (at_cursor c rq) k = query_all rq k"
  "k \<noteq> ''cursor'' \<Longrightarrow> query_get (at_cursor c rq) k = query_get rq k" "page_limit (at_cursor c rq) = page_limit rq"
proof -
  have q: "k \<noteq> ''cursor'' \<Longrightarrow> query_all (at_cursor c rq) k = query_all rq k" for k
    by (auto simp: query_all_def at_cursor_def intro!: arg_cong [where f = "map snd"] filter_cong)
  then show "k \<noteq> ''cursor'' \<Longrightarrow> query_all (at_cursor c rq) k = query_all rq k"
    "k \<noteq> ''cursor'' \<Longrightarrow> query_get (at_cursor c rq) k = query_get rq k" "page_limit (at_cursor c rq) = page_limit rq"
    by (simp_all add: query_get_def page_limit_def)
  show "query_get (at_cursor c rq) ''cursor'' = c" by (simp add: query_get_def query_all_def at_cursor_def)
qed

text \<open>A client that follows the cursors, for at most so many pages.\<close>

fun all_pages :: "nat \<Rightarrow> 's server \<Rightarrow> request \<Rightarrow> string \<Rightarrow> ('s, api_sandbox list option) op" where
  "all_pages 0 sv rq c = returnE None"
| "all_pages (Suc k) sv rq c =
     bindE (handle_list_sandboxes sv (\<lambda>_. []) None (at_cursor c rq)) (\<lambda>(_, rsp).
     case rp_body rsp of
       Sandbox_page items None \<Rightarrow> returnE (Some items)
     | Sandbox_page items (Some c') \<Rightarrow> bindE (all_pages k sv rq c') (\<lambda>r. returnE (map_option ((@) items) r))
     | _ \<Rightarrow> returnE None)"

section \<open>A page of a sorted list\<close>

definition listing_of :: "('a \<Rightarrow> string) \<Rightarrow> ('a \<Rightarrow> bool) \<Rightarrow> 'a list \<Rightarrow> 'a list" where
  "listing_of key P rs = sort_key key (filter P rs)"

text \<open>What is behind the cursor.\<close>

definition beyond :: "('a \<Rightarrow> string) \<Rightarrow> string \<Rightarrow> 'a list \<Rightarrow> 'a list" where
  "beyond key c xs = filter (\<lambda>x. c \<noteq> [] \<longrightarrow> c < key x) xs"

lemma page_beyond: "0 < n \<Longrightarrow> page key c n P rs = take (nat n) (beyond key c (listing_of key P rs))"
  by (simp add: page_def limit_to_def beyond_def listing_of_def filter_sort conj_commute)

lemma beyond_last:
  assumes "sorted_wrt (<) (map key (xs @ ys))" "xs \<noteq> []" "key (last xs) \<noteq> []"
  shows "beyond key (key (last xs)) (xs @ ys) = ys"
proof -
  have x: "\<not> key (last xs) < key x" if "x \<in> set xs" for x
  proof -
    have "sorted_wrt (<) (map key xs)" using assms(1) by (simp add: sorted_wrt_append)
    moreover have "xs = butlast xs @ [last xs]" using assms(2) by simp
    then have "x \<in> set (butlast xs) \<or> x = last xs" "sorted_wrt (<) (map key (butlast xs @ [last xs]))"
      using that calculation by (metis Un_iff empty_iff insert_iff list.set(1,2) set_append, simp)
    then have "key x \<le> key (last xs)" by (auto simp: sorted_wrt_append)
    then show ?thesis by simp
  qed
  have y: "key (last xs) < key y" if "y \<in> set ys" for y
    using that assms(1,2) by (auto simp: sorted_wrt_append)
  have "filter (\<lambda>z. key (last xs) < key z) xs = []" "filter (\<lambda>z. key (last xs) < key z) ys = ys"
    using x y by (auto simp: filter_empty_conv filter_id_conv)
  then show ?thesis using assms(3) by (simp add: beyond_def)
qed

lemma listing_strict: "distinct (map key rs) \<Longrightarrow> sorted_wrt (<) (map key (listing_of key P rs))"
  unfolding listing_of_def strict_sorted_iff
  by (simp add: distinct_map_filter distinct_map inj_on_def)

section \<open>The pages of the sandboxes\<close>

text \<open>What the query selects.\<close>

definition selects :: "request \<Rightarrow> (string \<times> string) list \<Rightarrow> sandbox \<Rightarrow> bool" where
  "selects rq labels =
     sandbox_selected \<lparr>sf_states = (if query_get rq ''state'' \<noteq> [] then [query_get rq ''state''] else []),
       sf_labels = labels, sf_limit = 0, sf_cursor = []\<rparr>"

lemma list_page:
  assumes "True \<notin> set (db_faults (w_db w))" "label_filter (query_all rq ''label'') [] = Inr labels"
  shows "\<exists>w'. handle_list_sandboxes (server_of p lib v) vs pr (at_cursor c rq) w =
      (let items = take (nat (page_limit rq)) (beyond sb_id c (listing_of sb_id (selects rq labels) (world_rows w)))
       in (Inr (reply 200 (Sandbox_page (map to_api_sandbox items) (next_cursor sb_id (page_limit rq) items))), w')) \<and>
    world_rows w' = world_rows w \<and> True \<notin> set (db_faults (w_db w'))"
proof -
  have n: "0 < page_limit rq" using page_limit_bounds [of rq] by simp
  have s: "sandbox_selected \<lparr>sf_states = q, sf_labels = labels, sf_limit = m, sf_cursor = c\<rparr> =
      sandbox_selected \<lparr>sf_states = q, sf_labels = labels, sf_limit = 0, sf_cursor = []\<rparr>" for q m
    by (simp add: fun_eq_iff sandbox_selected_def)
  show ?thesis
    using assms n page_beyond [OF n, of sb_id c "selects rq labels" "world_rows w"]
    by (auto simp: handle_list_sandboxes_def sandbox_list_def on_db_def sq_sandbox_list_def sound_statement bindE_def Let_def
        selects_def s tl_no_faults)
qed

lemma pages_from:
  assumes "label_filter (query_all rq ''label'') [] = Inr labels" "distinct (map sb_id R)" "[] \<notin> sb_id ` set R"
  shows "True \<notin> set (db_faults (w_db w)) \<Longrightarrow> world_rows w = R \<Longrightarrow> listing_of sb_id (selects rq labels) R = xs @ ys \<Longrightarrow>
    (xs = [] \<and> c = [] \<or> xs \<noteq> [] \<and> c = sb_id (last xs)) \<Longrightarrow> length ys < k \<Longrightarrow>
    \<exists>w'. all_pages k (server_of p lib v) rq c w = (Inr (Some (map to_api_sandbox ys)), w') \<and> world_rows w' = R"
proof (induction k arbitrary: w xs ys c)
  case (Suc k)
  let ?n = "nat (page_limit rq)"
  let ?items = "take ?n ys"
  have n: "0 < ?n" "int ?n = page_limit rq" using page_limit_bounds [of rq] by simp_all
  have key: "sb_id x \<noteq> []" if "x \<in> set (xs @ ys)" for x
    using that assms(3) Suc.prems(3) by (metis (no_types, lifting) filter_is_subset image_eqI listing_of_def set_sort subsetD)
  have strict: "sorted_wrt (<) (map sb_id (xs @ ys))" using listing_strict [OF assms(2)] Suc.prems(3) by metis
  have "beyond sb_id c (xs @ ys) = ys"
    using Suc.prems(4)
  proof
    assume "xs \<noteq> [] \<and> c = sb_id (last xs)"
    then show ?thesis using beyond_last [OF strict] key by simp
  qed (simp add: beyond_def)
  then obtain w1 where page: "handle_list_sandboxes (server_of p lib v) (\<lambda>_. []) None (at_cursor c rq) w =
      (Inr (reply 200 (Sandbox_page (map to_api_sandbox ?items) (next_cursor sb_id (page_limit rq) ?items))), w1)"
    and w1: "world_rows w1 = R" "True \<notin> set (db_faults (w_db w1))"
    using list_page [OF Suc.prems(1) assms(1), of p lib v "\<lambda>_. []" None c] Suc.prems(2,3) by (auto simp: Let_def simp del: world_views)
  show ?case
  proof (cases "next_cursor sb_id (page_limit rq) ?items")
    case None
    then have "length ?items \<noteq> ?n \<or> ?items = []" using n by (auto simp: next_cursor_def split: if_splits)
    then have "?items = ys" using n by auto
    then show ?thesis using page None w1 by (auto simp: bindE_def reply_def simp del: world_views)
  next
    case (Some c')
    then have c': "?items \<noteq> []" "c' = sb_id (last ?items)" by (auto simp: next_cursor_def split: if_splits)
    have l: "listing_of sb_id (selects rq labels) R = (xs @ ?items) @ drop ?n ys" using Suc.prems(3) by simp
    have "length (drop ?n ys) < k" using Suc.prems(5) n(1) c'(1) by (cases ys) auto
    from Suc.IH [OF w1(2,1) l _ this, of c'] c' obtain w' where
      "all_pages k (server_of p lib v) rq c' w1 = (Inr (Some (map to_api_sandbox (drop ?n ys))), w')" "world_rows w' = R"
      by auto
    then show ?thesis using page Some
      by (auto simp: bindE_def reply_def simp flip: map_append simp del: world_views)
  qed
qed simp

text \<open>C40 [pages_list_everything]: On a store that stays as it is and does not fail, a client that follows the
  cursors reaches the end, after at most one page more than there are sandboxes, with every sandbox its
  query selects, each once, in the order of the ids, whatever page size it asked for.\<close>

theorem pages_list_everything:
  assumes "label_filter (query_all rq ''label'') [] = Inr labels" "True \<notin> set (db_faults (w_db w))"
    and "distinct (map sb_id (world_rows w))" "[] \<notin> sb_id ` set (world_rows w)"
  shows "\<exists>w'. all_pages (Suc (length (world_rows w))) (server_of p lib v) rq [] w =
    (Inr (Some (map to_api_sandbox (sort_key sb_id (filter (selects rq labels) (world_rows w))))), w')"
proof -
  have "length (listing_of sb_id (selects rq labels) (world_rows w)) < Suc (length (world_rows w))"
    by (simp add: listing_of_def le_imp_less_Suc)
  from pages_from [OF assms(1,3,4,2) refl _ _ this, of "[]" "[]" p lib v] show ?thesis
    by (auto simp: listing_of_def simp del: world_views all_pages.simps)
qed

definition list_one_by_one :: request where
  "list_one_by_one = (request_to ''GET'' [''v1'', ''sandboxes''] ''orcal_0'' (Inl (Sentinel Io_eof)))\<lparr>rq_query := [(''limit'', ''1'')]\<rparr>"

definition two_boxes :: world where
  "two_boxes = run_calls (sandboxes_of sample) [Call_create (sample_options\<lparr>opt_name := ''db''\<rparr>)] sample_world"

theorem pages_list_everything_witness:
  "\<exists>w'. all_pages 3 sample_server list_one_by_one [] two_boxes =
    (Inr (Some (map to_api_sandbox (sort_key sb_id (filter (selects list_one_by_one []) (world_rows two_boxes))))), w')"
proof -
  have l: "label_filter (query_all list_one_by_one ''label'') [] = Inr []" by code_simp
  have f: "True \<notin> set (db_faults (w_db two_boxes))" by code_simp
  have i: "map sb_id (world_rows two_boxes) = [''id-0'', ''id-1'']" by code_simp
  then have "distinct (map sb_id (world_rows two_boxes))" "[] \<notin> sb_id ` set (world_rows two_boxes)"
    "length (world_rows two_boxes) = 2"
    by (simp_all del: world_views flip: list.set_map length_map [of sb_id])
  with pages_list_everything [OF l f, of sample sample_lib "''test''"] show ?thesis
    by (simp add: sample_server_def numeral_3_eq_3 numeral_2_eq_2 del: world_views all_pages.simps)
qed

end
