(* ===== verification/Locking.thy ===== *)
theory Locking
  imports Prelude
begin

text \<open>
  \<open>internal/sandbox/lock.go\<close>: the keyed mutex every operation on a sandbox takes with the
  sandbox's id. Goroutines interleave at each lock and unlock of a \<open>sync.Mutex\<close>; what runs
  between two of them under the registry's own mutex is one step.
\<close>

section \<open>The keyed mutex\<close>

type_synonym goroutine = nat

text \<open>A \<open>sync.Mutex\<close> is a number; a new one is the next. Who holds one is known.\<close>

record keyed_mutex =
  km_mu :: "goroutine option"
  km_locks :: "string \<rightharpoonup> nat"
  km_owner :: "nat \<rightharpoonup> goroutine"
  km_next :: nat

definition new_keyed_mutex :: keyed_mutex where
  "new_keyed_mutex = \<lparr>km_mu = None, km_locks = Map.empty, km_owner = Map.empty, km_next = 0\<rparr>"

text \<open>Where a goroutine stands in \<open>lock\<close>, or between it and the function it returned.\<close>

datatype stand = Away | Entering string | In_registry string | Waiting string nat | Holding string nat

text \<open>The lookup that registers a new mutex under a new key.\<close>

definition lookup_lock :: "string \<Rightarrow> keyed_mutex \<Rightarrow> nat \<times> keyed_mutex" where
  "lookup_lock key k =
     (case km_locks k key of
        Some m \<Rightarrow> (m, k)
      | None \<Rightarrow> (km_next k, k\<lparr>km_locks := (km_locks k)(key \<mapsto> km_next k), km_next := Suc (km_next k)\<rparr>))"

text \<open>One step of a goroutine inside \<open>lock\<close>; none while the mutex it wants is held.\<close>

definition lock_step :: "goroutine \<Rightarrow> stand \<Rightarrow> keyed_mutex \<Rightarrow> (stand \<times> keyed_mutex) option" where
  "lock_step t p k =
     (case p of
        Entering key \<Rightarrow> if km_mu k = None then Some (In_registry key, k\<lparr>km_mu := Some t\<rparr>) else None
      | In_registry key \<Rightarrow>
          (case lookup_lock key k of (m, k') \<Rightarrow> Some (Waiting key m, k'\<lparr>km_mu := None\<rparr>))
      | Waiting key m \<Rightarrow>
          if km_owner k m = None then Some (Holding key m, k\<lparr>km_owner := (km_owner k)(m \<mapsto> t)\<rparr>) else None
      | _ \<Rightarrow> None)"

text \<open>The returned function.\<close>

definition unlock_step :: "stand \<Rightarrow> keyed_mutex \<Rightarrow> (stand \<times> keyed_mutex) option" where
  "unlock_step p k =
     (case p of Holding key m \<Rightarrow> Some (Away, k\<lparr>km_owner := (km_owner k)(m := None)\<rparr>) | _ \<Rightarrow> None)"

type_synonym lock_state = "(goroutine \<Rightarrow> stand) \<times> keyed_mutex"

inductive lock_moves :: "lock_state \<Rightarrow> lock_state \<Rightarrow> bool" where
  call: "ps t = Away \<Longrightarrow> lock_moves (ps, k) (ps(t := Entering key), k)"
| inside: "lock_step t (ps t) k = Some (p, k') \<Longrightarrow> lock_moves (ps, k) (ps(t := p), k')"
| leave: "unlock_step (ps t) k = Some (p, k') \<Longrightarrow> lock_moves (ps, k) (ps(t := p), k')"

inductive lock_reachable :: "lock_state \<Rightarrow> bool" where
  start: "lock_reachable (\<lambda>_. Away, new_keyed_mutex)"
| step: "lock_reachable s \<Longrightarrow> lock_moves s s' \<Longrightarrow> lock_reachable s'"

inductive_cases lock_moves_from: "lock_moves (ps, k) s'"

section \<open>The invariant\<close>

text \<open>
  Keys have their own mutexes, a goroutine waits for or holds the one of its key, and the
  owners are those who hold.
\<close>

definition lock_inv :: "lock_state \<Rightarrow> bool" where
  "lock_inv s \<longleftrightarrow>
     (case s of (ps, k) \<Rightarrow>
        inj_on (km_locks k) (dom (km_locks k)) \<and>
        (\<forall>m \<in> ran (km_locks k). m < km_next k) \<and>
        (\<forall>t key m. ps t = Waiting key m \<or> ps t = Holding key m \<longrightarrow> km_locks k key = Some m) \<and>
        (\<forall>t m. km_owner k m = Some t \<longleftrightarrow> (\<exists>key. ps t = Holding key m)) \<and>
        (\<forall>t. km_mu k = Some t \<longleftrightarrow> (\<exists>key. ps t = In_registry key)))"

lemma lookup_lock_inv:
  assumes "lookup_lock key k = (m, k')" "inj_on (km_locks k) (dom (km_locks k))"
    "\<forall>m \<in> ran (km_locks k). m < km_next k"
  shows "inj_on (km_locks k') (dom (km_locks k'))" "\<forall>m \<in> ran (km_locks k'). m < km_next k'"
    "km_locks k' key = Some m" "km_locks k key' = Some n \<Longrightarrow> km_locks k' key' = Some n"
    "km_owner k' = km_owner k" "km_mu k' = km_mu k"
proof -
  have new: "km_locks k x \<noteq> Some (km_next k)" for x
    using assms(3) by (force simp: ran_def)
  show "inj_on (km_locks k') (dom (km_locks k'))"
    using assms(1,2) new by (auto simp: lookup_lock_def inj_on_def domI split: option.splits if_splits)
  show "\<forall>m \<in> ran (km_locks k'). m < km_next k'"
    using assms(1,3) by (auto simp: lookup_lock_def ran_def split: option.splits if_splits) (metis less_SucI)
qed (use assms(1) in \<open>auto simp: lookup_lock_def split: option.splits\<close>)

lemma lock_step_inv:
  assumes "lock_inv (ps, k)" "lock_step t (ps t) k = Some (p, k')"
  shows "lock_inv (ps(t := p), k')"
proof (cases "ps t")
  case (In_registry key)
  then obtain m k1 where look: "lookup_lock key k = (m, k1)" and p: "p = Waiting key m" "k' = k1\<lparr>km_mu := None\<rparr>"
    using assms(2) by (auto simp: lock_step_def split: prod.splits)
  have inv: "inj_on (km_locks k) (dom (km_locks k))" "\<forall>m \<in> ran (km_locks k). m < km_next k"
    using assms(1) by (simp_all add: lock_inv_def)
  note facts = lookup_lock_inv [OF look inv]
  have mu: "ps t' \<noteq> In_registry key'" if "t' \<noteq> t" for t' key'
    using assms(1) that In_registry unfolding lock_inv_def prod.case by (metis option.inject)
  have known: "ps t' = Waiting key' n \<Longrightarrow> km_locks k1 key' = Some n"
    "ps t' = Holding key' n \<Longrightarrow> km_locks k1 key' = Some n" for t' key' n
    using assms(1) facts(4) unfolding lock_inv_def prod.case by blast+
  have owner: "km_owner k n = Some t' \<longleftrightarrow> (\<exists>key. ps t' = Holding key n)" for t' n
    using assms(1) unfolding lock_inv_def prod.case by blast
  show ?thesis
    using facts(1,2,3,5) mu known owner In_registry by (auto simp: lock_inv_def p)
next
  case (Waiting key m)
  then have p: "p = Holding key m" "k' = k\<lparr>km_owner := (km_owner k)(m \<mapsto> t)\<rparr>" "km_owner k m = None"
    using assms(2) by (auto simp: lock_step_def split: if_splits)
  have "ps t' \<noteq> Holding key' m" for t' key'
  proof
    assume "ps t' = Holding key' m"
    then have "km_owner k m = Some t'"
      using assms(1) unfolding lock_inv_def prod.case by blast
    then show False using p(3) by simp
  qed
  then show ?thesis
    using assms(1) Waiting by (auto simp: lock_inv_def p)
qed (use assms in \<open>auto simp: lock_step_def lock_inv_def split: if_splits\<close>)

lemma lock_reachable_inv: "lock_reachable s \<Longrightarrow> lock_inv s"
proof (induction rule: lock_reachable.induct)
  case start
  show ?case by (simp add: lock_inv_def new_keyed_mutex_def)
next
  case (step s s')
  obtain ps k where s: "s = (ps, k)" by (cases s)
  show ?case
    using step(2) unfolding s
  proof (rule lock_moves_from)
    fix t key
    assume "s' = (ps(t := Entering key), k)" "ps t = Away"
    then show ?thesis using step(3) unfolding s lock_inv_def by auto
  next
    fix t p k'
    assume "s' = (ps(t := p), k')" "lock_step t (ps t) k = Some (p, k')"
    then show ?thesis using lock_step_inv step(3) s by simp
  next
    fix t p k'
    assume s': "s' = (ps(t := p), k')" and leave: "unlock_step (ps t) k = Some (p, k')"
    then obtain key m where "ps t = Holding key m" "p = Away" "k' = k\<lparr>km_owner := (km_owner k)(m := None)\<rparr>"
      by (auto simp: unlock_step_def split: stand.splits)
    moreover have "ps t' \<noteq> Holding key' m" if "t' \<noteq> t" for t' key'
      using step(3) that \<open>ps t = Holding key m\<close> unfolding s lock_inv_def prod.case by (metis option.inject)
    ultimately show ?thesis using step(3) unfolding s s' lock_inv_def by auto
  qed
qed

section \<open>What the lock gives\<close>

definition holds_key :: "goroutine \<Rightarrow> string \<Rightarrow> lock_state \<Rightarrow> bool" where
  "holds_key t key s \<longleftrightarrow> (\<exists>m. fst s t = Holding key m)"

text \<open>C10 [lock_per_key]: however the goroutines interleave, a key is never held by two of them; and a
  goroutine that waits for a key is held up by nobody but a holder of that key, and one that
  enters by nobody but the one in the registry, which leaves it with its next step.\<close>

theorem lock_per_key:
  assumes "lock_reachable s"
  shows "(holds_key t key s \<longrightarrow> holds_key t' key s \<longrightarrow> t = t') \<and>
    (\<forall>m. fst s t = Waiting key m \<longrightarrow> (lock_step t (fst s t) (snd s) = None \<longleftrightarrow> (\<exists>t'. holds_key t' key s))) \<and>
    (fst s t = Entering key \<longrightarrow>
      (lock_step t (fst s t) (snd s) = None \<longleftrightarrow> (\<exists>t' key'. fst s t' = In_registry key'))) \<and>
    (fst s t = In_registry key \<longrightarrow> lock_step t (fst s t) (snd s) \<noteq> None)"
proof -
  obtain ps k where s: "s = (ps, k)" by (cases s)
  have reg: "\<And>t key m. ps t = Waiting key m \<or> ps t = Holding key m \<Longrightarrow> km_locks k key = Some m"
    and own: "\<And>t m. km_owner k m = Some t \<longleftrightarrow> (\<exists>key. ps t = Holding key m)"
    and mu: "\<And>t. km_mu k = Some t \<longleftrightarrow> (\<exists>key. ps t = In_registry key)"
    and inj: "inj_on (km_locks k) (dom (km_locks k))"
    using lock_reachable_inv [OF assms] unfolding s lock_inv_def by auto
  have one: "t = t'" if "ps t = Holding key m" "ps t' = Holding key m'" for t t' m m'
  proof -
    have "m = m'"
      using that reg by (metis option.inject)
    then show ?thesis
      using that own by (metis option.inject)
  qed
  have wait: "km_owner k m = None \<longleftrightarrow> (\<nexists>t' m'. ps t' = Holding key m')" if "ps t = Waiting key m" for m
  proof -
    have "m' = m" if "ps t' = Holding key m'" for t' m'
      using that \<open>ps t = Waiting key m\<close> reg by (metis option.inject)
    moreover have "key' = key" if "ps t' = Holding key' m" for t' key'
      using that \<open>ps t = Waiting key m\<close> reg inj by (metis domI inj_onD)
    ultimately show ?thesis
      using own by (metis not_Some_eq)
  qed
  have enter: "km_mu k = None \<longleftrightarrow> (\<nexists>t' key'. ps t' = In_registry key')"
    using mu by (metis not_Some_eq)
  show ?thesis
    using one wait enter by (auto simp: s holds_key_def lock_step_def split: prod.split)
qed

text \<open>Two goroutines after the same key: the second waits.\<close>

definition contended :: lock_state where
  "contended =
     ((\<lambda>_. Away)(1 := Holding ''a'' 0, 2 := Waiting ''a'' 0),
      \<lparr>km_mu = None, km_locks = [''a'' \<mapsto> 0], km_owner = [0 \<mapsto> 1], km_next = 1\<rparr>)"

definition entered :: "goroutine \<Rightarrow> lock_state \<Rightarrow> lock_state" where
  "entered t s = ((fst s)(t := Entering ''a''), snd s)"

definition advanced :: "goroutine \<Rightarrow> lock_state \<Rightarrow> lock_state" where
  "advanced t s =
     (case lock_step t (fst s t) (snd s) of None \<Rightarrow> s | Some (p, k) \<Rightarrow> ((fst s)(t := p), k))"

lemma lock_reachable_entered: "lock_reachable s \<Longrightarrow> fst s t = Away \<Longrightarrow> lock_reachable (entered t s)"
  using lock_moves.call [of "fst s" t "snd s" "''a''"] lock_reachable.step by (auto simp: entered_def)

lemma lock_reachable_advanced: "lock_reachable s \<Longrightarrow> lock_reachable (advanced t s)"
  using lock_moves.inside [of t "fst s" "snd s"] lock_reachable.step
  by (auto simp: advanced_def split: option.splits)

lemma contended_reachable: "lock_reachable contended"
proof -
  let ?s = "advanced 2 (advanced 2 (entered 2 (advanced 1 (advanced 1 (advanced 1 (entered 1 (\<lambda>_. Away, new_keyed_mutex)))))))"
  have "?s = contended"
    by (simp add: advanced_def entered_def lock_step_def lookup_lock_def new_keyed_mutex_def contended_def fun_upd_twist)
  moreover have "lock_reachable ?s"
    by (intro lock_reachable_advanced lock_reachable_entered lock_reachable.start)
      (simp_all add: advanced_def entered_def lock_step_def lookup_lock_def new_keyed_mutex_def)
  ultimately show ?thesis by simp
qed

theorem lock_per_key_witness:
  "lock_reachable contended \<and> lock_step 2 (fst contended 2) (snd contended) = None \<and> holds_key 1 ''a'' contended"
proof -
  have "fst contended 2 = Waiting ''a'' 0" "holds_key 1 ''a'' contended"
    by (simp_all add: contended_def holds_key_def)
  then show ?thesis
    using lock_per_key [OF contended_reachable, of 2 "''a''" 1] contended_reachable by blast
qed

end
