(* ===== verification/Docker.thy ===== *)
theory Docker
  imports Files Exec_Log
begin

text \<open>
  \<open>internal/runtime/docker\<close>: the adapter that makes a Docker daemon a \<open>runtime\<close>. The daemon's
  client is third-party: a record of operations on whatever state it has. An error of the
  client is what the adapter can find out about it. Contexts are not modelled: a call whose
  context ends fails.
\<close>

section \<open>The client\<close>

text \<open>
  The classes of \<open>errdefs\<close>, whether the connection failed, whether a deadline passed, the text.
\<close>

record docker_err =
  de_not_found :: bool
  de_conflict :: bool
  de_invalid_argument :: bool
  de_connection_failed :: bool
  de_unavailable :: bool
  de_deadline_exceeded :: bool
  de_text :: string

type_synonym ('s, 'a) docker_op = "'s \<Rightarrow> (docker_err + 'a) \<times> 's"

record host_config =
  hc_runtime :: string
  hc_cap_drop :: "string list"
  hc_security_opt :: "string list"
  hc_network_mode :: string
  hc_privileged :: bool
  hc_nano_cpus :: int
  hc_memory :: int
  hc_memory_swap :: int
  hc_pids_limit :: int

text \<open>The environment is listed in no particular order.\<close>

record container_config =
  cc_image :: string
  cc_env :: "string set"
  cc_labels :: dict
  cc_tty :: bool
  cc_open_stdin :: bool
  cc_cmd :: "string list"

record docker_exec_options =
  eo_cmd :: "string list"
  eo_env :: "string set"
  eo_working_dir :: string
  eo_user :: string
  eo_attach_stdout :: bool
  eo_attach_stderr :: bool
  eo_attach_stdin :: bool
  eo_tty :: bool

record network_options =
  no_driver :: string
  no_internal :: bool
  no_options :: "(string \<times> string) list"

record container_info =
  ci_running :: bool
  ci_paused :: bool
  ci_exit_code :: int

record exec_info =
  xi_running :: bool
  xi_exit_code :: int

record path_stat =
  ps_name :: string
  ps_size :: int
  ps_mode :: file_mode
  ps_mtime :: time
  ps_link_target :: string

record system_info =
  sy_default_runtime :: string
  sy_runtimes :: "(string \<times> string list) list"
  sy_driver :: string
  sy_driver_status :: "string list list"

text \<open>A byte stream of the daemon: the bytes still to come and the error it ends with.\<close>

record byte_source =
  bs_bytes :: "byte list"
  bs_end :: goerr

record 's docker_client =
  dc_network_inspect :: "string \<Rightarrow> ('s, bool) docker_op"
  dc_network_create :: "string \<Rightarrow> network_options \<Rightarrow> ('s, unit) docker_op"
  dc_container_create :: "container_config \<Rightarrow> host_config \<Rightarrow> ('s, string) docker_op"
  dc_image_inspect :: "string \<Rightarrow> ('s, int) docker_op"
  dc_image_pull :: "string \<Rightarrow> ('s, docker_err option) docker_op"
  dc_container_start :: "string \<Rightarrow> ('s, unit) docker_op"
  dc_container_stop :: "string \<Rightarrow> int \<Rightarrow> ('s, unit) docker_op"
  dc_container_remove :: "string \<Rightarrow> bool \<Rightarrow> bool \<Rightarrow> ('s, unit) docker_op"
  dc_container_inspect :: "string \<Rightarrow> ('s, container_info option) docker_op"
  dc_exec_create :: "string \<Rightarrow> docker_exec_options \<Rightarrow> ('s, string) docker_op"
  dc_exec_attach :: "string \<Rightarrow> ('s, unit) docker_op"
  dc_exec_inspect :: "string \<Rightarrow> ('s, exec_info) docker_op"
  dc_container_pause :: "string \<Rightarrow> ('s, unit) docker_op"
  dc_container_unpause :: "string \<Rightarrow> ('s, unit) docker_op"
  dc_container_commit :: "string \<Rightarrow> ('s, string) docker_op"
  dc_image_remove :: "string \<Rightarrow> ('s, unit) docker_op"
  dc_stat_path :: "string \<Rightarrow> string \<Rightarrow> ('s, path_stat) docker_op"
  dc_copy_from :: "string \<Rightarrow> string \<Rightarrow> ('s, tar_stream) docker_op"
  dc_copy_to :: "string \<Rightarrow> string \<Rightarrow> tar_stream \<Rightarrow> ('s, unit) docker_op"
  dc_info :: "('s, system_info) docker_op"
  dc_attached :: "string \<Rightarrow> 's \<Rightarrow> byte_source"
  dc_consume :: "string \<Rightarrow> byte_source \<Rightarrow> 's \<Rightarrow> 's"
  dc_detach :: "string \<Rightarrow> 's \<Rightarrow> 's"

section \<open>Errors\<close>

text \<open>The text of the cause stays, its type does not.\<close>

definition translate :: "docker_err \<Rightarrow> goerr" where
  "translate e =
     (if de_not_found e then wrapf Rt_not_found
      else if de_conflict e then wrapf Rt_conflict
      else if de_invalid_argument e then wrapf Rt_invalid_spec
      else if de_connection_failed e \<or> de_unavailable e \<or> de_deadline_exceeded e then wrapf Rt_unavailable
      else Opaque)"

definition translate_path :: "docker_err \<Rightarrow> goerr" where
  "translate_path e = (if de_not_found e then wrapf Rt_path_not_found else translate e)"

text \<open>\<open>strings.Contains\<close>.\<close>

definition contains_string :: "string \<Rightarrow> string \<Rightarrow> bool" where
  "contains_string s sub \<longleftrightarrow> list_ex (\<lambda>n. has_prefix (drop n s) sub) [0..<Suc (length s)]"

definition is_overwrite_type_mismatch :: "docker_err \<Rightarrow> bool" where
  "is_overwrite_type_mismatch e \<longleftrightarrow> contains_string (de_text e) ''cannot overwrite''"

text \<open>A call of the client that becomes a step of the adapter.\<close>

definition call_docker :: "('s, 'a) docker_op \<Rightarrow> ('s, 'a) op" where
  "call_docker m s = (case m s of (Inl e, s') \<Rightarrow> (Inl (translate e), s') | (Inr a, s') \<Rightarrow> (Inr a, s'))"

text \<open>\<open>x, err := m()\<close> where the caller looks at the error.\<close>

definition on_docker ::
    "('s, 'a) docker_op \<Rightarrow> (docker_err \<Rightarrow> ('s, 'b) op) \<Rightarrow> ('a \<Rightarrow> ('s, 'b) op) \<Rightarrow> ('s, 'b) op" where
  "on_docker m bad good s = (case m s of (Inl e, s') \<Rightarrow> bad e s' | (Inr a, s') \<Rightarrow> good a s')"

section \<open>The runtime and the networks\<close>

definition runsc_runtime_name :: string where "runsc_runtime_name = ''runsc''"

definition check_runsc_runtime_args :: "string list \<Rightarrow> goerr + unit" where
  "check_runsc_runtime_args args =
     (if ''--overlay2=none'' \<in> set args \<and> ''--network=host'' \<in> set args then Inr ()
      else Inl (wrapf Rt_invalid_spec))"

text \<open>A name that is not in the map of runtimes has no arguments.\<close>

definition resolve_runtime :: "'s docker_client \<Rightarrow> string \<Rightarrow> ('s, string) op" where
  "resolve_runtime c configured =
     bindE (call_docker (dc_info c)) (\<lambda>info.
     if configured \<noteq> [] \<and> map_of (sy_runtimes info) configured = None then throwE (wrapf Rt_invalid_spec)
     else
       let name = (if configured = [] then sy_default_runtime info else configured) in
       if name = runsc_runtime_name
       then bindE (liftR (check_runsc_runtime_args
                    (case map_of (sy_runtimes info) name of None \<Rightarrow> [] | Some args \<Rightarrow> args)))
              (\<lambda>_. returnE name)
       else returnE name)"

definition ensure_network :: "'s docker_client \<Rightarrow> string \<Rightarrow> bool \<Rightarrow> ('s, unit) op" where
  "ensure_network c name internal =
     on_docker (dc_network_inspect c name)
       (\<lambda>e. if \<not> de_not_found e then throwE (translate e)
            else on_docker (dc_network_create c name
                     \<lparr>no_driver = ''bridge'', no_internal = internal,
                      no_options = [(''com.docker.network.bridge.enable_icc'', ''false'')]\<rparr>)
                   (\<lambda>e. if de_conflict e then returnE () else throwE (translate e))
                   returnE)
       (\<lambda>existing. if existing \<noteq> internal then throwE (wrapf Rt_invalid_spec) else returnE ())"

definition disk_quota_supported :: "string \<Rightarrow> (string \<times> string) list \<Rightarrow> bool" where
  "disk_quota_supported driver status \<longleftrightarrow>
     driver = ''overlay2'' \<and> list_ex (\<lambda>(k, v). k = ''Backing Filesystem'' \<and> v = ''xfs'') status"

fun status_pairs :: "string list list \<Rightarrow> (string \<times> string) list" where
  "status_pairs [] = []"
| "status_pairs ([k, v] # xs) = (k, v) # status_pairs xs"
| "status_pairs (_ # xs) = status_pairs xs"

definition docker_disk_quota :: "'s docker_client \<Rightarrow> ('s, bool) op" where
  "docker_disk_quota c =
     bindE (call_docker (dc_info c)) (\<lambda>info.
     returnE (disk_quota_supported (sy_driver info) (status_pairs (sy_driver_status info))))"

section \<open>Containers\<close>

definition host_config_of :: "create_spec \<Rightarrow> host_config" where
  "host_config_of spec =
     \<lparr>hc_runtime = cs_oci_runtime spec, hc_cap_drop = [''ALL''], hc_security_opt = [''no-new-privileges:true''],
      hc_network_mode = cs_network_name spec, hc_privileged = False,
      hc_nano_cpus = int64 (cs_cpu_millis spec * 1000000), hc_memory = cs_memory_bytes spec,
      hc_memory_swap = cs_memory_bytes spec, hc_pids_limit = cs_pids_limit spec\<rparr>"

definition env_lines :: "dict \<Rightarrow> string set" where
  "env_lines env = {k @ ''='' @ v | k v. env k = Some v}"

definition label_prefix :: string where "label_prefix = ''orcal.label.''"

definition container_labels :: "create_spec \<Rightarrow> dict" where
  "container_labels spec key =
     (if has_prefix key label_prefix \<and> cs_labels spec (drop (length label_prefix) key) \<noteq> None
      then cs_labels spec (drop (length label_prefix) key)
      else [''orcal.managed'' \<mapsto> ''true'', ''orcal.sandbox'' \<mapsto> cs_sandbox_id spec] key)"

definition container_config_of :: "create_spec \<Rightarrow> container_config" where
  "container_config_of spec =
     \<lparr>cc_image = cs_image spec, cc_env = env_lines (cs_env spec), cc_labels = container_labels spec,
      cc_tty = False, cc_open_stdin = False, cc_cmd = [''sleep'', ''infinity'']\<rparr>"

definition ensure_image :: "'s docker_client \<Rightarrow> string \<Rightarrow> ('s, unit) op" where
  "ensure_image c ref =
     on_docker (dc_image_inspect c ref)
       (\<lambda>e. if \<not> de_not_found e then throwE (translate e)
            else bindE (call_docker (dc_image_pull c ref)) (\<lambda>read_err.
                 case read_err of None \<Rightarrow> returnE () | Some e \<Rightarrow> throwE (translate e)))
       (\<lambda>_. returnE ())"

definition docker_create :: "'s docker_client \<Rightarrow> create_spec \<Rightarrow> ('s, string) op" where
  "docker_create c spec =
     bindE (ensure_image c (cs_image spec)) (\<lambda>_.
     call_docker (dc_container_create c (container_config_of spec) (host_config_of spec)))"

definition docker_start :: "'s docker_client \<Rightarrow> string \<Rightarrow> ('s, unit) op" where
  "docker_start c i = call_docker (dc_container_start c i)"

text \<open>Whole seconds; a duration is in nanoseconds.\<close>

definition docker_stop :: "'s docker_client \<Rightarrow> string \<Rightarrow> time \<Rightarrow> ('s, unit) op" where
  "docker_stop c i timeout = call_docker (dc_container_stop c i (sgn timeout * (\<bar>timeout\<bar> div 1000000000)))"

definition docker_destroy :: "'s docker_client \<Rightarrow> string \<Rightarrow> ('s, unit) op" where
  "docker_destroy c i =
     on_docker (dc_container_remove c i True True)
       (\<lambda>e. if de_not_found e then returnE () else throwE (translate e)) returnE"

definition container_state_from :: "bool \<Rightarrow> bool \<Rightarrow> container_state" where
  "container_state_from running paused =
     (if running \<and> paused then C_paused else if running then C_running else C_stopped)"

definition docker_inspect :: "'s docker_client \<Rightarrow> string \<Rightarrow> ('s, container_status) op" where
  "docker_inspect c i =
     on_docker (dc_container_inspect c i)
       (\<lambda>e. if de_not_found e then returnE \<lparr>cst_state = C_gone, cst_exit_code = None\<rparr> else throwE (translate e))
       (\<lambda>info. returnE
          (case info of
             None \<Rightarrow> \<lparr>cst_state = C_stopped, cst_exit_code = None\<rparr>
           | Some st \<Rightarrow>
               \<lparr>cst_state = container_state_from (ci_running st) (ci_paused st),
                cst_exit_code = (if \<not> ci_running st then Some (ci_exit_code st) else None)\<rparr>))"

text \<open>The deferred \<open>ContainerUnpause\<close> runs after the rest, whatever came of it; its error is dropped.\<close>

definition then_always :: "('s, 'a) op \<Rightarrow> ('s, 'b) docker_op \<Rightarrow> ('s, 'a) op" where
  "then_always m final s = (case m s of (r, s') \<Rightarrow> (r, snd (final s')))"

definition commit_image :: "'s docker_client \<Rightarrow> string \<Rightarrow> ('s, snapshot_info) op" where
  "commit_image c i =
     bindE (call_docker (dc_container_commit c i)) (\<lambda>ref.
     on_docker (dc_image_inspect c ref)
       (\<lambda>_. returnE \<lparr>si_ref = ref, si_size_bytes = 0\<rparr>)
       (\<lambda>size. returnE \<lparr>si_ref = ref, si_size_bytes = size\<rparr>))"

definition docker_snapshot :: "'s docker_client \<Rightarrow> string \<Rightarrow> ('s, snapshot_info) op" where
  "docker_snapshot c i =
     on_docker (dc_container_inspect c i)
       (\<lambda>e. throwE (if de_not_found e then wrapf Rt_not_found else translate e))
       (\<lambda>info.
          if (case info of None \<Rightarrow> False | Some st \<Rightarrow> ci_running st \<and> \<not> ci_paused st)
          then bindE (call_docker (dc_container_pause c i))
                 (\<lambda>_. then_always (commit_image c i) (dc_container_unpause c i))
          else commit_image c i)"

definition docker_delete_snapshot :: "'s docker_client \<Rightarrow> string \<Rightarrow> ('s, unit) op" where
  "docker_delete_snapshot c ref =
     on_docker (dc_image_remove c ref)
       (\<lambda>e. throwE (if de_not_found e then wrapf Rt_not_found else translate e)) returnE"

definition docker_unpause :: "'s docker_client \<Rightarrow> string \<Rightarrow> ('s, unit) op" where
  "docker_unpause c i =
     on_docker (dc_container_unpause c i)
       (\<lambda>e. if de_not_found e then throwE (wrapf Rt_not_found)
            else if de_conflict e then returnE () else throwE (translate e))
       returnE"

section \<open>Execs\<close>

definition docker_exec :: "'s docker_client \<Rightarrow> string \<Rightarrow> exec_spec \<Rightarrow> ('s, string) op" where
  "docker_exec c i spec =
     bindE (call_docker (dc_exec_create c i
        \<lparr>eo_cmd = xs_command spec, eo_env = env_lines (case xs_env spec of None \<Rightarrow> Map.empty | Some env \<Rightarrow> env),
         eo_working_dir = xs_working_dir spec, eo_user = xs_user spec, eo_attach_stdout = True,
         eo_attach_stderr = True, eo_attach_stdin = False, eo_tty = False\<rparr>)) (\<lambda>x.
     bindE (call_docker (dc_exec_attach c x)) (\<lambda>_. returnE x))"

definition docker_inspect_exec :: "'s docker_client \<Rightarrow> string \<Rightarrow> ('s, exec_status) op" where
  "docker_inspect_exec c x =
     on_docker (dc_exec_inspect c x)
       (\<lambda>e. throwE (if de_not_found e then wrapf Rt_not_found else translate e))
       (\<lambda>info. returnE \<lparr>xst_running = xi_running info,
                        xst_exit_code = (if \<not> xi_running info then Some (xi_exit_code info) else None)\<rparr>)"

text \<open>\<open>io.ReadFull\<close>: nothing is \<open>io.EOF\<close>, something but too little \<open>io.ErrUnexpectedEOF\<close>.\<close>

definition read_full :: "nat \<Rightarrow> byte_source \<Rightarrow> (goerr + byte list) \<times> byte_source" where
  "read_full n src =
     (let bs = bs_bytes src in
      if n \<le> length bs then (Inr (take n bs), src\<lparr>bs_bytes := drop n bs\<rparr>)
      else (Inl (if bs \<noteq> [] \<and> bs_end src = Sentinel Io_eof then Sentinel Io_unexpected_eof else bs_end src),
            src\<lparr>bs_bytes := []\<rparr>))"

definition docker_header_size :: nat where "docker_header_size = 8"

definition docker_max_frame :: nat where "docker_max_frame = 16 * 1048576"

definition demux :: "byte_source \<Rightarrow> (goerr + frame) \<times> byte_source" where
  "demux src =
     (case read_full docker_header_size src of
        (Inl e, src') \<Rightarrow> (Inl (if e = Sentinel Io_unexpected_eof then Wrapped [e] else e), src')
      | (Inr header, src') \<Rightarrow>
          let size = un_be32 (drop 4 header) in
          if size > docker_max_frame then (Inl Opaque, src')
          else (case read_full size src' of
                  (Inl e, src'') \<Rightarrow> (Inl (Wrapped [e]), src'')
                | (Inr data, src'') \<Rightarrow>
                    (Inr \<lparr>fr_stream = (if hd header = 2 then Stream_stderr else Stream_stdout), fr_data = data\<rparr>,
                     src'')))"

definition docker_recv :: "'s docker_client \<Rightarrow> string \<Rightarrow> ('s, frame) op" where
  "docker_recv c x s =
     (case demux (dc_attached c x s) of (r, src) \<Rightarrow> (r, dc_consume c x src s))"

text \<open>
  \<open>Wait\<close> polls every tenth of a second; \<open>n\<close> is how many ticks come before its context ends.
\<close>

primrec docker_wait :: "nat \<Rightarrow> 's docker_client \<Rightarrow> string \<Rightarrow> ('s, int) op" where
  "docker_wait 0 c x =
     bindE (call_docker (dc_exec_inspect c x)) (\<lambda>info.
     if \<not> xi_running info then returnE (xi_exit_code info) else throwE (Wrapped [Opaque]))"
| "docker_wait (Suc n) c x =
     bindE (call_docker (dc_exec_inspect c x)) (\<lambda>info.
     if \<not> xi_running info then returnE (xi_exit_code info) else docker_wait n c x)"

definition docker_close :: "'s docker_client \<Rightarrow> string \<Rightarrow> ('s, unit) op" where
  "docker_close c x s = (Inr (), dc_detach c x s)"

section \<open>Files\<close>

text \<open>Go's directory bit.\<close>

definition mode_is_dir :: "file_mode \<Rightarrow> bool" where
  "mode_is_dir m \<longleftrightarrow> bit m 31"

definition file_info_from :: "path_stat \<Rightarrow> file_info" where
  "file_info_from st =
     \<lparr>fi_name = ps_name st, fi_link_target = ps_link_target st, fi_size = ps_size st, fi_mode = ps_mode st,
      fi_mod_time = ps_mtime st, fi_is_dir = mode_is_dir (ps_mode st)\<rparr>"

definition container_vanished :: "'s docker_client \<Rightarrow> string \<Rightarrow> docker_err \<Rightarrow> 's \<Rightarrow> bool \<times> 's" where
  "container_vanished c i e s =
     (if \<not> de_not_found e then (False, s)
      else (case dc_container_inspect c i s of
              (Inl e', s') \<Rightarrow> (de_not_found e', s')
            | (Inr _, s') \<Rightarrow> (False, s')))"

definition or_vanished :: "'s docker_client \<Rightarrow> string \<Rightarrow> docker_err \<Rightarrow> goerr \<Rightarrow> ('s, 'a) op" where
  "or_vanished c i e err =
     bindE (liftE (container_vanished c i e)) (\<lambda>gone. throwE (if gone then wrapf Rt_not_found else err))"

definition docker_stat_path :: "'s docker_client \<Rightarrow> string \<Rightarrow> string \<Rightarrow> ('s, file_info) op" where
  "docker_stat_path c i p =
     on_docker (dc_stat_path c i p) (\<lambda>e. or_vanished c i e (translate_path e)) (\<lambda>st. returnE (file_info_from st))"

definition docker_read_archive :: "'s docker_client \<Rightarrow> string \<Rightarrow> string \<Rightarrow> ('s, tar_stream) op" where
  "docker_read_archive c i p =
     on_docker (dc_copy_from c i p) (\<lambda>e. or_vanished c i e (translate_path e)) returnE"

definition docker_write_archive :: "'s docker_client \<Rightarrow> string \<Rightarrow> string \<Rightarrow> tar_stream \<Rightarrow> ('s, unit) op" where
  "docker_write_archive c i dest ts =
     on_docker (dc_copy_to c i dest ts)
       (\<lambda>e. or_vanished c i e (if is_overwrite_type_mismatch e then wrapf Rt_conflict else translate_path e))
       returnE"

section \<open>The runtime\<close>

definition docker_runtime :: "'s docker_client \<Rightarrow> nat \<Rightarrow> 's runtime" where
  "docker_runtime c patience =
     \<lparr>rt_create = docker_create c, rt_start = docker_start c, rt_stop = docker_stop c,
      rt_destroy = docker_destroy c, rt_inspect = docker_inspect c, rt_exec = docker_exec c,
      rt_inspect_exec = docker_inspect_exec c, rt_snapshot = docker_snapshot c,
      rt_delete_snapshot = docker_delete_snapshot c, rt_unpause = docker_unpause c,
      rt_stat_path = docker_stat_path c, rt_read_archive = docker_read_archive c,
      rt_write_archive = docker_write_archive c, rt_recv = docker_recv c,
      rt_wait = docker_wait patience c, rt_close = docker_close c\<rparr>"

end
