(* ===== verification/Docker_Laws.thy ===== *)
theory Docker_Laws
  imports Docker Fake_Runtime
begin

text \<open>
  What the adapter over a Docker daemon guarantees: given the documented behaviour of the
  daemon it is a \<open>container_runtime\<close>, so that all that is proved of the services over the
  interface holds over Docker; what a session yields of the daemon's multiplexed stream; and
  which limits a container is created with.
\<close>

section \<open>Calls\<close>

definition dwp ::
    "('s, 'a) docker_op \<Rightarrow> ('a \<Rightarrow> 's \<Rightarrow> bool) \<Rightarrow> (docker_err \<Rightarrow> 's \<Rightarrow> bool) \<Rightarrow> 's \<Rightarrow> bool" where
  "dwp m Q E s \<longleftrightarrow> (case m s of (Inl e, s') \<Rightarrow> E e s' | (Inr a, s') \<Rightarrow> Q a s')"




section \<open>The daemon\<close>

text \<open>
  A view of the daemon: the state of each container, the ids handed out, the committed images,
  and whether its identifiers are still new (\<open>calm\<close>).
\<close>

record 's docker_view =
  dv_ctr :: "'s \<Rightarrow> string \<Rightarrow> container_state"
  dv_known :: "'s \<Rightarrow> string set"
  dv_images :: "'s \<Rightarrow> string set"
  dv_calm :: "'s \<Rightarrow> bool"

definition seen :: "'s docker_view \<Rightarrow> 's \<Rightarrow> (string \<Rightarrow> container_state) \<times> string set \<times> string set" where
  "seen v s = (dv_ctr v s, dv_known v s, dv_images v s)"

definition harmless :: "'s docker_view \<Rightarrow> 's \<Rightarrow> 's \<Rightarrow> bool" where
  "harmless v s s' \<longleftrightarrow> seen v s' = seen v s \<and> (dv_calm v s \<longrightarrow> dv_calm v s')"

text \<open>
  The behaviour of the daemon's API: a failing call changes nothing; what a call that succeeds
  changes; and what \<open>not found\<close> and, for an unpause, \<open>conflict\<close> say of the container.
\<close>

definition containers_law :: "'s docker_client \<Rightarrow> 's docker_view \<Rightarrow> bool" where
  "containers_law c v \<longleftrightarrow>
     (\<forall>cfg hc s. dwp (dc_container_create c cfg hc)
        (\<lambda>i s'. (dv_calm v s \<longrightarrow> i \<noteq> [] \<and> i \<notin> dv_known v s) \<and>
           seen v s' = ((dv_ctr v s)(i := C_stopped), insert i (dv_known v s), dv_images v s))
        (\<lambda>_. harmless v s) s) \<and>
     (\<forall>i s. dwp (dc_container_start c i)
        (\<lambda>_ s'. dv_ctr v s i \<noteq> C_gone \<and>
           (\<exists>st. st \<noteq> C_gone \<and> seen v s' = ((dv_ctr v s)(i := st), dv_known v s, dv_images v s)))
        (\<lambda>_. harmless v s) s) \<and>
     (\<forall>i d s. dwp (dc_container_stop c i d)
        (\<lambda>_ s'. dv_ctr v s i \<noteq> C_gone \<and>
           seen v s' = ((dv_ctr v s)(i := C_stopped), dv_known v s, dv_images v s))
        (\<lambda>_. harmless v s) s) \<and>
     (\<forall>i s. dwp (dc_container_remove c i True True)
        (\<lambda>_ s'. seen v s' = ((dv_ctr v s)(i := C_gone), dv_known v s, dv_images v s))
        (\<lambda>e s'. harmless v s s' \<and> (de_not_found e \<longrightarrow> dv_ctr v s i = C_gone)) s) \<and>
     (\<forall>i s. dwp (dc_container_inspect c i)
        (\<lambda>info s'. harmless v s s' \<and>
           dv_ctr v s i = (case info of None \<Rightarrow> C_stopped
             | Some st \<Rightarrow> container_state_from (ci_running st) (ci_paused st)))
        (\<lambda>e s'. harmless v s s' \<and> (de_not_found e \<longrightarrow> dv_ctr v s i = C_gone)) s)"

definition freezing_law :: "'s docker_client \<Rightarrow> 's docker_view \<Rightarrow> bool" where
  "freezing_law c v \<longleftrightarrow>
     (\<forall>i s. dwp (dc_container_pause c i)
        (\<lambda>_ s'. seen v s' = ((dv_ctr v s)(i := C_paused), dv_known v s, dv_images v s) \<and>
           (dv_calm v s \<longrightarrow> dv_calm v s'))
        (\<lambda>_. harmless v s) s) \<and>
     (\<forall>i s. dwp (dc_container_unpause c i)
        (\<lambda>_ s'. dv_ctr v s i = C_paused \<and>
           seen v s' = ((dv_ctr v s)(i := C_running), dv_known v s, dv_images v s))
        (\<lambda>e s'. harmless v s s' \<and>
           (de_conflict e \<and> \<not> de_not_found e \<longrightarrow> dv_ctr v s i \<noteq> C_gone \<and> dv_ctr v s i \<noteq> C_paused)) s)"

definition images_law :: "'s docker_client \<Rightarrow> 's docker_view \<Rightarrow> bool" where
  "images_law c v \<longleftrightarrow>
     (\<forall>ref s. dwp (dc_image_inspect c ref) (\<lambda>_. harmless v s) (\<lambda>_. harmless v s) s) \<and>
     (\<forall>ref s. dwp (dc_image_pull c ref) (\<lambda>_. harmless v s) (\<lambda>_. harmless v s) s) \<and>
     (\<forall>i s. dwp (dc_container_commit c i)
        (\<lambda>ref s'. (dv_calm v s \<longrightarrow> ref \<notin> dv_images v s) \<and>
           seen v s' = (dv_ctr v s, dv_known v s, insert ref (dv_images v s)))
        (\<lambda>_. harmless v s) s) \<and>
     (\<forall>ref s. dwp (dc_image_remove c ref)
        (\<lambda>_ s'. seen v s' = (dv_ctr v s, dv_known v s, dv_images v s - {ref}))
        (\<lambda>e s'. harmless v s s' \<and> (de_not_found e \<longrightarrow> ref \<notin> dv_images v s)) s)"

definition docker_daemon :: "'s docker_client \<Rightarrow> 's docker_view \<Rightarrow> bool" where
  "docker_daemon c v \<longleftrightarrow> containers_law c v \<and> freezing_law c v \<and> images_law c v"


section \<open>The adapter is a runtime\<close>

lemma seen_eq: "seen v s' = (x, k, im) \<longleftrightarrow> dv_ctr v s' = x \<and> dv_known v s' = k \<and> dv_images v s' = im"
  by (auto simp: seen_def)

lemma harmless_iff:
  "harmless v s s' \<longleftrightarrow> dv_ctr v s' = dv_ctr v s \<and> dv_known v s' = dv_known v s \<and>
     dv_images v s' = dv_images v s \<and> (dv_calm v s \<longrightarrow> dv_calm v s')"
  by (auto simp: harmless_def seen_def)

lemmas view_simps = harmless_iff seen_eq entails_def

lemma translate_not_found [simp]: "errors_is (translate e) Rt_not_found \<longleftrightarrow> de_not_found e"
  by (simp add: translate_def)























lemma docker_runtime_ops [simp]:
  "rt_create (docker_runtime c n) = docker_create c" "rt_start (docker_runtime c n) = docker_start c"
  "rt_stop (docker_runtime c n) = docker_stop c" "rt_destroy (docker_runtime c n) = docker_destroy c"
  "rt_inspect (docker_runtime c n) = docker_inspect c" "rt_unpause (docker_runtime c n) = docker_unpause c"
  "rt_snapshot (docker_runtime c n) = docker_snapshot c" "rt_recv (docker_runtime c n) = docker_recv c"
  "rt_delete_snapshot (docker_runtime c n) = docker_delete_snapshot c"
  by (simp_all add: docker_runtime_def)


section \<open>A daemon\<close>

text \<open>The documented behaviour on the containers and images of the in-memory runtime.\<close>

definition to_docker_err :: "goerr \<Rightarrow> docker_err" where
  "to_docker_err e =
     \<lparr>de_not_found = errors_is e Rt_not_found, de_conflict = errors_is e Rt_conflict, de_invalid_argument = False,
      de_connection_failed = False, de_unavailable = False, de_deadline_exceeded = False, de_text = []\<rparr>"

definition as_docker :: "('s, 'a) op \<Rightarrow> ('s, 'a) docker_op" where
  "as_docker m s = (case m s of (Inl e, s') \<Rightarrow> (Inl (to_docker_err e), s') | (Inr a, s') \<Rightarrow> (Inr a, s'))"

definition engine_create :: "container_config \<Rightarrow> host_config \<Rightarrow> (fake, string) op" where
  "engine_create cfg hc =
     fake_create
       \<lparr>cs_sandbox_id = the (cc_labels cfg ''orcal.sandbox''), cs_image = cc_image cfg, cs_env = Map.empty,
        cs_labels = cc_labels cfg, cs_cpu_millis = hc_nano_cpus hc div 1000000, cs_memory_bytes = hc_memory hc,
        cs_pids_limit = hc_pids_limit hc, cs_network_name = hc_network_mode hc, cs_oci_runtime = hc_runtime hc\<rparr>"

definition engine_inspect :: "string \<Rightarrow> (fake, container_info option) op" where
  "engine_inspect i f =
     (if fake_ctr f i = C_gone then Inl (wrapf Rt_not_found)
      else Inr (Some \<lparr>ci_running = (fake_ctr f i = C_running \<or> fake_ctr f i = C_paused),
                      ci_paused = (fake_ctr f i = C_paused), ci_exit_code = 0\<rparr>), f)"

definition engine_pause :: "string \<Rightarrow> (fake, unit) op" where
  "engine_pause i f =
     (if fake_ctr f i = C_gone then (Inl (wrapf Rt_not_found), f)
      else if fake_ctr f i = C_running then (Inr (), force_paused i f)
      else (Inl (wrapf Rt_conflict), f))"

text \<open>The switch says whether an unpause gets through.\<close>

definition engine_unpause :: "bool \<Rightarrow> string \<Rightarrow> (fake, unit) op" where
  "engine_unpause works i f =
     (if \<not> works then (Inl Opaque, f)
      else if fake_ctr f i = C_gone \<or> fake_ctr f i = C_paused then fake_unpause i f
      else (Inl (wrapf Rt_conflict), f))"

definition engine_commit :: "string \<Rightarrow> (fake, string) op" where
  "engine_commit i = bindE (fake_snapshot i) (\<lambda>info. returnE (si_ref info))"

definition no_such :: "('s, 'a) docker_op" where
  "no_such s = (Inl (to_docker_err (wrapf Rt_not_found)), s)"

definition engine :: "bool \<Rightarrow> fake docker_client" where
  "engine works =
     \<lparr>dc_network_inspect = \<lambda>_. no_such, dc_network_create = \<lambda>_ _. no_such,
      dc_container_create = \<lambda>cfg hc. as_docker (engine_create cfg hc),
      dc_image_inspect = \<lambda>ref s. (case map_of (fk_snapshots s) ref of None \<Rightarrow> no_such s | Some n \<Rightarrow> (Inr n, s)),
      dc_image_pull = \<lambda>_ s. (Inr None, s), dc_container_start = \<lambda>i. as_docker (fake_start i),
      dc_container_stop = \<lambda>i d. as_docker (fake_stop i d),
      dc_container_remove = \<lambda>i _ _. as_docker (fake_destroy i),
      dc_container_inspect = \<lambda>i. as_docker (engine_inspect i), dc_exec_create = \<lambda>_ _. no_such,
      dc_exec_attach = \<lambda>_. no_such, dc_exec_inspect = \<lambda>_. no_such,
      dc_container_pause = \<lambda>i. as_docker (engine_pause i),
      dc_container_unpause = \<lambda>i. as_docker (engine_unpause works i),
      dc_container_commit = \<lambda>i. as_docker (engine_commit i),
      dc_image_remove = \<lambda>ref. as_docker (fake_delete_snapshot ref),
      dc_stat_path = \<lambda>_ _. no_such, dc_copy_from = \<lambda>_ _. no_such, dc_copy_to = \<lambda>_ _ _. no_such,
      dc_info = no_such, dc_attached = \<lambda>_ _. \<lparr>bs_bytes = [], bs_end = Sentinel Io_eof\<rparr>,
      dc_consume = \<lambda>_ _ s. s, dc_detach = \<lambda>_ s. s\<rparr>"

definition engine_view :: "fake docker_view" where
  "engine_view = \<lparr>dv_ctr = fake_ctr, dv_known = fake_known, dv_images = fake_images, dv_calm = fake_calm\<rparr>"

lemma dwp_as_docker:
  "dwp (as_docker m) Q E s \<longleftrightarrow> wp m Q (\<lambda>e. E (to_docker_err e)) s"
  by (simp add: dwp_def wp_def as_docker_def split: prod.splits sum.splits)

lemma engine_parts [simp]:
  "dv_ctr engine_view = fake_ctr" "dv_known engine_view = fake_known" "dv_images engine_view = fake_images"
  "dv_calm engine_view = fake_calm" "de_not_found (to_docker_err e) = errors_is e Rt_not_found"
  "de_conflict (to_docker_err e) = errors_is e Rt_conflict"
  by (simp_all add: engine_view_def to_docker_err_def)

lemma engine_containers: "containers_law (engine works) engine_view"
  unfolding containers_law_def
  by (auto simp: engine_def dwp_as_docker view_simps wp_def engine_create_def fake_create_def fake_start_def
      fake_stop_def fake_transition_def fake_destroy_def engine_inspect_def container_state_from_def Let_def
      calm_next_id fun_upd_idem split: option.splits if_splits) (metis container_state.exhaust)

lemma engine_freezing: "freezing_law (engine works) engine_view"
  unfolding freezing_law_def
  by (auto simp: engine_def dwp_as_docker view_simps wp_def engine_pause_def engine_unpause_def fake_unpause_def
      force_paused_def calm_set_state fake_ctr_def insert_absorb split: option.splits if_splits)

lemma engine_commit_law:
  "wp (engine_commit i)
    (\<lambda>ref s'. (fake_calm s \<longrightarrow> ref \<notin> fake_images s) \<and>
       seen engine_view s' = (fake_ctr s, fake_known s, insert ref (fake_images s)))
    (\<lambda>_. harmless engine_view s) s"
proof -
  have "leaves fake_known (fake_snapshot i)" "keeps fake_calm (fake_snapshot i)"
    using faker.snapshot_frame [of i] fake_keeps_calm(7) [of i] by (simp_all add: fake_runtime_def)
  then have "fake_known (snd (fake_snapshot i s)) = fake_known s"
    "fake_calm s \<longrightarrow> fake_calm (snd (fake_snapshot i s))"
    by (simp_all add: leaves_def keeps_def)
  with faker.snapshot_law [of i s] show ?thesis
    unfolding fake_runtime_def runtime.simps wp_def engine_commit_def bindE_def
    by (cases "fake_snapshot i s"; cases "fst (fake_snapshot i s)") (simp_all add: view_simps)
qed

lemma engine_images: "images_law (engine works) engine_view"
  unfolding images_law_def
proof (intro conjI allI)
  fix i s
  show "dwp (dc_container_commit (engine works) i)
      (\<lambda>ref s'. (dv_calm engine_view s \<longrightarrow> ref \<notin> dv_images engine_view s) \<and>
         seen engine_view s' = (dv_ctr engine_view s, dv_known engine_view s, insert ref (dv_images engine_view s)))
      (\<lambda>_. harmless engine_view s) s"
    using engine_commit_law by (simp add: engine_def dwp_as_docker)
next
  fix ref s
  show "dwp (dc_image_remove (engine works) ref)
      (\<lambda>_ s'. seen engine_view s' = (dv_ctr engine_view s, dv_known engine_view s, dv_images engine_view s - {ref}))
      (\<lambda>e s'. harmless engine_view s s' \<and> (de_not_found e \<longrightarrow> ref \<notin> dv_images engine_view s)) s"
    by (auto simp: engine_def dwp_as_docker wp_def view_simps fake_delete_snapshot_def fake_images_iff split: if_splits)
qed (auto simp: engine_def dwp_def no_such_def harmless_def split: option.splits)

lemma engine_daemon: "docker_daemon (engine works) engine_view"
  by (simp add: docker_daemon_def engine_containers engine_freezing engine_images)



text \<open>
  Without the last hypothesis the contract fails: when the unpause after a commit does not get
  through, the snapshot is reported as taken and the container stays frozen.
\<close>

definition frozen_example :: fake where
  "frozen_example = snd (fake_start ''u'' (snd (fake_create
     \<lparr>cs_sandbox_id = ''b'', cs_image = ''img'', cs_env = Map.empty, cs_labels = Map.empty, cs_cpu_millis = 0,
      cs_memory_bytes = 0, cs_pids_limit = 0, cs_network_name = [], cs_oci_runtime = []\<rparr> (fake_new (\<lambda>_. ''u'')))))"

theorem snapshot_may_freeze:
  "docker_daemon (engine False) engine_view \<and> fake_ctr frozen_example ''u'' = C_running \<and>
   (case docker_snapshot (engine False) ''u'' frozen_example of
      (r, s) \<Rightarrow> \<not> isl r \<and> fake_ctr s ''u'' = C_paused)"
proof (intro conjI)
  show "docker_daemon (engine False) engine_view" by (rule engine_daemon)
qed code_simp+

section \<open>The stream of a session\<close>

text \<open>
  The daemon's framing: the stream's number and three zeros, the length as a big-endian word,
  the bytes.
\<close>

definition docker_frame :: "frame \<Rightarrow> byte list" where
  "docker_frame f =
     [if fr_stream f = Stream_stderr then 2 else 1, 0, 0, 0] @ be32 (length (fr_data f)) @ fr_data f"

text \<open>What as many calls of \<open>Recv\<close> give.\<close>

primrec demux_all :: "nat \<Rightarrow> byte_source \<Rightarrow> (goerr + frame) list" where
  "demux_all 0 src = []"
| "demux_all (Suc n) src = (case demux src of (r, src') \<Rightarrow> r # demux_all n src')"

lemma docker_frame_length [simp]: "length (docker_frame f) = 8 + length (fr_data f)"
  by (simp add: docker_frame_def)

lemma demux_frame:
  assumes "length (fr_data f) \<le> docker_max_frame"
  shows "demux \<lparr>bs_bytes = docker_frame f @ rest, bs_end = e\<rparr> = (Inr f, \<lparr>bs_bytes = rest, bs_end = e\<rparr>)"
proof -
  have "un_be32 (be32 (length (fr_data f))) = length (fr_data f)"
    using assms by (intro un_be32_be32) (simp add: docker_max_frame_def)
  then show ?thesis
    using assms by (cases f; cases "fr_stream f")
      (simp_all add: demux_def read_full_def docker_frame_def docker_header_size_def Let_def)
qed

text \<open>A stream that breaks off inside a frame.\<close>

lemma demux_cut:
  assumes "length (fr_data g) \<le> docker_max_frame" "strict_prefix rest (docker_frame g)"
  shows "\<exists>e src. demux \<lparr>bs_bytes = rest, bs_end = Sentinel Io_eof\<rparr> = (Inl e, src) \<and>
    (errors_is e Io_eof \<longleftrightarrow> rest = [] \<or> length rest = 8)"
proof (cases "length rest < 8")
  case True
  then show ?thesis
    by (auto simp: demux_def read_full_def docker_header_size_def Let_def)
next
  case False
  obtain more where more: "docker_frame g = rest @ more" "more \<noteq> []"
    using assms(2) by (auto simp: strict_prefix_def prefix_def)
  have "length rest < 8 + length (fr_data g)"
    using arg_cong [OF more(1), of length] more(2) by simp
  moreover have "take 8 rest = take 8 (docker_frame g)"
    using False by (simp add: more(1))
  then have "drop 4 (take 8 rest) = be32 (length (fr_data g))"
    by (simp add: docker_frame_def)
  moreover have "un_be32 (be32 (length (fr_data g))) = length (fr_data g)"
    using assms(1) by (intro un_be32_be32) (simp add: docker_max_frame_def)
  ultimately show ?thesis
    using False assms(1) by (auto simp: demux_def read_full_def docker_header_size_def Let_def)
qed

text \<open>C9 [docker_stream_roundtrip]: the frames the daemon sends are the frames \<open>Recv\<close> yields, whatever the
  size up to the limit of 16 MiB; a stream that breaks off inside the next frame ends with an
  error, which is taken for the regular end exactly when nothing of that frame, or nothing but its
  header, has arrived.\<close>

theorem docker_stream_roundtrip:
  assumes "\<forall>f \<in> set (g # frs). length (fr_data f) \<le> docker_max_frame" "strict_prefix rest (docker_frame g)"
  shows "\<exists>e. demux_all (Suc (length frs))
      \<lparr>bs_bytes = concat (map docker_frame frs) @ rest, bs_end = Sentinel Io_eof\<rparr> = map Inr frs @ [Inl e] \<and>
    (errors_is e Io_eof \<longleftrightarrow> rest = [] \<or> length rest = 8)"
  using assms
proof (induction frs)
  case Nil
  then show ?case using demux_cut [of g rest] by auto
next
  case (Cons f frs)
  then show ?case by (auto simp: demux_frame)
qed

theorem docker_stream_roundtrip_witness:
  "\<exists>e. demux_all (Suc (Suc 0))
      \<lparr>bs_bytes = docker_frame \<lparr>fr_stream = Stream_stderr, fr_data = [7]\<rparr> @ [1, 0, 0, 0, 0, 0, 0, 1],
       bs_end = Sentinel Io_eof\<rparr> = [Inr \<lparr>fr_stream = Stream_stderr, fr_data = [7]\<rparr>, Inl e] \<and> errors_is e Io_eof"
  using docker_stream_roundtrip [of "\<lparr>fr_stream = Stream_stdout, fr_data = [9]\<rparr>"
      "[\<lparr>fr_stream = Stream_stderr, fr_data = [7]\<rparr>]" "[1, 0, 0, 0, 0, 0, 0, 1]"]
  by (simp add: docker_max_frame_def docker_frame_def be32_def strict_prefix_def prefix_def del: demux_all.simps)

section \<open>Limits\<close>

lemma int64_small: "- 9223372036854775808 \<le> n \<Longrightarrow> n \<le> 9223372036854775807 \<Longrightarrow> int64 n = n"
  by (simp add: int64_id)

text \<open>
  The CPU limit is exact up to 9223372036854 millicores; beyond, the product wraps, and some
  accepted requests get no limit at all: zero means none to the daemon.
\<close>

theorem cpu_limit_wraps:
  "(0 \<le> cs_cpu_millis spec \<longrightarrow> cs_cpu_millis spec \<le> max_int64 \<longrightarrow>
      (hc_nano_cpus (host_config_of spec) = cs_cpu_millis spec * 1000000 \<longleftrightarrow>
       cs_cpu_millis spec \<le> 9223372036854)) \<and>
   hc_nano_cpus (host_config_of (spec\<lparr>cs_cpu_millis := 2 ^ 58\<rparr>)) = 0"
proof (intro conjI impI)
  show "hc_nano_cpus (host_config_of (spec\<lparr>cs_cpu_millis := 2 ^ 58\<rparr>)) = 0"
    by (simp add: host_config_of_def int64_def)
next
  assume "0 \<le> cs_cpu_millis spec"
  moreover have "int64 n \<le> 9223372036854775807" for n
    using sint_lt [of "word_of_int n :: 64 word"] by (simp add: int64_def)
  then have "int64 n = n \<Longrightarrow> n \<le> 9223372036854775807" for n
    by metis
  moreover have "cs_cpu_millis spec * 1000000 \<le> 9223372036854775807 \<longleftrightarrow> cs_cpu_millis spec \<le> 9223372036854"
    by arith
  ultimately show "hc_nano_cpus (host_config_of spec) = cs_cpu_millis spec * 1000000 \<longleftrightarrow>
      cs_cpu_millis spec \<le> 9223372036854"
    using int64_small [of "cs_cpu_millis spec * 1000000"] by (auto simp: host_config_of_def)
qed

end
