(* ===== verification/Client.thy ===== *)
theory Client
  imports Api Fake_Runtime
begin

text \<open>
  \<open>pkg/orcalclient\<close>: the requests the Go client makes, one definition per method, with the
  escaping of \<open>net/url\<close> it relies on; and what \<open>net/http\<close> makes of such a request at the
  daemon before the route table of \<open>Api\<close> sees it.
\<close>

section \<open>Escaping\<close>

definition unreserved :: "char \<Rightarrow> bool" where
  "unreserved c \<longleftrightarrow>
     (CHR ''a'' \<le> c \<and> c \<le> CHR ''z'') \<or> (CHR ''A'' \<le> c \<and> c \<le> CHR ''Z'') \<or> (CHR ''0'' \<le> c \<and> c \<le> CHR ''9'') \<or>
     c \<in> set ''-_.~''"

text \<open>Characters of a path segment that stay as they are; in a query component none of these do.\<close>

definition segment_char :: "char \<Rightarrow> bool" where
  "segment_char c \<longleftrightarrow> unreserved c \<or> c \<in> set ''$&+:=@''"

definition hex_digit :: "nat \<Rightarrow> char" where
  "hex_digit n = (if n < 10 then char_of (48 + n) else char_of (55 + n))"

definition percent :: "char \<Rightarrow> string" where
  "percent c = [CHR ''%'', hex_digit (of_char c div 16), hex_digit (of_char c mod 16)]"

definition path_escape :: "string \<Rightarrow> string" where
  "path_escape s = concat (map (\<lambda>c. if segment_char c then [c] else percent c) s)"

definition query_escape :: "string \<Rightarrow> string" where
  "query_escape s =
     concat (map (\<lambda>c. if unreserved c then [c] else if c = CHR '' '' then ''+'' else percent c) s)"

definition unhex :: "char \<Rightarrow> nat option" where
  "unhex c =
     (if CHR ''0'' \<le> c \<and> c \<le> CHR ''9'' then Some (of_char c - 48)
      else if CHR ''a'' \<le> c \<and> c \<le> CHR ''f'' then Some (of_char c - 87)
      else if CHR ''A'' \<le> c \<and> c \<le> CHR ''F'' then Some (of_char c - 55)
      else None)"

text \<open>The flag says whether a plus is a space.\<close>

fun unescape :: "bool \<Rightarrow> string \<Rightarrow> string option" where
  "unescape query [] = Some []"
| "unescape query (c # cs) =
     (if c = CHR ''%''
      then (case cs of
              a # b # rest \<Rightarrow>
                Option.bind (unhex a) (\<lambda>x. Option.bind (unhex b) (\<lambda>y.
                map_option ((#) (char_of (16 * x + y))) (unescape query rest)))
            | _ \<Rightarrow> None)
      else map_option ((#) (if query \<and> c = CHR ''+'' then CHR '' '' else c)) (unescape query cs))"

lemma nibbles: "(of_char c div 16 :: nat) < 16" "(of_char c mod 16 :: nat) < 16"
proof -
  have "(of_char c :: nat) < 256"
    using of_char_mod_256 [of c, where 'a = nat] by (metis mod_less_divisor zero_less_numeral)
  then show "(of_char c div 16 :: nat) < 16" by (intro less_mult_imp_div_less) simp
qed simp

lemma hex_digits:
  assumes "n < 16"
  shows "unhex (hex_digit n) = Some n \<and> hex_digit n \<in> set ''0123456789ABCDEF''"
proof -
  have "n \<in> set [0..<16]" using assms by simp
  moreover have "list_all (\<lambda>n. unhex (hex_digit n) = Some n \<and> hex_digit n \<in> set ''0123456789ABCDEF'') [0..<16]"
    by code_simp
  ultimately show ?thesis by (simp only: list_all_iff)
qed

lemma hex_pair:
  "unhex (hex_digit (of_char c div 16)) = Some (of_char c div 16)"
  "unhex (hex_digit (of_char c mod 16)) = Some (of_char c mod 16)"
  using hex_digits [OF nibbles(1)] hex_digits [OF nibbles(2)] by auto

lemma percent_chars: "x \<in> set (percent c) \<Longrightarrow> x \<in> set ''%0123456789ABCDEF''"
  using hex_digits [OF nibbles(1), of c] hex_digits [OF nibbles(2), of c] by (auto simp: percent_def)

lemma unescape_percent: "unescape query (percent c @ s) = map_option ((#) c) (unescape query s)"
proof -
  have "char_of (16 * (of_char c div 16 :: nat) + of_char c mod 16) = c" by simp
  then show ?thesis by (simp add: percent_def hex_pair)
qed

lemma plain_chars:
  "segment_char c \<Longrightarrow> c \<notin> set ''%/?''" "unreserved c \<Longrightarrow> c \<notin> set ''%+&=;''"
  by (auto simp: segment_char_def unreserved_def)

lemma unescape_path [simp]: "unescape False (path_escape s) = Some s"
proof (induction s)
  case (Cons c s)
  then show ?case
    using plain_chars(1) [of c] by (auto simp: path_escape_def unescape_percent)
qed (simp add: path_escape_def)

lemma unescape_query [simp]: "unescape True (query_escape s) = Some s"
proof (induction s)
  case (Cons c s)
  then show ?case
    using plain_chars(2) [of c] by (auto simp: query_escape_def unescape_percent)
qed (simp add: query_escape_def)

section \<open>Requests\<close>

text \<open>
  A request as it is handed to \<open>http.Client\<close>: the target is what follows the base URL. A body is
  a JSON value, or a stream of bytes or of tar entries.
\<close>

datatype client_body = No_content | Json_content json | Bytes_content upload | Tar_content tar_stream

record client_request =
  cq_method :: string
  cq_base :: string
  cq_target :: string
  cq_authorization :: string
  cq_content_type :: string
  cq_accept :: string
  cq_body :: client_body

record orcal_client =
  oc_base_url :: string
  oc_token :: string

definition trim_right :: "char \<Rightarrow> string \<Rightarrow> string" where
  "trim_right c s = rev (dropWhile (\<lambda>x. x = c) (rev s))"

definition new_client :: "string \<Rightarrow> string \<Rightarrow> orcal_client" where
  "new_client base_url token = \<lparr>oc_base_url = trim_right slash base_url, oc_token = token\<rparr>"

definition new_request :: "orcal_client \<Rightarrow> string \<Rightarrow> string \<Rightarrow> json option \<Rightarrow> client_request" where
  "new_request c m target body =
     \<lparr>cq_method = m, cq_base = oc_base_url c, cq_target = target, cq_authorization = ''Bearer '' @ oc_token c,
      cq_content_type = (if body = None then [] else ''application/json''), cq_accept = [],
      cq_body = (case body of None \<Rightarrow> No_content | Some j \<Rightarrow> Json_content j)\<rparr>"

definition new_stream_request ::
    "orcal_client \<Rightarrow> string \<Rightarrow> string \<Rightarrow> client_body \<Rightarrow> string \<Rightarrow> client_request" where
  "new_stream_request c m target body content_type =
     \<lparr>cq_method = m, cq_base = oc_base_url c, cq_target = target, cq_authorization = ''Bearer '' @ oc_token c,
      cq_content_type = content_type, cq_accept = [], cq_body = body\<rparr>"

text \<open>\<open>url.Values\<close> and its encoding, which sorts the keys.\<close>

type_synonym url_values = "(string \<times> string list) list"

definition set_value :: "string \<Rightarrow> string \<Rightarrow> url_values \<Rightarrow> url_values" where
  "set_value k v q = filter (\<lambda>(k', _). k' \<noteq> k) q @ [(k, [v])]"

definition add_value :: "string \<Rightarrow> string \<Rightarrow> url_values \<Rightarrow> url_values" where
  "add_value k v q =
     (case map_of q k of
        None \<Rightarrow> q @ [(k, [v])]
      | Some vs \<Rightarrow> map (\<lambda>(k', vs). if k' = k then (k', vs @ [v]) else (k', vs)) q)"

definition value_pairs :: "url_values \<Rightarrow> (string \<times> string) list" where
  "value_pairs q = concat (map (\<lambda>(k, vs). map (Pair k) vs) (sort_key fst q))"

definition encode_values :: "url_values \<Rightarrow> string" where
  "encode_values q =
     join_with (CHR ''&'') (map (\<lambda>(k, v). query_escape k @ ''='' @ query_escape v) (value_pairs q))"

definition itoa :: "int \<Rightarrow> string" where
  "itoa n = (if n < 0 then CHR ''-'' # decimal (nat (- n)) else decimal (nat n))"

text \<open>The labels in the order the map is walked.\<close>

record list_params =
  lp_limit :: int
  lp_cursor :: string
  lp_labels :: "(string \<times> string) list"
  lp_state :: string
  lp_sandbox :: string

definition set_unless_empty :: "string \<Rightarrow> string \<Rightarrow> url_values \<Rightarrow> url_values" where
  "set_unless_empty k v q = (if v = [] then q else set_value k v q)"

definition list_query :: "list_params \<Rightarrow> url_values" where
  "list_query p =
     fold (\<lambda>(k, v). add_value ''label'' (k @ ''='' @ v)) (lp_labels p)
       (set_unless_empty ''sandbox'' (lp_sandbox p)
         (set_unless_empty ''state'' (lp_state p)
           (set_unless_empty ''cursor'' (lp_cursor p)
             (if lp_limit p > 0 then set_value ''limit'' (itoa (lp_limit p)) [] else []))))"

definition file_path_query :: "string \<Rightarrow> url_values" where
  "file_path_query p = set_value ''path'' p []"

subsection \<open>Bodies\<close>

text \<open>A field marked \<open>omitempty\<close>; a map is an object with its keys in order.\<close>

definition omit_empty :: "bool \<Rightarrow> string \<Rightarrow> json \<Rightarrow> (string \<times> json) list" where
  "omit_empty skip k j = (if skip then [] else [(k, j)])"

definition json_dict :: "(string \<times> string) list \<Rightarrow> json" where
  "json_dict d = J_object (map (\<lambda>(k, v). (k, J_string v)) (sort_key fst d))"

record create_sandbox_params =
  csp_name :: string
  csp_image :: string
  csp_snapshot :: string
  csp_cpu_millis :: int
  csp_memory_bytes :: int
  csp_pids_limit :: int
  csp_network :: string
  csp_env :: "(string \<times> string) list"
  csp_labels :: "(string \<times> string) list"

definition create_sandbox_json :: "create_sandbox_params \<Rightarrow> json" where
  "create_sandbox_json p =
     J_object
      (omit_empty (csp_name p = []) ''name'' (J_string (csp_name p)) @
       omit_empty (csp_image p = []) ''image'' (J_string (csp_image p)) @
       omit_empty (csp_snapshot p = []) ''snapshot'' (J_string (csp_snapshot p)) @
       omit_empty (csp_cpu_millis p = 0) ''cpu_millis'' (J_int (csp_cpu_millis p)) @
       omit_empty (csp_memory_bytes p = 0) ''memory_bytes'' (J_int (csp_memory_bytes p)) @
       omit_empty (csp_pids_limit p = 0) ''pids_limit'' (J_int (csp_pids_limit p)) @
       omit_empty (csp_network p = []) ''network'' (J_string (csp_network p)) @
       omit_empty (csp_env p = []) ''env'' (json_dict (csp_env p)) @
       omit_empty (csp_labels p = []) ''labels'' (json_dict (csp_labels p)))"

record create_exec_params =
  cxp_command :: "string list"
  cxp_env :: "(string \<times> string) list"
  cxp_working_dir :: string
  cxp_user :: string

definition create_exec_json :: "create_exec_params \<Rightarrow> json" where
  "create_exec_json p =
     J_object
      ((''command'', J_array (map J_string (cxp_command p))) #
       omit_empty (cxp_env p = []) ''env'' (json_dict (cxp_env p)) @
       omit_empty (cxp_working_dir p = []) ''working_dir'' (J_string (cxp_working_dir p)) @
       omit_empty (cxp_user p = []) ''user'' (J_string (cxp_user p)))"

record create_token_params =
  ctp_name :: string
  ctp_scopes :: "string list"
  ctp_expires_in_seconds :: int

definition create_token_json :: "create_token_params \<Rightarrow> json" where
  "create_token_json p =
     J_object
      ([(''name'', J_string (ctp_name p)), (''scopes'', J_array (map J_string (ctp_scopes p)))] @
       omit_empty (ctp_expires_in_seconds p = 0) ''expires_in_seconds'' (J_int (ctp_expires_in_seconds p)))"

definition create_snapshot_json :: "string \<Rightarrow> json" where
  "create_snapshot_json name = J_object (omit_empty (name = []) ''name'' (J_string name))"

definition restore_json :: "string \<Rightarrow> json" where
  "restore_json snapshot = J_object [(''snapshot'', J_string snapshot)]"

subsection \<open>The methods\<close>

definition in_box :: "string \<Rightarrow> string" where
  "in_box ref = ''/v1/sandboxes/'' @ path_escape ref"

definition rq_create_sandbox :: "orcal_client \<Rightarrow> create_sandbox_params \<Rightarrow> client_request" where
  "rq_create_sandbox c p = new_request c ''POST'' ''/v1/sandboxes'' (Some (create_sandbox_json p))"

definition rq_list_sandboxes :: "orcal_client \<Rightarrow> list_params \<Rightarrow> client_request" where
  "rq_list_sandboxes c p = new_request c ''GET'' (''/v1/sandboxes?'' @ encode_values (list_query p)) None"

definition rq_get_sandbox :: "orcal_client \<Rightarrow> string \<Rightarrow> client_request" where
  "rq_get_sandbox c ref = new_request c ''GET'' (in_box ref) None"

definition rq_start_sandbox :: "orcal_client \<Rightarrow> string \<Rightarrow> client_request" where
  "rq_start_sandbox c ref = new_request c ''POST'' (in_box ref @ ''/start'') None"

definition rq_stop_sandbox :: "orcal_client \<Rightarrow> string \<Rightarrow> client_request" where
  "rq_stop_sandbox c ref = new_request c ''POST'' (in_box ref @ ''/stop'') None"

definition rq_destroy_sandbox :: "orcal_client \<Rightarrow> string \<Rightarrow> client_request" where
  "rq_destroy_sandbox c ref = new_request c ''DELETE'' (in_box ref) None"

definition rq_version :: "orcal_client \<Rightarrow> client_request" where
  "rq_version c = new_request c ''GET'' ''/v1/version'' None"

definition rq_create_snapshot :: "orcal_client \<Rightarrow> string \<Rightarrow> string \<Rightarrow> client_request" where
  "rq_create_snapshot c ref name = new_request c ''POST'' (in_box ref @ ''/snapshots'') (Some (create_snapshot_json name))"

definition rq_list_sandbox_snapshots :: "orcal_client \<Rightarrow> string \<Rightarrow> list_params \<Rightarrow> client_request" where
  "rq_list_sandbox_snapshots c ref p =
     new_request c ''GET'' (in_box ref @ ''/snapshots?'' @ encode_values (list_query p)) None"

definition rq_list_snapshots :: "orcal_client \<Rightarrow> list_params \<Rightarrow> client_request" where
  "rq_list_snapshots c p = new_request c ''GET'' (''/v1/snapshots?'' @ encode_values (list_query p)) None"

definition rq_get_snapshot :: "orcal_client \<Rightarrow> string \<Rightarrow> client_request" where
  "rq_get_snapshot c ref = new_request c ''GET'' (''/v1/snapshots/'' @ path_escape ref) None"

definition rq_delete_snapshot :: "orcal_client \<Rightarrow> string \<Rightarrow> client_request" where
  "rq_delete_snapshot c ref = new_request c ''DELETE'' (''/v1/snapshots/'' @ path_escape ref) None"

definition rq_restore_sandbox :: "orcal_client \<Rightarrow> string \<Rightarrow> string \<Rightarrow> client_request" where
  "rq_restore_sandbox c ref snapshot = new_request c ''POST'' (in_box ref @ ''/restore'') (Some (restore_json snapshot))"

definition rq_create_exec :: "orcal_client \<Rightarrow> string \<Rightarrow> create_exec_params \<Rightarrow> client_request" where
  "rq_create_exec c ref p = new_request c ''POST'' (in_box ref @ ''/execs'') (Some (create_exec_json p))"

definition rq_get_exec :: "orcal_client \<Rightarrow> string \<Rightarrow> client_request" where
  "rq_get_exec c i = new_request c ''GET'' (''/v1/execs/'' @ path_escape i) None"

definition rq_list_execs :: "orcal_client \<Rightarrow> string \<Rightarrow> list_params \<Rightarrow> client_request" where
  "rq_list_execs c ref p = new_request c ''GET'' (in_box ref @ ''/execs?'' @ encode_values (list_query p)) None"

definition rq_stream_output :: "orcal_client \<Rightarrow> string \<Rightarrow> int \<Rightarrow> client_request" where
  "rq_stream_output c i from_offset =
     (new_request c ''GET'' (''/v1/execs/'' @ path_escape i @ ''/output?from='' @ itoa from_offset) None)
       \<lparr>cq_accept := ''text/event-stream''\<rparr>"

definition rq_read_file :: "orcal_client \<Rightarrow> string \<Rightarrow> string \<Rightarrow> client_request" where
  "rq_read_file c ref p = new_request c ''GET'' (in_box ref @ ''/files?'' @ encode_values (file_path_query p)) None"

definition rq_write_file :: "orcal_client \<Rightarrow> string \<Rightarrow> string \<Rightarrow> upload \<Rightarrow> client_request" where
  "rq_write_file c ref p body =
     new_stream_request c ''PUT'' (in_box ref @ ''/files?'' @ encode_values (file_path_query p)) (Bytes_content body)
       ''application/octet-stream''"

definition rq_stat_file :: "orcal_client \<Rightarrow> string \<Rightarrow> string \<Rightarrow> client_request" where
  "rq_stat_file c ref p = new_request c ''GET'' (in_box ref @ ''/files/stat?'' @ encode_values (file_path_query p)) None"

definition rq_list_files :: "orcal_client \<Rightarrow> string \<Rightarrow> string \<Rightarrow> client_request" where
  "rq_list_files c ref p = new_request c ''GET'' (in_box ref @ ''/files/list?'' @ encode_values (file_path_query p)) None"

definition rq_download_archive :: "orcal_client \<Rightarrow> string \<Rightarrow> string \<Rightarrow> client_request" where
  "rq_download_archive c ref p = new_request c ''GET'' (in_box ref @ ''/archive?'' @ encode_values (file_path_query p)) None"

definition rq_upload_archive :: "orcal_client \<Rightarrow> string \<Rightarrow> string \<Rightarrow> tar_stream \<Rightarrow> client_request" where
  "rq_upload_archive c ref p body =
     new_stream_request c ''PUT'' (in_box ref @ ''/archive?'' @ encode_values (file_path_query p)) (Tar_content body)
       ''application/x-tar''"

definition rq_create_token :: "orcal_client \<Rightarrow> create_token_params \<Rightarrow> client_request" where
  "rq_create_token c p = new_request c ''POST'' ''/v1/tokens'' (Some (create_token_json p))"

definition rq_list_tokens :: "orcal_client \<Rightarrow> client_request" where
  "rq_list_tokens c = new_request c ''GET'' ''/v1/tokens'' None"

definition rq_revoke_token :: "orcal_client \<Rightarrow> string \<Rightarrow> client_request" where
  "rq_revoke_token c i = new_request c ''DELETE'' (''/v1/tokens/'' @ path_escape i) None"

text \<open>
  An instant of the query of events, with \<open>time.Time.Format(time.RFC3339)\<close> in UTC: whole
  seconds; the zero time is no bound.
\<close>

definition pad2 :: "int \<Rightarrow> string" where
  "pad2 n = (if n < 10 then ''0'' else []) @ decimal (nat n)"

definition pad4 :: "int \<Rightarrow> string" where
  "pad4 n = replicate (4 - length (decimal (nat n))) (CHR ''0'') @ decimal (nat n)"

text \<open>The year and month of a day: as many steps as there can be months to pass.\<close>

fun month_of :: "nat \<Rightarrow> int \<Rightarrow> int \<Rightarrow> int \<Rightarrow> int \<times> int" where
  "month_of 0 y m d = (m, d)"
| "month_of (Suc n) y m d = (if d < days_in y m then (m, d) else month_of n y (m + 1) (d - days_in y m))"

definition year_of :: "int \<Rightarrow> int" where
  "year_of d =
     (let y = d * 400 div 146097 in
      if days_before (y + 2) 1 \<le> d then y + 2 else if days_before (y + 1) 1 \<le> d then y + 1 else y)"

definition format_rfc3339 :: "time \<Rightarrow> string" where
  "format_rfc3339 t =
     (let s = t div 1000000000; d = s div 86400; r = s mod 86400; y = year_of d;
          (m, k) = month_of 11 y 1 (d - days_before y 1)
      in pad4 y @ ''-'' @ pad2 m @ ''-'' @ pad2 (k + 1) @ ''T'' @ pad2 (r div 3600) @ '':'' @
         pad2 (r div 60 mod 60) @ '':'' @ pad2 (r mod 60) @ ''Z'')"

record list_events_params =
  lep_actor :: string
  lep_action :: string
  lep_resource_type :: string
  lep_resource_id :: string
  lep_since :: time
  lep_until :: time
  lep_limit :: int
  lep_cursor :: string

definition events_query :: "list_events_params \<Rightarrow> url_values" where
  "events_query p =
     set_unless_empty ''cursor'' (lep_cursor p)
      ((\<lambda>q. if lep_limit p > 0 then set_value ''limit'' (itoa (lep_limit p)) q else q)
       ((\<lambda>q. if lep_until p = 0 then q else set_value ''until'' (format_rfc3339 (lep_until p)) q)
        ((\<lambda>q. if lep_since p = 0 then q else set_value ''since'' (format_rfc3339 (lep_since p)) q)
         (set_unless_empty ''resource_id'' (lep_resource_id p)
          (set_unless_empty ''resource_type'' (lep_resource_type p)
           (set_unless_empty ''action'' (lep_action p)
            (set_unless_empty ''actor'' (lep_actor p) [])))))))"

definition rq_list_events :: "orcal_client \<Rightarrow> list_events_params \<Rightarrow> client_request" where
  "rq_list_events c p = new_request c ''GET'' (''/v1/events?'' @ encode_values (events_query p)) None"

lemma format_leap_day:
  "format_rfc3339 (62135596800000000000 + 1709251199 * 1000000000) = ''2024-02-29T23:59:59Z''"
  by code_simp

section \<open>What the daemon receives\<close>

text \<open>
  \<open>http.ServeMux\<close> cleans the path as it was sent, keeping a last slash; one that is not clean is
  answered with a redirect to the clean one, before any handler. The segments are then unescaped.
\<close>

definition mux_clean :: "string \<Rightarrow> string" where
  "mux_clean p =
     (let q = path_clean p in if p \<noteq> [] \<and> last p = slash \<and> q \<noteq> ''/'' then q @ ''/'' else q)"

fun all_some :: "'a option list \<Rightarrow> 'a list option" where
  "all_some [] = Some []"
| "all_some (x # xs) = Option.bind x (\<lambda>a. map_option ((#) a) (all_some xs))"

text \<open>A pair with a semicolon or that does not unescape is dropped.\<close>

definition parse_pair :: "string \<Rightarrow> (string \<times> string) list" where
  "parse_pair kv =
     (if kv = [] \<or> CHR '';'' \<in> set kv then []
      else (case cut (CHR ''='') kv of (k, v, _) \<Rightarrow>
              (case (unescape True k, unescape True v) of (Some k', Some v') \<Rightarrow> [(k', v')] | _ \<Rightarrow> [])))"

definition parse_query :: "string \<Rightarrow> (string \<times> string) list" where
  "parse_query q = concat (map parse_pair (split_on (CHR ''&'') q))"

definition received :: "string \<Rightarrow> client_request \<Rightarrow> request option" where
  "received remote_addr cr =
     (case cut (CHR ''?'') (cq_target cr) of (path, query, _) \<Rightarrow>
        if mux_clean path \<noteq> path then None
        else map_option (\<lambda>segs.
          \<lparr>rq_method = cq_method cr, rq_path = segs, rq_query = parse_query query,
           rq_authorization = cq_authorization cr, rq_request_id = [], rq_remote_addr = remote_addr,
           rq_json = (case cq_body cr of Json_content j \<Rightarrow> Inr j | _ \<Rightarrow> Inl (Sentinel Io_eof)),
           rq_upload = (case cq_body cr of Bytes_content up \<Rightarrow> up | _ \<Rightarrow> \<lparr>up_bytes = [], up_error = None\<rparr>),
           rq_tar = (case cq_body cr of Tar_content ts \<Rightarrow> ts | _ \<Rightarrow> \<lparr>ts_entries = [], ts_error = None\<rparr>)\<rparr>)
          (all_some (map (unescape False) (tl (split_on slash path)))))"

end
