(* ===== verification/Client_Laws.thy ===== *)
theory Client_Laws
  imports Client
begin

text \<open>
  The client and the daemon agree: each method's request reaches the handler it is meant for,
  with the references, the queries and the bodies it was given.
\<close>

section \<open>Escaped paths\<close>






lemma cut_at: "c \<notin> set a \<Longrightarrow> cut c (a @ c # b) = (a, b, True)" "c \<notin> set a \<Longrightarrow> cut c a = (a, [], False)"
  by (induction a) auto


definition request_of :: "string \<Rightarrow> client_request \<Rightarrow> string list \<Rightarrow> string option \<Rightarrow> request" where
  "request_of remote_addr cr segs query =
     \<lparr>rq_method = cq_method cr, rq_path = segs,
      rq_query = (case query of None \<Rightarrow> [] | Some q \<Rightarrow> parse_query q),
      rq_authorization = cq_authorization cr, rq_request_id = [], rq_remote_addr = remote_addr,
      rq_json = (case cq_body cr of Json_content j \<Rightarrow> Inr j | _ \<Rightarrow> Inl (Sentinel Io_eof)),
      rq_upload = (case cq_body cr of Bytes_content up \<Rightarrow> up | _ \<Rightarrow> \<lparr>up_bytes = [], up_error = None\<rparr>),
      rq_tar = (case cq_body cr of Tar_content ts \<Rightarrow> ts | _ \<Rightarrow> \<lparr>ts_entries = [], ts_error = None\<rparr>)\<rparr>"



section \<open>Queries\<close>

lemma query_chars:
  assumes "c \<in> set (query_escape s)"
  shows "c \<notin> {CHR ''&'', CHR ''='', CHR '';''}"
proof -
  obtain d where "c \<in> set (if unreserved d then [d] else if d = CHR '' '' then ''+'' else percent d)"
    using assms unfolding query_escape_def set_concat set_map by blast
  then show ?thesis
    using plain_chars(2) [of d] percent_chars [of c d] by (auto split: if_splits)
qed

lemma concat_singles: "concat (map (\<lambda>(k, v). [(k, v)]) xs) = xs"
  by (induction xs) auto

lemma parse_pair_encoded: "parse_pair (query_escape k @ CHR ''='' # query_escape v) = [(k, v)]"
proof -
  have "CHR ''='' \<notin> set (query_escape k)" using query_chars by blast
  moreover have "CHR '';'' \<notin> set (query_escape k @ CHR ''='' # query_escape v)" using query_chars by auto
  ultimately show ?thesis by (simp add: parse_pair_def cut_at)
qed

lemma parse_encoded: "parse_query (encode_values q) = value_pairs q"
proof (cases "value_pairs q = []")
  case True
  then show ?thesis by (simp add: encode_values_def parse_query_def parse_pair_def)
next
  case False
  have "CHR ''&'' \<notin> set (query_escape k @ CHR ''='' # query_escape v)" for k v
    using query_chars by auto
  then have "split_on (CHR ''&'') (encode_values q) =
      map (\<lambda>(k, v). query_escape k @ ''='' @ query_escape v) (value_pairs q)"
    unfolding encode_values_def using False by (intro split_on_join) auto
  then have "parse_query (encode_values q) = concat (map (\<lambda>(k, v). [(k, v)]) (value_pairs q))"
    unfolding parse_query_def by (simp add: parse_pair_encoded comp_def case_prod_unfold)
  then show ?thesis by (simp add: concat_singles)
qed

section \<open>Handlers\<close>




text \<open>The words of the table escape to themselves.\<close>

lemma literal_segments [simp]:
  "path_escape ''v1'' = ''v1''" "path_escape ''sandboxes'' = ''sandboxes''" "path_escape ''start'' = ''start''"
  "path_escape ''stop'' = ''stop''" "path_escape ''execs'' = ''execs''" "path_escape ''output'' = ''output''"
  "path_escape ''snapshots'' = ''snapshots''" "path_escape ''restore'' = ''restore''"
  "path_escape ''files'' = ''files''" "path_escape ''stat'' = ''stat''" "path_escape ''list'' = ''list''"
  "path_escape ''archive'' = ''archive''" "path_escape ''tokens'' = ''tokens''" "path_escape ''events'' = ''events''"
  "path_escape ''version'' = ''version''"
  by code_simp+

subsection \<open>Values of a query\<close>

definition values_of :: "url_values \<Rightarrow> string \<Rightarrow> string list" where
  "values_of q k = concat (map snd (filter (\<lambda>e. fst e = k) q))"

lemma value_pairs_at: "map snd (filter (\<lambda>(k', _). k' = k) (value_pairs q)) = values_of q k"
proof -
  have "map snd (filter (\<lambda>(k', _). k' = k) (concat (map (\<lambda>(k, vs). map (Pair k) vs) xs))) = values_of xs k"
    for xs :: url_values
    by (induction xs) (auto simp: values_of_def filter_map comp_def filter_empty_conv)
  then show ?thesis
    by (simp add: value_pairs_def values_of_def sort_key_stable)
qed

lemma request_fields [simp]:
  "rq_method (request_of a cr segs q) = cq_method cr" "rq_path (request_of a cr segs q) = segs"
  "query_all (request_of a cr segs (Some (encode_values qs))) k = values_of qs k"
  by (simp_all add: request_of_def query_all_def parse_encoded value_pairs_at)

lemma values_of_Nil [simp]: "values_of [] k = []"
  by (simp add: values_of_def)

lemma values_of_set [simp]: "values_of (set_value k v q) k' = (if k' = k then [v] else values_of q k')"
  by (simp add: values_of_def set_value_def filter_filter case_prod_unfold)
    (intro impI arg_cong [where f = "\<lambda>xs. concat (map snd xs)"] filter_cong; auto)

lemma values_of_set_unless [simp]:
  "values_of (set_unless_empty k v q) k' = (if k' = k \<and> v \<noteq> [] then [v] else values_of q k')"
  by (simp add: set_unless_empty_def)







subsection \<open>Numbers\<close>

lemma decimal_digits: "list_all is_digit (decimal n) \<and> decimal n \<noteq> [] \<and> digits_value (decimal n) = int n"
proof (induction n rule: decimal.induct)
  case (1 n)
  have code: "(of_char (char_of (48 + k) :: char) :: nat) = 48 + k" if "k < 10" for k :: nat
    using that by simp
  have digit: "is_digit (char_of (48 + k)) \<and> (of_char (char_of (48 + k) :: char) :: int) = 48 + int k" if "k < 10" for k :: nat
    using code [OF that] that of_nat_of_char [of "char_of (48 + k)", where 'a = int]
    unfolding is_digit_def by simp
  have "10 * int (n div 10) + int (n mod 10) = int n"
    using mult_div_mod_eq [of 10 n] by linarith
  then show ?case
    using 1 digit [of n] digit [of "n mod 10"]
    by (cases "n < 10") (simp_all add: decimal.simps [of n] digits_value_def)
qed

lemma parse_itoa: "0 \<le> n \<Longrightarrow> n \<le> max_int64 \<Longrightarrow> parse_int64 (itoa n) = Inr n"
proof -
  assume n: "0 \<le> n" "n \<le> max_int64"
  obtain d ds where d: "decimal (nat n) = d # ds" using decimal_digits [of "nat n"] by (cases "decimal (nat n)") auto
  then have "is_digit d" using decimal_digits [of "nat n"] by simp
  then have "d \<noteq> CHR ''-''" "d \<noteq> CHR ''+''" by (auto simp: is_digit_def)
  then show ?thesis
    using n d decimal_digits [of "nat n"] by (auto simp: parse_int64_def itoa_def Let_def max_int64_def)
qed

section \<open>The table of calls\<close>
















text \<open>
  What becomes of the others: a reference \<open>..\<close> in front of \<open>/snapshots\<close> is answered with a
  redirect to the list of all snapshots.
\<close>

theorem dotdot_leaves_sandbox:
  "received a (rq_list_sandbox_snapshots c ''..'' p) = None \<and>
   mux_clean ''/v1/sandboxes/../snapshots'' = ''/v1/snapshots'' \<and>
   (\<exists>q. cq_target (rq_list_sandbox_snapshots c ''..'' p) = ''/v1/sandboxes/../snapshots'' @ CHR ''?'' # q)"
proof -
  have esc: "path_escape ''..'' = ''..''" and clean: "mux_clean ''/v1/sandboxes/../snapshots'' = ''/v1/snapshots''"
    by code_simp+
  moreover have "CHR ''?'' \<notin> set ''/v1/sandboxes/../snapshots''" by simp
  note cut = cut_at(1) [OF this]
  moreover have "cq_target (rq_list_sandbox_snapshots c ''..'' p) =
      ''/v1/sandboxes/../snapshots'' @ CHR ''?'' # encode_values (list_query p)"
    using esc by (simp add: rq_list_sandbox_snapshots_def new_request_def in_box_def)
  ultimately show ?thesis
    unfolding received_def by (simp only: cut prod.case) simp
qed

section \<open>Bodies\<close>




text \<open>What a map that was left out is taken for.\<close>

definition dict_of :: "(string \<times> string) list \<Rightarrow> dict option" where
  "dict_of kvs = (if kvs = [] then None else Some (map_of kvs))"




text \<open>The names of the members are lower case already.\<close>

lemma lower_names [simp]:
  "map lower_char ''name'' = ''name''" "map lower_char ''image'' = ''image''" "map lower_char ''snapshot'' = ''snapshot''"
  "map lower_char ''cpu_millis'' = ''cpu_millis''" "map lower_char ''memory_bytes'' = ''memory_bytes''"
  "map lower_char ''pids_limit'' = ''pids_limit''" "map lower_char ''network'' = ''network''"
  "map lower_char ''env'' = ''env''" "map lower_char ''labels'' = ''labels''" "map lower_char ''command'' = ''command''"
  "map lower_char ''working_dir'' = ''working_dir''" "map lower_char ''user'' = ''user''"
  "map lower_char ''scopes'' = ''scopes''" "map lower_char ''expires_in_seconds'' = ''expires_in_seconds''"
  by code_simp+





lemma andThen_value [simp]: "andThen (Inr x) f = f x"
  by (simp add: andThen_def)




section \<open>Examples\<close>







end
