(* ===== verification/Spec2Isabelle.thy ===== *)
theory Spec2Isabelle
  imports Fleet Runs Stream Pages Locking Docker_Laws Client_Laws
begin

text \<open>
  A verification library of \<open>orcal\<close>, a daemon that runs sandboxes in containers: the daemon's
  services, its store, its HTTP API, its two runtimes and the Go client.

  \<^bold>\<open>The program.\<close> \<open>cmd/orcald\<close> opens a SQLite store and a container runtime and puts the services
  over them. \<open>internal/sandbox\<close> keeps one row per sandbox and drives its container through a
  state machine; \<open>internal/snapshot\<close> commits containers to images, which a sandbox can be forked
  from or restored to; \<open>internal/exec\<close> runs commands, copies their output into a log and lets
  handlers follow it; \<open>internal/files\<close> reads and writes inside a container through tar streams;
  \<open>internal/auth\<close> and \<open>internal/audit\<close> hold the tokens and the trail of events; \<open>internal/api\<close>
  is the route table with its layers (request id, audit, authentication, scope) and the handlers.
  \<open>pkg/orcalclient\<close> makes the requests.

  \<^bold>\<open>Shape of the model.\<close> An operation is a function from a state to a result and a state, the
  result an error or a value (\<open>op\<close> of \<open>Prelude\<close>); errors are trees of wrapped sentinels. A
  component is a record of what the code's struct holds, over a state of any type, and its methods
  are definitions over that record. Where a component relies on another through a Go interface
  there is a locale with the interface's laws, and every provider in the library interprets it:
  the sandbox, snapshot, exec, token, event and settings repositories by the SQLite store
  (\<open>Store\<close>) and, for tokens and events, the in-memory ones; the runtime by the in-memory runtime
  (\<open>Fake_Runtime\<close>), and by the Docker adapter for every daemon that behaves as documented
  (\<open>Docker_Laws\<close>). Theory \<open>World\<close> interprets all of them again on the daemon put together the way
  \<open>main.go\<close> does it, and the properties are stated there.

  \<^bold>\<open>Theories and sources.\<close>

  \<^item> \<open>Prelude\<close>: errors, operations, weakest preconditions and preservation rules. \<open>Paths\<close>: the Go
    string and path functions. \<open>Names\<close>: \<open>internal/sandbox/name.go\<close> and its like.
  \<^item> \<open>Sandbox\<close> (\<open>internal/sandbox\<close>), with \<open>Sandbox_Settled\<close> (rows and containers account for each
    other) and \<open>Sandbox_Outcomes\<close> (what each operation has done when it returns, or fails);
    \<open>Locking\<close> (\<open>lock.go\<close>); \<open>Snapshot\<close> (\<open>internal/snapshot\<close>).
  \<^item> \<open>Exec_Log\<close> (\<open>internal/exec/log.go\<close>) on the bytes of the file; \<open>Exec\<close> (\<open>service.go\<close>, \<open>exec.go\<close>);
    \<open>Stream\<close> (\<open>broadcaster.go\<close> and the output handler of \<open>internal/api/execs.go\<close>) as a step
    relation over all interleavings of supervisor, broadcaster and handler.
  \<^item> \<open>Auth\<close> (\<open>internal/auth\<close>), \<open>Audit_Log\<close> (\<open>internal/audit\<close>), \<open>Config\<close> (\<open>internal/config\<close>).
  \<^item> \<open>Runtime_Iface\<close> (\<open>internal/runtime\<close>), \<open>Fake_Runtime\<close> (\<open>internal/runtime/fake\<close>), \<open>Docker\<close> and
    \<open>Docker_Laws\<close> (\<open>internal/runtime/docker\<close>).
  \<^item> \<open>File_Entries\<close> and \<open>Files\<close> (\<open>internal/files\<close>); \<open>Store\<close> (\<open>internal/store/sqlite\<close>).
  \<^item> \<open>Api_Types\<close> (\<open>internal/apigen\<close>, \<open>convert.go\<close>, \<open>errors.go\<close>), \<open>Requests\<close> (the decoding of
    requests), \<open>Api\<close> (the handlers, \<open>routes.go\<close>, \<open>server.go\<close>, \<open>auth.go\<close>, \<open>audit.go\<close>).
  \<^item> \<open>World\<close> and \<open>First_Start\<close> (\<open>cmd/orcald/main.go\<close>); \<open>Client\<close> and \<open>Client_Laws\<close>
    (\<open>pkg/orcalclient\<close>).

  \<^bold>\<open>What is shown.\<close> \<open>Fleet\<close>: rows and containers account for each other whatever the runtime
  refuses, states move along the state machine, live names are distinct, and what Create, Destroy,
  Fork, Restore and the snapshot operations have done. \<open>Runs\<close>: an exec from its creation to what a
  reader of its log gets, and what a restart makes of it. \<open>Stream\<close>: the output stream is the log
  from the cursor on, in order, without a lost wake-up, and ends. \<open>Access\<close>: tokens never exceed
  their creator, only live ones enter, an administrator stays, a first start lets somebody in.
  \<open>Transfers\<close>: what is written is read back, and an upload stays below its destination. \<open>Serving\<close>:
  a request without the scope of its route changes nothing, every action is recorded once, the
  tables stay consistent under all requests. \<open>Pages\<close>: following the cursors lists everything.
  \<open>Docker_Laws\<close>: the Docker adapter fulfils the contract of a runtime, and its sessions yield the
  frames that were sent. \<open>Locking\<close>: the keyed mutex excludes per key and delays nobody else.
  \<open>Client_Laws\<close>: each method of the client reaches its handler, with what it was given.

  \<^bold>\<open>Fuel.\<close> \<open>supervise\<close> and \<open>pump\<close> take fuel because a session may stream forever; the properties
  give one unit per frame and one more, with which they end. \<open>deepest_ancestor\<close> and \<open>dirs_up\<close> take
  the number of elements of a path, each step of which removes one. \<open>all_pages\<close> takes one unit
  more than there are rows. \<open>docker_wait\<close> takes the number of ticks before its context ends, which
  is a choice of the caller's. A month is found in at most twelve steps (\<open>month_of\<close>).

  \<^bold>\<open>Third parties.\<close> SHA-256 and the random source, the uuid package, the Docker client, the tar
  package's header sizes and the runtime's appetite for a stream are parameters. What SQLite
  checks is written out from the migrations. Times are nanoseconds since the first instant of
  year 1.

  \<^bold>\<open>Not modelled.\<close> The command line \<open>cmd/orcal\<close> and the sending of requests; signals, the hourly
  prune and the graceful shutdown of the daemon; the logging and panic-recovery middlewares;
  opening the database and running its migrations; the texts of errors; contexts, except where a
  call that ends early is an outcome of its own. The bytes of a JSON body, of a tar stream and of
  the event stream are taken at the level of their values.
\<close>

end
